(* ===== verification/Prelude.thy ===== *)
theory Prelude
  imports Main "HOL-Library.Char_ord" "HOL-Library.List_Lexorder" "HOL-Library.Sublist"
begin

text \<open>
  Shared vocabulary of the development: Go byte strings and the functions of the standard
  packages \<open>strings\<close>, \<open>strconv\<close>, \<open>fmt\<close>, \<open>encoding/hex\<close> that the source uses, Go errors
  (sentinels, \<open>fmt.Errorf\<close> with \<open>%w\<close>, \<open>errors.Is\<close>), 64-bit arithmetic, and calls that
  may fail and change a state. A Go \<open>string\<close> and a Go \<open>[]byte\<close> are both the list of
  their bytes, HOL's \<open>string\<close>; comparison of keys is the library's lexicographic order on
  lists over the numeric order on characters, which is \<open>memcmp\<close>.
\<close>

named_theorems keeps "a call keeps an invariant, whatever it returns"
named_theorems wp "Hoare rules for the call combinators"

type_synonym bytes = string

section \<open>Strings\<close>

definition hasPrefix :: "string \<Rightarrow> string \<Rightarrow> bool" where
  "hasPrefix s p \<longleftrightarrow> take (length p) s = p"

definition hasSuffix :: "string \<Rightarrow> string \<Rightarrow> bool" where
  "hasSuffix s x \<longleftrightarrow> hasPrefix (rev s) (rev x)"

definition trimPrefix :: "string \<Rightarrow> string \<Rightarrow> string" where
  "trimPrefix s p = (if hasPrefix s p then drop (length p) s else s)"

definition trimSuffix :: "string \<Rightarrow> string \<Rightarrow> string" where
  "trimSuffix s x = (if hasSuffix s x then take (length s - length x) s else s)"

text \<open>\<open>strings.Index\<close>: the least position of \<open>sub\<close> in \<open>s\<close>, \<open>None\<close> for the source's \<open>-1\<close>.\<close>

fun indexOf :: "string \<Rightarrow> string \<Rightarrow> nat option" where
  "indexOf s sub =
     (if hasPrefix s sub then Some 0
      else case s of [] \<Rightarrow> None | _ # s' \<Rightarrow> map_option Suc (indexOf s' sub))"

declare indexOf.simps [simp del]

definition containsStr :: "string \<Rightarrow> string \<Rightarrow> bool" where
  "containsStr s sub \<longleftrightarrow> indexOf s sub \<noteq> None"

definition trimLeftSet :: "string \<Rightarrow> string \<Rightarrow> string" where
  "trimLeftSet s cutset = dropWhile (\<lambda>c. c \<in> set cutset) s"

definition trimRightSet :: "string \<Rightarrow> string \<Rightarrow> string" where
  "trimRightSet s cutset = rev (dropWhile (\<lambda>c. c \<in> set cutset) (rev s))"

definition trimSet :: "string \<Rightarrow> string \<Rightarrow> string" where
  "trimSet s cutset = trimRightSet (trimLeftSet s cutset) cutset"

text \<open>
  \<open>strings.TrimSpace\<close> strips the code points of \<open>unicode.IsSpace\<close>; these are their UTF-8
  encodings (the six ASCII ones, U+0085, U+00A0, U+1680, U+2000 to U+200A, U+2028, U+2029,
  U+202F, U+205F, U+3000).
\<close>

definition spaceSeqs :: "string list" where
  "spaceSeqs = map (map char_of)
     ([[9], [10], [11], [12], [13], [32], [194, 133], [194, 160], [225, 154, 128]]
      @ map (\<lambda>b. [226, 128, b])
          [128, 129, 130, 131, 132, 133, 134, 135, 136, 137, 138, 168, 169, 175 :: nat]
      @ [[226, 129, 159], [227, 128, 128]])"

fun stripSeqs :: "nat \<Rightarrow> string list \<Rightarrow> string \<Rightarrow> string" where
  "stripSeqs 0 seqs s = s"
| "stripSeqs (Suc n) seqs s =
     (case List.find (\<lambda>p. hasPrefix s p) seqs of
        None \<Rightarrow> s
      | Some p \<Rightarrow> stripSeqs n seqs (drop (length p) s))"

text \<open>Each round removes at least one byte, so the length of the string is enough fuel.\<close>

definition trimSpace :: "string \<Rightarrow> string" where
  "trimSpace s =
     (let l = stripSeqs (length s) spaceSeqs s
      in rev (stripSeqs (length l) (map rev spaceSeqs) (rev l)))"

text \<open>\<open>strings.Split\<close> and \<open>strings.SplitN\<close> at a one-byte separator.\<close>

fun splitOn :: "char \<Rightarrow> string \<Rightarrow> string list" where
  "splitOn c [] = [[]]"
| "splitOn c (x # xs) =
     (if x = c then [] # splitOn c xs
      else case splitOn c xs of [] \<Rightarrow> [[x]] | w # ws \<Rightarrow> (x # w) # ws)"

fun splitN :: "nat \<Rightarrow> char \<Rightarrow> string \<Rightarrow> string list" where
  "splitN 0 c s = []"
| "splitN (Suc 0) c s = [s]"
| "splitN (Suc (Suc n)) c s =
     (case dropWhile (\<lambda>x. x \<noteq> c) s of
        [] \<Rightarrow> [s]
      | _ # rest \<Rightarrow> takeWhile (\<lambda>x. x \<noteq> c) s # splitN (Suc n) c rest)"

fun joinStr :: "string \<Rightarrow> string list \<Rightarrow> string" where
  "joinStr sep [] = []"
| "joinStr sep [w] = w"
| "joinStr sep (w # ws) = w @ sep @ joinStr sep ws"

subsection \<open>Slash-separated paths\<close>

text \<open>
  \<open>path.Clean\<close>: empty and dot elements go, a double dot removes the element before it (at the
  root it goes too, at the start of a relative path it stays). \<open>path.Dir\<close> cleans what precedes the
  last slash, \<open>path.Join\<close> cleans the non-empty elements with slashes between.
\<close>

fun cleanElems :: "bool \<Rightarrow> string list \<Rightarrow> string list \<Rightarrow> string list" where
  "cleanElems rooted acc [] = rev acc"
| "cleanElems rooted acc (e # es) =
     (if e = [] \<or> e = ''.'' then cleanElems rooted acc es
      else if e = ''..'' then
        (case acc of
           a # as \<Rightarrow> if a = ''..'' then cleanElems rooted (e # acc) es else cleanElems rooted as es
         | [] \<Rightarrow> if rooted then cleanElems rooted [] es else cleanElems rooted [e] es)
      else cleanElems rooted (e # acc) es)"

definition pathClean :: "string \<Rightarrow> string" where
  "pathClean p =
     (let rooted = hasPrefix p ''/'';
          out = (if rooted then ''/'' else []) @ joinStr ''/'' (cleanElems rooted [] (splitOn (CHR ''/'') p)) in
      if out = [] then ''.'' else out)"

definition pathDir :: "string \<Rightarrow> string" where
  "pathDir p = pathClean (rev (dropWhile (\<lambda>c. c \<noteq> CHR ''/'') (rev p)))"

definition pathJoin :: "string list \<Rightarrow> string" where
  "pathJoin elems =
     (let es = filter (\<lambda>e. e \<noteq> []) elems in if es = [] then [] else pathClean (joinStr ''/'' es))"

subsection \<open>Decimal and hexadecimal\<close>

definition digitChar :: "nat \<Rightarrow> char" where
  "digitChar d = char_of (if d < 10 then 48 + d else 87 + d)"

fun decN :: "nat \<Rightarrow> string" where
  "decN n = (if n < 10 then [digitChar n] else decN (n div 10) @ [digitChar (n mod 10)])"

declare decN.simps [simp del]

text \<open>\<open>%d\<close>.\<close>

definition fmtD :: "int \<Rightarrow> string" where
  "fmtD i = (if i < 0 then CHR ''-'' # decN (nat (- i)) else decN (nat i))"

text \<open>\<open>encoding/hex.EncodeToString\<close> and \<open>DecodeString\<close> (\<open>None\<close> for its error).\<close>

definition hexEncode :: "bytes \<Rightarrow> string" where
  "hexEncode bs = concat (map (\<lambda>c. [digitChar (of_char c div 16), digitChar (of_char c mod 16)]) bs)"

definition hexVal :: "char \<Rightarrow> nat option" where
  "hexVal c =
     (let n = of_char c :: nat in
      if 48 \<le> n \<and> n \<le> 57 then Some (n - 48)
      else if 97 \<le> n \<and> n \<le> 102 then Some (n - 87)
      else if 65 \<le> n \<and> n \<le> 70 then Some (n - 55)
      else None)"

fun hexDecode :: "string \<Rightarrow> bytes option" where
  "hexDecode [] = Some []"
| "hexDecode [c] = None"
| "hexDecode (a # b # s) =
     (case (hexVal a, hexVal b, hexDecode s) of
        (Some x, Some y, Some r) \<Rightarrow> Some (char_of (16 * x + y) # r)
      | _ \<Rightarrow> None)"

text \<open>
  \<open>%q\<close>, only used inside error texts. Bytes above ASCII are copied, as Go does for printable
  UTF-8; Go writes an escape for the others.
\<close>

definition quoteChar :: "char \<Rightarrow> string" where
  "quoteChar c =
     (let n = of_char c :: nat in
      if c = CHR 0x22 then [CHR 0x5C, c]
      else if c = CHR 0x5C then [CHR 0x5C, c]
      else if 32 \<le> n \<and> n \<noteq> 127 then [c]
      else if n = 7 then [CHR 0x5C, CHR ''a'']
      else if n = 8 then [CHR 0x5C, CHR ''b'']
      else if n = 9 then [CHR 0x5C, CHR ''t'']
      else if n = 10 then [CHR 0x5C, CHR ''n'']
      else if n = 11 then [CHR 0x5C, CHR ''v'']
      else if n = 12 then [CHR 0x5C, CHR ''f'']
      else if n = 13 then [CHR 0x5C, CHR ''r'']
      else [CHR 0x5C, CHR ''x''] @ hexEncode [c])"

definition fmtQ :: "string \<Rightarrow> string" where
  "fmtQ s = [CHR 0x22] @ concat (map quoteChar s) @ [CHR 0x22]"

section \<open>Integers and times\<close>

text \<open>The value of an \<open>int64\<close> expression: two's complement, 64 bits.\<close>

definition i64 :: "int \<Rightarrow> int" where
  "i64 x = (x + 2 ^ 63) mod 2 ^ 64 - 2 ^ 63"

definition is_i64 :: "int \<Rightarrow> bool" where
  "is_i64 x \<longleftrightarrow> - (2 ^ 63) \<le> x \<and> x < 2 ^ 63"

text \<open>
  A \<open>time.Time\<close> is its number of nanoseconds since the epoch. \<open>Unix()\<close> rounds down to
  seconds; \<open>time.Unix(ts, 0)\<close> goes back.
\<close>

type_synonym gotime = int

definition unixSec :: "gotime \<Rightarrow> int" where
  "unixSec t = t div 1000000000"

definition timeUnix :: "int \<Rightarrow> gotime" where
  "timeUnix ts = ts * 1000000000"

section \<open>Errors\<close>

text \<open>The package-level error variables of the source.\<close>

datatype sentinel =
    ErrObjectNotFound | ErrBucketNotFound | ErrUploadNotFound | ErrPartNotFound
  | ErrPartETagMismatch | ErrUnavailable | ErrUnknownAccessKey | ErrMissingAuthHeader
  | ErrInvalidAuthHeader | ErrSignatureMismatch | ErrRequestExpired | ErrContentHashMismatch
  | ErrProvisioningSkipped

text \<open>
  An \<open>error\<close> value: a text of its own (\<open>errors.New\<close>, \<open>fmt.Errorf\<close> without \<open>%w\<close>), a
  sentinel, an error of the SQL driver, an error that comes from outside the source (its text,
  and the value of its \<open>StatusCode()\<close> method if it has one), one that wraps others (\<open>fmt.Errorf\<close> with \<open>%w\<close>), and the quota error of
  \<open>quota.go\<close>. \<open>EAbort\<close> is not an error value: it is a run-time panic, which unwinds
  through every caller up to the HTTP server, so the wrapping combinators below let it pass.
\<close>

datatype sqlerr = NoRows | Constraint string | DBFail string

datatype gerr =
    ENew string
  | ESent sentinel
  | ESQL sqlerr
  | EExt "int option" string
  | EWrap string gerr string
  | EWrap2 string gerr string gerr string
  | EQuota string int int int
  | EAbort string

fun sentinelText :: "sentinel \<Rightarrow> string" where
  "sentinelText ErrObjectNotFound = ''object not found''"
| "sentinelText ErrBucketNotFound = ''bucket not found''"
| "sentinelText ErrUploadNotFound = ''multipart upload not found''"
| "sentinelText ErrPartNotFound = ''part not found''"
| "sentinelText ErrPartETagMismatch = ''part ETag mismatch''"
| "sentinelText ErrUnavailable = ''bucket metadata unavailable''"
| "sentinelText ErrUnknownAccessKey = ''unknown access key''"
| "sentinelText ErrMissingAuthHeader = ''missing Authorization header''"
| "sentinelText ErrInvalidAuthHeader = ''invalid Authorization header format''"
| "sentinelText ErrSignatureMismatch = ''signature mismatch''"
| "sentinelText ErrRequestExpired = ''request timestamp outside allowed window''"
| "sentinelText ErrContentHashMismatch = ''payload hash mismatch''"
| "sentinelText ErrProvisioningSkipped = ''provisioning skipped''"

text \<open>\<open>err.Error()\<close>.\<close>

fun errText :: "gerr \<Rightarrow> string" where
  "errText (ENew t) = t"
| "errText (ESent s) = sentinelText s"
| "errText (ESQL NoRows) = ''sql: no rows in result set''"
| "errText (ESQL (Constraint c)) = ''constraint failed: UNIQUE constraint failed: '' @ c"
| "errText (ESQL (DBFail t)) = t"
| "errText (EExt c t) = t"
| "errText (EWrap a e b) = a @ errText e @ b"
| "errText (EWrap2 a e b e' c) = a @ errText e @ b @ errText e' @ c"
| "errText (EQuota loc cur add q) =
     ''quota exceeded for location '' @ loc @ '': current '' @ fmtD cur @ '' + additional ''
       @ fmtD add @ '' > limit '' @ fmtD q"
| "errText (EAbort t) = t"

text \<open>\<open>errors.Is(err, sentinel)\<close> and \<open>errors.As\<close> to the quota error.\<close>

fun errIs :: "sentinel \<Rightarrow> gerr \<Rightarrow> bool" where
  "errIs s (ESent t) \<longleftrightarrow> s = t"
| "errIs s (EWrap _ e _) \<longleftrightarrow> errIs s e"
| "errIs s (EWrap2 _ e _ e' _) \<longleftrightarrow> errIs s e \<or> errIs s e'"
| "errIs s _ \<longleftrightarrow> False"

fun errIsQuota :: "gerr \<Rightarrow> bool" where
  "errIsQuota (EQuota _ _ _ _) \<longleftrightarrow> True"
| "errIsQuota (EWrap _ e _) \<longleftrightarrow> errIsQuota e"
| "errIsQuota (EWrap2 _ e _ e' _) \<longleftrightarrow> errIsQuota e \<or> errIsQuota e'"
| "errIsQuota _ \<longleftrightarrow> False"

abbreviation wrapAs :: "string \<Rightarrow> gerr \<Rightarrow> gerr" where
  "wrapAs ctx e \<equiv> EWrap (ctx @ '': '') e []"

section \<open>Calls\<close>

text \<open>
  A call takes the state, returns an error or a value, and the new state. \<open>bnd\<close> is Go's
  \<open>x, err := m(); if err != nil { return err }\<close>; \<open>wrapE\<close> rewrites the error on the way
  out; \<open>attempt\<close> hands the error to the caller as a value (Go's \<open>_ = m()\<close> and the
  branches that inspect \<open>err\<close>).
\<close>

type_synonym ('s, 'a) act = "'s \<Rightarrow> (gerr + 'a) \<times> 's"

definition ret :: "'a \<Rightarrow> ('s, 'a) act" where
  "ret a s = (Inr a, s)"

definition fail :: "gerr \<Rightarrow> ('s, 'a) act" where
  "fail e s = (Inl e, s)"

definition bnd :: "('s, 'a) act \<Rightarrow> ('a \<Rightarrow> ('s, 'b) act) \<Rightarrow> ('s, 'b) act" where
  "bnd m f s = (case m s of (Inl e, s') \<Rightarrow> (Inl e, s') | (Inr a, s') \<Rightarrow> f a s')"

definition thn :: "('s, 'a) act \<Rightarrow> ('s, 'b) act \<Rightarrow> ('s, 'b) act" where
  "thn m n = bnd m (\<lambda>_. n)"

fun aborts :: "gerr \<Rightarrow> bool" where
  "aborts (EAbort _) \<longleftrightarrow> True"
| "aborts _ \<longleftrightarrow> False"

definition wrapE :: "(gerr \<Rightarrow> gerr) \<Rightarrow> ('s, 'a) act \<Rightarrow> ('s, 'a) act" where
  "wrapE g m s =
     (case m s of (Inl e, s') \<Rightarrow> (Inl (if aborts e then e else g e), s') | (Inr a, s') \<Rightarrow> (Inr a, s'))"

definition attempt :: "('s, 'a) act \<Rightarrow> ('s, gerr + 'a) act" where
  "attempt m s =
     (case m s of (Inl e, s') \<Rightarrow> (if aborts e then Inl e else Inr (Inl e), s')
                | (Inr a, s') \<Rightarrow> (Inr (Inr a), s'))"

definition orElse :: "('s, 'a) act \<Rightarrow> (gerr \<Rightarrow> ('s, 'a) act) \<Rightarrow> ('s, 'a) act" where
  "orElse m h s =
     (case m s of (Inl e, s') \<Rightarrow> if aborts e then (Inl e, s') else h e s' | (Inr a, s') \<Rightarrow> (Inr a, s'))"

definition gets :: "('s \<Rightarrow> 'a) \<Rightarrow> ('s, 'a) act" where
  "gets f s = (Inr (f s), s)"

definition modify :: "('s \<Rightarrow> 's) \<Rightarrow> ('s, unit) act" where
  "modify f s = (Inr (), f s)"

definition liftE :: "gerr + 'a \<Rightarrow> ('s, 'a) act" where
  "liftE r s = (r, s)"

lemmas act_defs = ret_def fail_def bnd_def thn_def wrapE_def attempt_def orElse_def gets_def
  modify_def liftE_def

subsection \<open>Invariants and Hoare triples of calls\<close>

text \<open>
  \<open>kept I m\<close>: whatever \<open>m\<close> returns, error or value, it leaves the invariant intact. The
  triple \<open>hoare P m Q E\<close> has one postcondition for values and one for errors.
\<close>

definition kept :: "('s \<Rightarrow> bool) \<Rightarrow> ('s, 'a) act \<Rightarrow> bool" where
  "kept I m \<longleftrightarrow> (\<forall>s. I s \<longrightarrow> I (snd (m s)))"

definition hoare ::
  "('s \<Rightarrow> bool) \<Rightarrow> ('s, 'a) act \<Rightarrow> ('a \<Rightarrow> 's \<Rightarrow> bool) \<Rightarrow> (gerr \<Rightarrow> 's \<Rightarrow> bool) \<Rightarrow> bool" where
  "hoare P m Q E \<longleftrightarrow>
     (\<forall>s. P s \<longrightarrow> (case m s of (Inl e, s') \<Rightarrow> E e s' | (Inr a, s') \<Rightarrow> Q a s'))"

lemma keptI: "(\<And>s. I s \<Longrightarrow> I (snd (m s))) \<Longrightarrow> kept I m"
  by (simp add: kept_def)

lemma keptD: "kept I m \<Longrightarrow> I s \<Longrightarrow> I (snd (m s))"
  by (simp add: kept_def)

lemma keptD': "kept I m \<Longrightarrow> I s \<Longrightarrow> m s = (r, s') \<Longrightarrow> I s'"
  by (drule (1) keptD) simp

lemma kept_ret [keeps]: "kept I (ret a)"
  by (simp add: kept_def ret_def)

lemma kept_fail [keeps]: "kept I (fail e)"
  by (simp add: kept_def fail_def)

lemma kept_gets [keeps]: "kept I (gets f)"
  by (simp add: kept_def gets_def)

lemma kept_liftE [keeps]: "kept I (liftE r)"
  by (simp add: kept_def liftE_def)

lemma kept_modify: "(\<And>s. I s \<Longrightarrow> I (f s)) \<Longrightarrow> kept I (modify f)"
  by (simp add: kept_def modify_def)

lemma kept_bnd [keeps]:
  assumes "kept I m" and "\<And>a. kept I (f a)"
  shows "kept I (bnd m f)"
proof (rule keptI)
  fix s
  assume "I s"
  with assms(1) have 1: "I (snd (m s))" by (rule keptD)
  obtain r s' where m: "m s = (r, s')" by (cases "m s")
  show "I (snd (bnd m f s))"
  proof (cases r)
    case (Inl e)
    with 1 m show ?thesis by (simp add: bnd_def)
  next
    case (Inr a)
    from 1 m have "I s'" by simp
    with assms(2) have "I (snd (f a s'))" by (rule keptD)
    with Inr m show ?thesis by (simp add: bnd_def)
  qed
qed

lemma kept_thn [keeps]: "kept I m \<Longrightarrow> kept I n \<Longrightarrow> kept I (thn m n)"
  by (simp add: thn_def kept_bnd)

lemma kept_wrapE [keeps]: "kept I m \<Longrightarrow> kept I (wrapE g m)"
  by (auto simp: kept_def wrapE_def split: prod.split sum.split)

lemma kept_attempt [keeps]: "kept I m \<Longrightarrow> kept I (attempt m)"
  by (auto simp: kept_def attempt_def split: prod.split sum.split)

lemma kept_orElse [keeps]:
  assumes "kept I m" and "\<And>e. kept I (h e)"
  shows "kept I (orElse m h)"
  using assms by (fastforce simp: kept_def orElse_def split: prod.split sum.split)

lemma kept_if [keeps]: "(b \<Longrightarrow> kept I m) \<Longrightarrow> (\<not> b \<Longrightarrow> kept I n) \<Longrightarrow> kept I (if b then m else n)"
  by simp

lemma kept_case_sum [keeps]:
  "(\<And>e. r = Inl e \<Longrightarrow> kept I (f e)) \<Longrightarrow> (\<And>a. r = Inr a \<Longrightarrow> kept I (g a)) \<Longrightarrow>
   kept I (case r of Inl e \<Rightarrow> f e | Inr a \<Rightarrow> g a)"
  by (simp split: sum.split)

lemma kept_case_option [keeps]:
  "(x = None \<Longrightarrow> kept I f) \<Longrightarrow> (\<And>a. x = Some a \<Longrightarrow> kept I (g a)) \<Longrightarrow>
   kept I (case x of None \<Rightarrow> f | Some a \<Rightarrow> g a)"
  by (simp split: option.split)

lemma kept_case_list [keeps]:
  "(x = [] \<Longrightarrow> kept I f) \<Longrightarrow> (\<And>y ys. x = y # ys \<Longrightarrow> kept I (g y ys)) \<Longrightarrow>
   kept I (case x of [] \<Rightarrow> f | y # ys \<Rightarrow> g y ys)"
  by (simp split: list.split)

lemma kept_case_prod [keeps]:
  "(\<And>a b. x = (a, b) \<Longrightarrow> kept I (f a b)) \<Longrightarrow> kept I (case x of (a, b) \<Rightarrow> f a b)"
  by (simp split: prod.split)

lemma kept_let [keeps]: "(\<And>x. x = t \<Longrightarrow> kept I (f x)) \<Longrightarrow> kept I (let x = t in f x)"
  by simp

lemma hoareI:
  "(\<And>s a s'. P s \<Longrightarrow> m s = (Inr a, s') \<Longrightarrow> Q a s') \<Longrightarrow>
   (\<And>s e s'. P s \<Longrightarrow> m s = (Inl e, s') \<Longrightarrow> E e s') \<Longrightarrow> hoare P m Q E"
  by (auto simp: hoare_def split: prod.split sum.split)

lemma hoare_kept: "kept I m \<Longrightarrow> hoare I m (\<lambda>_. I) (\<lambda>_. I)"
  by (simp add: hoare_def kept_def split: prod.split sum.split) (metis snd_conv)

lemma hoare_post: "hoare P m Q E \<Longrightarrow> (\<And>a s. Q a s \<Longrightarrow> Q' a s) \<Longrightarrow> (\<And>e s. E e s \<Longrightarrow> E' e s) \<Longrightarrow> hoare P m Q' E'"
  by (fastforce simp: hoare_def split: prod.splits sum.splits)

lemma hoareD_Inr: "hoare P m Q E \<Longrightarrow> P s \<Longrightarrow> m s = (Inr a, s') \<Longrightarrow> Q a s'"
  by (fastforce simp: hoare_def)

lemma hoareD_Inl: "hoare P m Q E \<Longrightarrow> P s \<Longrightarrow> m s = (Inl e, s') \<Longrightarrow> E e s'"
  by (fastforce simp: hoare_def)

lemma hoare_pre: "hoare P' m Q E \<Longrightarrow> (\<And>s. P s \<Longrightarrow> P' s) \<Longrightarrow> hoare P m Q E"
  by (fastforce simp: hoare_def)

lemma hoare_ret [wp]: "hoare (Q a) (ret a) Q E"
  by (simp add: hoare_def ret_def)

lemma hoare_fail [wp]: "hoare (E e) (fail e) Q E"
  by (simp add: hoare_def fail_def)

lemma hoare_gets [wp]: "hoare (\<lambda>s. Q (f s) s) (gets f) Q E"
  by (simp add: hoare_def gets_def)

lemma hoare_modify [wp]: "hoare (\<lambda>s. Q () (f s)) (modify f) Q E"
  by (simp add: hoare_def modify_def)

lemma hoare_liftE [wp]:
  "hoare (\<lambda>s. case r of Inl e \<Rightarrow> E e s | Inr a \<Rightarrow> Q a s) (liftE r) Q E"
  by (simp add: hoare_def liftE_def split: sum.split)

lemma hoare_bnd [wp]:
  assumes "\<And>a. hoare (R a) (f a) Q E" and "hoare P m R E"
  shows "hoare P (bnd m f) Q E"
  using assms by (fastforce simp: hoare_def bnd_def split: prod.split sum.split)

lemma hoare_thn [wp]: "hoare R n Q E \<Longrightarrow> hoare P m (\<lambda>_. R) E \<Longrightarrow> hoare P (thn m n) Q E"
  unfolding thn_def by (rule hoare_bnd)

lemma hoare_wrapE [wp]:
  "hoare P m Q (\<lambda>e. E (if aborts e then e else g e)) \<Longrightarrow> hoare P (wrapE g m) Q E"
  by (fastforce simp: hoare_def wrapE_def split: prod.split sum.split)

lemma hoare_attempt [wp]:
  "hoare P m (\<lambda>a. Q (Inr a)) (\<lambda>e s. if aborts e then E e s else Q (Inl e) s) \<Longrightarrow>
   hoare P (attempt m) Q E"
  by (fastforce simp: hoare_def attempt_def split: prod.split sum.split)

lemma hoare_orElse [wp]:
  "(\<And>e. hoare (R e) (h e) Q E) \<Longrightarrow>
   hoare P m Q (\<lambda>e s. if aborts e then E e s else R e s) \<Longrightarrow> hoare P (orElse m h) Q E"
  by (fastforce simp: hoare_def orElse_def split: prod.split sum.split)

lemma hoare_if [wp]:
  "hoare P m Q E \<Longrightarrow> hoare P' n Q E \<Longrightarrow>
   hoare (\<lambda>s. if b then P s else P' s) (if b then m else n) Q E"
  by (simp add: hoare_def)

lemma hoare_case_sum [wp]:
  "(\<And>e. hoare (P e) (f e) Q E) \<Longrightarrow> (\<And>a. hoare (P' a) (g a) Q E) \<Longrightarrow>
   hoare (\<lambda>s. case r of Inl e \<Rightarrow> P e s | Inr a \<Rightarrow> P' a s)
     (case r of Inl e \<Rightarrow> f e | Inr a \<Rightarrow> g a) Q E"
  by (simp add: hoare_def split: sum.split)

lemma hoare_case_option [wp]:
  "hoare P f Q E \<Longrightarrow> (\<And>a. hoare (P' a) (g a) Q E) \<Longrightarrow>
   hoare (\<lambda>s. case x of None \<Rightarrow> P s | Some a \<Rightarrow> P' a s)
     (case x of None \<Rightarrow> f | Some a \<Rightarrow> g a) Q E"
  by (simp add: hoare_def split: option.split)

lemma hoare_fact: "(F \<Longrightarrow> hoare P m Q E) \<Longrightarrow> hoare (\<lambda>t. P t \<and> F) m Q E"
  by (simp add: hoare_def)

lemma hoare_kept_bnd: "kept I m \<Longrightarrow> (\<And>a. hoare I (f a) Q (\<lambda>_. I)) \<Longrightarrow> hoare I (bnd m f) Q (\<lambda>_. I)"
  by (rule hoare_bnd [OF _ hoare_kept])

lemma hoare_kept_thn: "kept I m \<Longrightarrow> hoare I n Q (\<lambda>_. I) \<Longrightarrow> hoare I (thn m n) Q (\<lambda>_. I)"
  by (rule hoare_thn [OF _ hoare_kept])

lemma hoare_both: "hoare P m (\<lambda>_. Q) (\<lambda>_. Q) \<Longrightarrow> P s \<Longrightarrow> Q (snd (m s))"
  by (auto simp: hoare_def split: prod.split sum.splits)

lemma bnd_Inr [simp]: "m s = (Inr a, s') \<Longrightarrow> bnd m f s = f a s'"
  by (simp add: bnd_def)

lemma bnd_Inl [simp]: "m s = (Inl e, s') \<Longrightarrow> bnd m f s = (Inl e, s')"
  by (simp add: bnd_def)

lemma thn_Inr [simp]: "m s = (Inr a, s') \<Longrightarrow> thn m n s = n s'"
  by (simp add: thn_def)

lemma thn_Inl [simp]: "m s = (Inl e, s') \<Longrightarrow> thn m n s = (Inl e, s')"
  by (simp add: thn_def)

lemma wrapE_Inr [simp]: "m s = (Inr a, s') \<Longrightarrow> wrapE g m s = (Inr a, s')"
  by (simp add: wrapE_def)

lemma wrapE_Inl [simp]: "m s = (Inl e, s') \<Longrightarrow> \<not> aborts e \<Longrightarrow> wrapE g m s = (Inl (g e), s')"
  by (simp add: wrapE_def)

lemma attempt_Inr [simp]: "m s = (Inr a, s') \<Longrightarrow> attempt m s = (Inr (Inr a), s')"
  by (simp add: attempt_def)

lemma attempt_Inl [simp]: "m s = (Inl e, s') \<Longrightarrow> \<not> aborts e \<Longrightarrow> attempt m s = (Inr (Inl e), s')"
  by (simp add: attempt_def)

lemma orElse_Inr [simp]: "m s = (Inr a, s') \<Longrightarrow> orElse m h s = (Inr a, s')"
  by (simp add: orElse_def)

lemma orElse_Inl [simp]: "m s = (Inl e, s') \<Longrightarrow> \<not> aborts e \<Longrightarrow> orElse m h s = h e s'"
  by (simp add: orElse_def)

text \<open>Inversion of a call that returned a value, for forward proofs.\<close>

lemma bnd_InrE:
  assumes "bnd m f s = (Inr b, s')"
  obtains a t where "m s = (Inr a, t)" and "f a t = (Inr b, s')"
  using assms by (auto simp: bnd_def split: prod.splits sum.splits)

lemma thn_InrE:
  assumes "thn m n s = (Inr b, s')"
  obtains a t where "m s = (Inr a, t)" and "n t = (Inr b, s')"
  using assms by (auto simp: thn_def elim: bnd_InrE)

lemma wrapE_InrD: "wrapE g m s = (Inr a, s') \<Longrightarrow> m s = (Inr a, s')"
  by (auto simp: wrapE_def split: prod.splits sum.splits)

lemma attempt_InrD: "attempt m s = (Inr r, s') \<Longrightarrow> m s = (r, s')"
  by (auto simp: attempt_def split: prod.splits sum.splits if_splits)

lemma orElse_InrE:
  assumes "orElse m h s = (Inr a, s')"
  obtains "m s = (Inr a, s')" | e t where "m s = (Inl e, t)" "\<not> aborts e" "h e t = (Inr a, s')"
  using assms by (auto simp: orElse_def split: prod.splits sum.splits if_splits)

lemma thn_fail_Inr: "thn m (fail e) s \<noteq> (Inr a, s')"
  by (auto simp: fail_def elim!: thn_InrE)

lemmas act_elims = bnd_InrE thn_InrE orElse_InrE

section \<open>Lemmas on strings\<close>

lemma hasPrefix_iff: "hasPrefix s p \<longleftrightarrow> (\<exists>t. s = p @ t)"
  unfolding hasPrefix_def by (metis append_eq_conv_conj append_take_drop_id)

lemma hasPrefix_append [simp]: "hasPrefix (p @ t) p"
  by (auto simp: hasPrefix_iff)

lemma hasPrefix_Nil [simp]: "hasPrefix s []"
  by (simp add: hasPrefix_def)

lemma hasPrefix_empty [simp]: "hasPrefix [] p \<longleftrightarrow> p = []"
  by (auto simp: hasPrefix_def)

lemma hasPrefix_Cons [simp]: "hasPrefix (x # s) (y # p) \<longleftrightarrow> x = y \<and> hasPrefix s p"
  by (auto simp: hasPrefix_def)

lemma hasSuffix_iff: "hasSuffix s x \<longleftrightarrow> (\<exists>t. s = t @ x)"
  unfolding hasSuffix_def hasPrefix_iff by (metis rev_append rev_rev_ident)

lemma hasSuffix_append [simp]: "hasSuffix (t @ x) x"
  by (auto simp: hasSuffix_iff)

lemma trimPrefix_append [simp]: "trimPrefix (p @ t) p = t"
  by (simp add: trimPrefix_def)

lemma trimSuffix_append [simp]: "trimSuffix (t @ x) x = t"
  by (simp add: trimSuffix_def)

lemma stripSeqs_nop: "List.find (\<lambda>p. hasPrefix s p) seqs = None \<Longrightarrow> stripSeqs n seqs s = s"
  by (cases n) simp_all

lemma trimSpace_id:
  assumes "List.find (\<lambda>p. hasPrefix s p) spaceSeqs = None"
    and "List.find (\<lambda>p. hasPrefix (rev s) p) (map rev spaceSeqs) = None"
  shows "trimSpace s = s"
  using assms by (simp add: trimSpace_def stripSeqs_nop Let_def)

lemma trimSpace_Nil [simp]: "trimSpace [] = []"
  by (simp add: trimSpace_def)

lemma i64_id: "is_i64 x \<Longrightarrow> i64 x = x"
  by (simp add: i64_def is_i64_def)

lemma i64_over: "2 ^ 63 \<le> x \<Longrightarrow> x < 2 ^ 64 + 2 ^ 63 \<Longrightarrow> i64 x = x - 2 ^ 64"
proof -
  assume x: "2 ^ 63 \<le> x" "x < 2 ^ 64 + 2 ^ 63"
  have "(x + 2 ^ 63) mod 2 ^ 64 = (x + 2 ^ 63 - 2 ^ 64) mod 2 ^ 64" by (rule minus_mod_self2 [symmetric])
  also have "\<dots> = x + 2 ^ 63 - 2 ^ 64" using x by (intro mod_pos_pos_trivial) simp_all
  finally show ?thesis by (simp add: i64_def)
qed

lemma is_i64_i64 [simp]: "is_i64 (i64 x)"
proof -
  have "(x + 2 ^ 63) mod 2 ^ 64 < 2 ^ 64" and "0 \<le> (x + 2 ^ 63) mod 2 ^ 64" by simp_all
  then show ?thesis by (simp add: i64_def is_i64_def)
qed

lemma of_digitChar:
  "d < 16 \<Longrightarrow> (of_char (digitChar d) :: nat) = (if d < 10 then 48 + d else 87 + d)"
  by (simp add: digitChar_def take_bit_eq_mod)

lemma digitChar_inj:
  assumes "d < 16" "e < 16" "digitChar d = digitChar e"
  shows "d = e"
proof -
  from assms(3) have "(of_char (digitChar d) :: nat) = of_char (digitChar e)" by simp
  with assms(1,2) show ?thesis by (simp add: of_digitChar split: if_splits)
qed

lemma hexVal_digitChar [simp]: "d < 16 \<Longrightarrow> hexVal (digitChar d) = Some d"
  by (simp add: hexVal_def of_digitChar)

lemma hexDecode_hexEncode [simp]: "hexDecode (hexEncode bs) = Some bs"
proof (induction bs)
  case Nil
  then show ?case by (simp add: hexEncode_def)
next
  case (Cons c bs)
  have c: "(of_char c :: nat) div 16 < 16" "(of_char c :: nat) mod 16 < 16"
    using nat_of_char_less_256 [of c] by (simp_all add: div_less_iff_less_mult del: nat_of_char_less_256)
  have e: "hexEncode (c # bs)
      = digitChar (of_char c div 16) # digitChar (of_char c mod 16) # hexEncode bs"
    by (simp add: hexEncode_def)
  show ?case by (simp only: e hexDecode.simps) (simp add: Cons.IH c)
qed

lemma length_hexEncode [simp]: "length (hexEncode bs) = 2 * length bs"
  by (induction bs) (simp_all add: hexEncode_def)

lemma decN_inj: "decN m = decN n \<Longrightarrow> m = n"
proof (induction m arbitrary: n rule: decN.induct)
  case (1 m)
  have ne: "decN k \<noteq> []" for k by (subst decN.simps) simp
  show ?case
  proof (cases "m < 10")
    case True
    with 1(2) have "\<not> n < 10 \<Longrightarrow> decN (n div 10) = []"
      by (subst (asm) (1 2) decN.simps) simp
    with ne have n: "n < 10" by blast
    with 1(2) True have "digitChar m = digitChar n"
      by (subst (asm) (1 2) decN.simps) simp
    then show ?thesis using True n by (simp add: digitChar_inj)
  next
    case False
    with 1(2) ne have n: "\<not> n < 10"
      by (subst (asm) (1 2) decN.simps) (auto split: if_splits)
    with 1(2) False have "decN (m div 10) = decN (n div 10)"
      and d: "digitChar (m mod 10) = digitChar (n mod 10)"
      by (subst (asm) (1 2) decN.simps, simp)+
    with 1(1) False have "m div 10 = n div 10" by blast
    moreover from d have "m mod 10 = n mod 10" by (simp add: digitChar_inj)
    ultimately show ?thesis by (metis div_mult_mod_eq)
  qed
qed

lemma set_decN: "c \<in> set (decN n) \<Longrightarrow> 48 \<le> (of_char c :: nat) \<and> (of_char c :: nat) \<le> 57"
proof (induction n rule: decN.induct)
  case (1 n)
  then show ?case
    by (subst (asm) (2) decN.simps) (auto simp: of_digitChar split: if_splits)
qed

lemma fmtD_inj: "fmtD i = fmtD j \<Longrightarrow> i = j"
proof -
  assume eq: "fmtD i = fmtD j"
  have minus: "CHR ''-'' \<notin> set (decN n)" for n using set_decN [of "CHR ''-''" n] by auto
  have "(i < 0) = (j < 0)"
    using eq minus by (auto simp: fmtD_def split: if_splits) (metis list.set_intros(1))+
  with eq show ?thesis by (auto simp: fmtD_def split: if_splits dest: decN_inj)
qed

section \<open>The contract of a step relation with an invariant\<close>

text \<open>
  A component whose every step keeps its invariant; then every state it reaches from a good one
  is good, and a property that follows from the invariant holds for ever.
\<close>

locale step_system =
  fixes step :: "'s \<Rightarrow> 's \<Rightarrow> bool" and inv :: "'s \<Rightarrow> bool"
  assumes step_inv: "step s s' \<Longrightarrow> inv s \<Longrightarrow> inv s'"
begin

lemma reach_inv: "rtranclp step s s' \<Longrightarrow> inv s \<Longrightarrow> inv s'"
  by (induction rule: rtranclp_induct) (auto intro: step_inv)

lemma reach_always: "rtranclp step s s' \<Longrightarrow> inv s \<Longrightarrow> (\<And>t. inv t \<Longrightarrow> Q t) \<Longrightarrow> Q s'"
  by (blast dest: reach_inv)

end

end
