(* ===== verification/Table.thy ===== *)
theory Table
  imports Prelude
begin

text \<open>
  The SQL statements of \<open>internal/meta\<close> over a table with uniqueness constraints. A table is
  the list of its rows in rowid order; a constraint is a column, or several, whose values are
  distinct. \<open>INSERT\<close> fails when a constraint would break and then changes nothing; \<open>UPDATE\<close>
  and \<open>DELETE\<close> act on the rows their \<open>WHERE\<close> selects; \<open>ORDER BY\<close> is a stable sort (SQL
  leaves ties open; here they stay in rowid order). The locales at the end are the contracts
  the services rely on: a table that refuses a second row with the same key, and one that
  replaces it.
\<close>

definition conflicts :: "('r \<Rightarrow> string) list \<Rightarrow> 'r \<Rightarrow> 'r list \<Rightarrow> bool" where
  "conflicts cols row t \<longleftrightarrow> (\<exists>r \<in> set t. \<exists>c \<in> set cols. c r = c row)"

definition uniqueOn :: "('r \<Rightarrow> string) list \<Rightarrow> 'r list \<Rightarrow> bool" where
  "uniqueOn cols t \<longleftrightarrow> (\<forall>c \<in> set cols. distinct (map c t))"

definition insertRow :: "string \<Rightarrow> ('r \<Rightarrow> string) list \<Rightarrow> 'r \<Rightarrow> 'r list \<Rightarrow> gerr + 'r list" where
  "insertRow table cols row t =
     (if conflicts cols row t then Inl (ESQL (Constraint table)) else Inr (t @ [row]))"

text \<open>\<open>INSERT INTO t SELECT * FROM src\<close>: one statement, all rows or none.\<close>

definition insertAll :: "string \<Rightarrow> ('r \<Rightarrow> string) list \<Rightarrow> 'r list \<Rightarrow> 'r list \<Rightarrow> gerr + 'r list" where
  "insertAll table cols rows t =
     (if uniqueOn cols (t @ rows) then Inr (t @ rows) else Inl (ESQL (Constraint table)))"

definition updateRows :: "('r \<Rightarrow> bool) \<Rightarrow> ('r \<Rightarrow> 'r) \<Rightarrow> 'r list \<Rightarrow> 'r list" where
  "updateRows p f t = map (\<lambda>r. if p r then f r else r) t"

definition deleteRows :: "('r \<Rightarrow> bool) \<Rightarrow> 'r list \<Rightarrow> 'r list" where
  "deleteRows p t = filter (\<lambda>r. \<not> p r) t"

definition selectOne :: "('r \<Rightarrow> bool) \<Rightarrow> 'r list \<Rightarrow> 'r option" where
  "selectOne p t = List.find p t"

text \<open>A transaction over a table of columns: \<open>ensureColumn\<close> adds a missing column.\<close>

definition tableHasColumn :: "string list \<Rightarrow> string \<Rightarrow> bool" where
  "tableHasColumn cols column \<longleftrightarrow> (\<exists>name \<in> set cols. name = column)"

definition ensureColumn :: "string list \<Rightarrow> string \<Rightarrow> string list" where
  "ensureColumn cols column = (if tableHasColumn cols column then cols else cols @ [column])"

section \<open>Lemmas\<close>

lemma uniqueOn_Nil [simp]: "uniqueOn cols []"
  by (simp add: uniqueOn_def)

lemma uniqueOn_insertRow:
  "uniqueOn cols t \<Longrightarrow> insertRow n cols row t = Inr t' \<Longrightarrow> uniqueOn cols t'"
  by (fastforce simp: insertRow_def uniqueOn_def conflicts_def split: if_splits)

lemma insertRow_Inr: "insertRow n cols row t = Inr t' \<Longrightarrow> t' = t @ [row] \<and> \<not> conflicts cols row t"
  by (simp add: insertRow_def split: if_splits)

lemma uniqueOn_insertAll: "insertAll n cols rows t = Inr t' \<Longrightarrow> uniqueOn cols t' \<and> t' = t @ rows"
  by (auto simp: insertAll_def split: if_splits)

lemma uniqueOn_filter: "uniqueOn cols t \<Longrightarrow> uniqueOn cols (filter p t)"
  by (simp add: uniqueOn_def distinct_map_filter)

lemma uniqueOn_deleteRows: "uniqueOn cols t \<Longrightarrow> uniqueOn cols (deleteRows p t)"
  by (simp add: deleteRows_def uniqueOn_filter)

lemma uniqueOn_updateRows:
  assumes "uniqueOn cols t" and "\<And>r c. c \<in> set cols \<Longrightarrow> c (f r) = c r"
  shows "uniqueOn cols (updateRows p f t)"
proof -
  have "map c (updateRows p f t) = map c t" if "c \<in> set cols" for c
    using assms(2) that by (auto simp: updateRows_def)
  with assms(1) show ?thesis by (simp add: uniqueOn_def)
qed

lemma find_append: "List.find p (xs @ ys) = (case List.find p xs of None \<Rightarrow> List.find p ys | Some x \<Rightarrow> Some x)"
  by (induction xs) simp_all

lemma find_None_iff2: "List.find p xs = None \<longleftrightarrow> (\<forall>x \<in> set xs. \<not> p x)"
  by (auto simp: find_None_iff)

lemma find_SomeD: "List.find p xs = Some x \<Longrightarrow> x \<in> set xs \<and> p x"
  by (auto simp: find_Some_iff)

lemma find_cong2: "(\<And>x. x \<in> set xs \<Longrightarrow> p x = q x) \<Longrightarrow> List.find p xs = List.find q xs"
  by (induction xs) auto

lemma find_filter: "List.find p (filter q xs) = List.find (\<lambda>x. q x \<and> p x) xs"
  by (induction xs) auto

lemma find_unique:
  assumes "distinct (map k t)" and "r \<in> set t"
  shows "List.find (\<lambda>x. k x = k r) t = Some r"
  using assms by (induction t) (auto simp: image_iff)

lemma find_map: "List.find p (map f xs) = map_option f (List.find (\<lambda>x. p (f x)) xs)"
  by (induction xs) auto

lemma selectOne_insertRow:
  assumes "insertRow n cols row t = Inr t'" and "c \<in> set cols"
  shows "selectOne (\<lambda>r. c r = k) t' = (if c row = k then Some row else selectOne (\<lambda>r. c r = k) t)"
proof -
  from assms have t': "t' = t @ [row]" and nc: "\<not> conflicts cols row t"
    by (auto dest: insertRow_Inr)
  from nc assms(2) have "\<forall>r \<in> set t. c r \<noteq> c row" by (auto simp: conflicts_def)
  then show ?thesis
    by (cases "List.find (\<lambda>r. c r = k) t") (auto simp: t' selectOne_def find_append dest: find_SomeD)
qed

lemma selectOne_deleteRows_same: "selectOne (\<lambda>r. c r = k) (deleteRows (\<lambda>r. c r = k) t) = None"
  by (simp add: selectOne_def deleteRows_def find_filter find_None_iff2)

lemma selectOne_deleteRows_other:
  "k \<noteq> k' \<Longrightarrow> selectOne (\<lambda>r. c r = k) (deleteRows (\<lambda>r. c r = k') t) = selectOne (\<lambda>r. c r = k) t"
  by (auto simp: selectOne_def deleteRows_def find_filter intro!: find_cong2)

lemma selectOne_updateRows:
  assumes "\<And>r. c (f r) = c r"
  shows "selectOne (\<lambda>r. c r = k) (updateRows (\<lambda>r. c r = k') f t)
    = map_option (\<lambda>r. if c r = k' then f r else r) (selectOne (\<lambda>r. c r = k) t)"
  unfolding selectOne_def updateRows_def find_map
  by (rule arg_cong [of _ _ "map_option _"]) (auto intro!: find_cong2 simp: assms)

lemma deleteRows_id: "\<forall>r \<in> set t. \<not> p r \<Longrightarrow> deleteRows p t = t"
  by (simp add: deleteRows_def)

lemma deleteRows_eq_iff: "(deleteRows p t = t) = (\<forall>r \<in> set t. \<not> p r)"
  by (auto simp: deleteRows_def filter_id_conv)

lemma selectOne_None_iff: "selectOne p t = None \<longleftrightarrow> (\<forall>r \<in> set t. \<not> p r)"
  by (simp add: selectOne_def find_None_iff2)

lemma deleteRows_empty_iff: "length t \<le> length (deleteRows p t) \<longleftrightarrow> selectOne p t = None"
proof -
  have "length (deleteRows p t) \<le> length t" by (simp add: deleteRows_def)
  then have "length t \<le> length (deleteRows p t) \<longleftrightarrow> length (deleteRows p t) = length t" by auto
  also have "\<dots> \<longleftrightarrow> (\<forall>r \<in> set t. \<not> p r)"
    by (auto simp: deleteRows_def) (metis (no_types, lifting) length_filter_less less_irrefl)
  finally show ?thesis by (simp add: selectOne_None_iff)
qed

lemma selectOne_SomeD: "selectOne p t = Some r \<Longrightarrow> r \<in> set t \<and> p r"
  by (simp add: selectOne_def find_SomeD)

lemma tableHasColumn_ensureColumn [simp]: "tableHasColumn (ensureColumn cols c) c"
  by (simp add: ensureColumn_def tableHasColumn_def)

lemma ensureColumn_idem [simp]: "ensureColumn (ensureColumn cols c) c = ensureColumn cols c"
  by (simp add: ensureColumn_def tableHasColumn_def)

section \<open>The contract of a keyed table\<close>

text \<open>
  A store answers lookups with what was last inserted under the key; \<open>remove\<close> refuses a key
  that is not there; \<open>norm\<close> is what a lookup returns of the value that was inserted (times
  lose their fraction of a second, paths are normalised). A keyed store moreover refuses to
  insert a key that is there; an object index replaces it.
\<close>

locale store =
  fixes invar :: "'db \<Rightarrow> bool"
    and lookup :: "'db \<Rightarrow> string \<Rightarrow> gerr + 'v"
    and insert :: "'db \<Rightarrow> 'v \<Rightarrow> gerr + 'db"
    and remove :: "'db \<Rightarrow> string \<Rightarrow> gerr + 'db"
    and key :: "'v \<Rightarrow> string"
    and norm :: "'v \<Rightarrow> 'v"
  assumes lookup_insert: "invar db \<Longrightarrow> insert db v = Inr db' \<Longrightarrow>
          lookup db' k = (if k = key v then Inr (norm v) else lookup db k)"
    and invar_insert: "invar db \<Longrightarrow> insert db v = Inr db' \<Longrightarrow> invar db'"
    and remove_iff: "invar db \<Longrightarrow> (\<exists>db'. remove db k = Inr db') \<longleftrightarrow> (\<exists>v. lookup db k = Inr v)"
    and lookup_remove: "invar db \<Longrightarrow> remove db k = Inr db' \<Longrightarrow>
          k' \<noteq> k \<Longrightarrow> lookup db' k' = lookup db k'"
    and lookup_removed: "invar db \<Longrightarrow> remove db k = Inr db' \<Longrightarrow> \<exists>e. lookup db' k = Inl e"
    and invar_remove: "invar db \<Longrightarrow> remove db k = Inr db' \<Longrightarrow> invar db'"
begin

lemma remove_inserted:
  assumes "invar db" "insert db v = Inr db'"
  shows "\<exists>db''. remove db' (key v) = Inr db'' \<and> invar db'' \<and>
           (\<forall>k. k \<noteq> key v \<longrightarrow> lookup db'' k = lookup db k)"
proof -
  have inv': "invar db'" using assms by (rule invar_insert)
  have "lookup db' (key v) = Inr (norm v)" using lookup_insert [OF assms] by simp
  with remove_iff [OF inv'] obtain db'' where r: "remove db' (key v) = Inr db''" by blast
  show ?thesis
  proof (intro exI conjI allI impI)
    show "remove db' (key v) = Inr db''" by (rule r)
    show "invar db''" using inv' r by (rule invar_remove)
    fix k assume "k \<noteq> key v"
    then show "lookup db'' k = lookup db k"
      using lookup_remove [OF inv' r] lookup_insert [OF assms] by simp
  qed
qed

lemma remove_missing: "invar db \<Longrightarrow> lookup db k = Inl e \<Longrightarrow> \<exists>e. remove db k = Inl e"
  using remove_iff [of db k] by (cases "remove db k") auto

text \<open>The store as a finite function from keys to values.\<close>

definition abs :: "'db \<Rightarrow> string \<Rightarrow> 'v option" where
  "abs db k = (case lookup db k of Inl _ \<Rightarrow> None | Inr v \<Rightarrow> Some v)"

lemma abs_insert: "invar db \<Longrightarrow> insert db v = Inr db' \<Longrightarrow> abs db' = (abs db)(key v \<mapsto> norm v)"
  by (auto simp: abs_def lookup_insert)

lemma abs_remove:
  assumes "invar db" "remove db k = Inr db'"
  shows "abs db' = (abs db)(k := None)"
proof
  fix k'
  show "abs db' k' = ((abs db)(k := None)) k'"
    using lookup_remove [OF assms, of k'] lookup_removed [OF assms] by (auto simp: abs_def)
qed

lemma abs_dom_remove: "invar db \<Longrightarrow> k \<in> dom (abs db) \<longleftrightarrow> (\<exists>db'. remove db k = Inr db')"
  by (auto simp: abs_def dom_def remove_iff split: sum.splits)

end

locale keyed_store = store +
  assumes insert_new: "invar db \<Longrightarrow> insert db v = Inr db' \<Longrightarrow> \<exists>e. lookup db (key v) = Inl e"
begin

lemma insert_twice:
  assumes "invar db" "insert db v = Inr db'" "key w = key v"
  shows "\<exists>e. insert db' w = Inl e"
proof (rule ccontr)
  assume "\<not> (\<exists>e. insert db' w = Inl e)"
  then obtain db'' where w: "insert db' w = Inr db''" by (cases "insert db' w") auto
  from invar_insert [OF assms(1,2)] w have "\<exists>e. lookup db' (key w) = Inl e" by (rule insert_new)
  with lookup_insert [OF assms(1,2)] assms(3) show False by simp
qed

end

end
