(* ===== verification/Stats.thy ===== *)
theory Stats
  imports Table "HOL-Library.Multiset"
begin

text \<open>
  \<open>internal/meta/stats.go\<close>: the ledger of byte and object-count deltas of this daemon and of
  the ledgers it imported from others. A row that was imported carries the file it came from and
  its id there; the partial unique index on those two columns makes an import idempotent.
\<close>

record usageDelta =
  ud_id :: int
  ud_webdav_location_id :: string
  ud_user_id :: string
  ud_bucket_id :: string
  ud_bytes_delta :: int
  ud_object_count_delta :: int
  ud_ts :: int
  ud_source_file :: string
  ud_source_row_id :: int

text \<open>\<open>usage_seq\<close> is the last id the table's \<open>AUTOINCREMENT\<close> column handed out.\<close>

record usageDB =
  usage_delta :: "usageDelta list"
  usage_seq :: int

definition emptyUsageDB :: usageDB where
  "emptyUsageDB = \<lparr>usage_delta = [], usage_seq = 0\<rparr>"

text \<open>The columns of a table made by the first release, and what \<open>migrate\<close> brings it to.\<close>

definition migrateColumns :: "string list \<Rightarrow> string list" where
  "migrateColumns cols = ensureColumn (ensureColumn cols ''source_file'') ''source_row_id''"

text \<open>An insert takes the next id; SQLite refuses when the largest one is used up.\<close>

definition insertDelta :: "usageDB \<Rightarrow> usageDelta \<Rightarrow> gerr + usageDB" where
  "insertDelta db row =
     (if usage_seq db \<ge> 2 ^ 63 - 1 then Inl (ESQL (DBFail ''database or disk is full''))
      else Inr \<lparr>usage_delta = usage_delta db @ [row\<lparr>ud_id := usage_seq db + 1\<rparr>],
                usage_seq = usage_seq db + 1\<rparr>)"

definition AddDelta ::
  "usageDB \<Rightarrow> gotime \<Rightarrow> string \<Rightarrow> string \<Rightarrow> string \<Rightarrow> int \<Rightarrow> int \<Rightarrow> gerr + usageDB" where
  "AddDelta db now locationID userID bucketID nbytes objectCount =
     insertDelta db \<lparr>ud_id = 0, ud_webdav_location_id = locationID, ud_user_id = userID,
       ud_bucket_id = bucketID, ud_bytes_delta = nbytes, ud_object_count_delta = objectCount,
       ud_ts = unixSec now, ud_source_file = [], ud_source_row_id = 0\<rparr>"

text \<open>
  SQLite's \<open>SUM\<close> of integers: exact, with an \<open>integer overflow\<close> error when the running sum
  leaves the 64-bit range; over no rows it is NULL, which the source reads as 0.
\<close>

fun sqlSum :: "int \<Rightarrow> int list \<Rightarrow> int option" where
  "sqlSum acc [] = Some acc"
| "sqlSum acc (x # xs) = (if is_i64 (acc + x) then sqlSum (acc + x) xs else None)"

definition deltasOf :: "string \<Rightarrow> usageDelta list \<Rightarrow> int list" where
  "deltasOf locationID t = map ud_bytes_delta (filter (\<lambda>r. ud_webdav_location_id r = locationID) t)"

definition GetTotalUsage :: "usageDB \<Rightarrow> string \<Rightarrow> gerr + int" where
  "GetTotalUsage db locationID =
     (case sqlSum 0 (deltasOf locationID (usage_delta db)) of
        Some n \<Rightarrow> Inr n
      | None \<Rightarrow> Inl (wrapAs ''GetTotalUsage'' (ESQL (DBFail ''integer overflow''))))"

text \<open>
  The loop of \<open>MergeFromFile\<close>: \<open>INSERT OR IGNORE\<close> of every row of the other ledger, in the
  order of its ids, in one transaction. An ignored row leaves the ledger as it is.
\<close>

definition alreadyImported :: "usageDB \<Rightarrow> string \<Rightarrow> int \<Rightarrow> bool" where
  "alreadyImported db sourceFile rowID \<longleftrightarrow> sourceFile \<noteq> []
     \<and> (\<exists>r \<in> set (usage_delta db). ud_source_file r = sourceFile \<and> ud_source_row_id r = rowID)"

definition importedRow :: "string \<Rightarrow> (string \<rightharpoonup> string) \<Rightarrow> usageDelta \<Rightarrow> usageDelta" where
  "importedRow sourceFile locationIDMap r =
     r\<lparr>ud_webdav_location_id :=
         (case locationIDMap (ud_webdav_location_id r) of
            Some mapped \<Rightarrow> mapped | None \<Rightarrow> ud_webdav_location_id r),
       ud_source_file := sourceFile, ud_source_row_id := ud_id r\<rparr>"

fun mergeRows ::
  "usageDB \<Rightarrow> string \<Rightarrow> (string \<rightharpoonup> string) \<Rightarrow> usageDelta list \<Rightarrow> gerr + usageDB" where
  "mergeRows db sourceFile m [] = Inr db"
| "mergeRows db sourceFile m (r # rs) =
     (if alreadyImported db sourceFile (ud_id r) then mergeRows db sourceFile m rs
      else case insertDelta db (importedRow sourceFile m r) of
             Inl e \<Rightarrow> Inl (wrapAs ''insert stats source row'' e)
           | Inr db' \<Rightarrow> mergeRows db' sourceFile m rs)"

definition MergeFromFile ::
  "usageDB \<Rightarrow> gerr + usageDB \<Rightarrow> string \<Rightarrow> (string \<rightharpoonup> string) \<Rightarrow> gerr + usageDB" where
  "MergeFromFile db opened sourceFile locationIDMap =
     (case opened of
        Inl e \<Rightarrow> Inl (wrapAs ''open stats source'' e)
      | Inr src \<Rightarrow> mergeRows db sourceFile locationIDMap (sort_key ud_id (usage_delta src)))"

text \<open>What \<open>Flush\<close> uploads: the ledger without the rows that came from others.\<close>

definition pruneImportedStats :: "usageDB \<Rightarrow> usageDB" where
  "pruneImportedStats db = db\<lparr>usage_delta := deleteRows (\<lambda>r. ud_source_file r \<noteq> []) (usage_delta db)\<rparr>"

section \<open>The ledger's invariant\<close>

definition usage_wf :: "usageDB \<Rightarrow> bool" where
  "usage_wf db \<longleftrightarrow> (\<forall>r \<in> set (usage_delta db). ud_id r \<le> usage_seq db) \<and> distinct (map ud_id (usage_delta db))
     \<and> distinct (map (\<lambda>r. (ud_source_file r, ud_source_row_id r))
                  (filter (\<lambda>r. ud_source_file r \<noteq> []) (usage_delta db)))"

lemma usage_wf_empty [simp]: "usage_wf emptyUsageDB"
  by (simp add: usage_wf_def emptyUsageDB_def)

lemma insertDelta_Inr:
  "insertDelta db row = Inr db' \<Longrightarrow> db' = \<lparr>usage_delta = usage_delta db @ [row\<lparr>ud_id := usage_seq db + 1\<rparr>],
     usage_seq = usage_seq db + 1\<rparr>"
  by (simp add: insertDelta_def split: if_splits)

lemma wf_insertDelta:
  assumes "usage_wf db" "insertDelta db row = Inr db'"
    and "ud_source_file row \<noteq> [] \<Longrightarrow> \<not> alreadyImported db (ud_source_file row) (ud_source_row_id row)"
  shows "usage_wf db'"
proof -
  from assms(1) have "usage_seq db + 1 \<notin> ud_id ` set (usage_delta db)"
    by (fastforce simp: usage_wf_def)
  moreover have "\<forall>r \<in> set (usage_delta db). ud_id r \<le> usage_seq db + 1"
    using assms(1) by (fastforce simp: usage_wf_def)
  ultimately show ?thesis
    using assms(1,3) unfolding insertDelta_Inr [OF assms(2)]
    by (auto simp: usage_wf_def alreadyImported_def)
qed

lemma wf_AddDelta: "usage_wf db \<Longrightarrow> AddDelta db now l u b n c = Inr db' \<Longrightarrow> usage_wf db'"
  unfolding AddDelta_def by (erule (1) wf_insertDelta) simp

lemma importedRow_simps [simp]:
  "ud_source_file (importedRow f m r) = f" "ud_source_row_id (importedRow f m r) = ud_id r"
  "ud_bytes_delta (importedRow f m r) = ud_bytes_delta r"
  by (simp_all add: importedRow_def)

lemma wf_mergeRows: "mergeRows db f m rs = Inr db' \<Longrightarrow> usage_wf db \<Longrightarrow> usage_wf db'"
proof (induction rs arbitrary: db)
  case Nil
  then show ?case by simp
next
  case (Cons r rs)
  show ?case
  proof (cases "alreadyImported db f (ud_id r)")
    case True
    with Cons show ?thesis by simp
  next
    case False
    with Cons.prems obtain d where d: "insertDelta db (importedRow f m r) = Inr d"
      and rec: "mergeRows d f m rs = Inr db'" by (auto split: sum.splits)
    have "usage_wf d" by (rule wf_insertDelta [OF Cons.prems(2) d]) (use False in simp)
    with Cons.IH rec show ?thesis by blast
  qed
qed

lemma wf_MergeFromFile: "usage_wf db \<Longrightarrow> MergeFromFile db src f m = Inr db' \<Longrightarrow> usage_wf db'"
  by (auto simp: MergeFromFile_def split: sum.splits dest: wf_mergeRows)

section \<open>Sums\<close>

lemma sqlSum_Some: "sqlSum acc xs = Some n \<Longrightarrow> n = acc + sum_list xs \<and> (is_i64 acc \<longrightarrow> is_i64 n)"
proof (induction xs arbitrary: acc)
  case Nil
  then show ?case by simp
next
  case (Cons x xs)
  then have "is_i64 (acc + x)" "sqlSum (acc + x) xs = Some n" by (simp_all split: if_splits)
  with Cons.IH [of "acc + x"] show ?case by (auto simp: add.assoc)
qed

lemma sqlSum_append:
  "sqlSum acc (xs @ ys) = (case sqlSum acc xs of None \<Rightarrow> None | Some a \<Rightarrow> sqlSum a ys)"
  by (induction xs arbitrary: acc) auto

lemma deltasOf_append [simp]: "deltasOf l (t @ u) = deltasOf l t @ deltasOf l u"
  by (simp add: deltasOf_def)

lemma deltasOf_single:
  "deltasOf l [r] = (if ud_webdav_location_id r = l then [ud_bytes_delta r] else [])"
  by (simp add: deltasOf_def)

lemma GetTotalUsage_Inr:
  "GetTotalUsage db l = Inr n \<longleftrightarrow> sqlSum 0 (deltasOf l (usage_delta db)) = Some n"
  by (auto simp: GetTotalUsage_def split: option.splits)

lemma GetTotalUsage_i64: "GetTotalUsage db l = Inr n \<Longrightarrow> is_i64 n"
  using sqlSum_Some [of 0] by (auto simp: GetTotalUsage_Inr is_i64_def)

lemma GetTotalUsage_insertDelta:
  assumes "insertDelta db row = Inr db'" "GetTotalUsage db l = Inr n"
  shows "GetTotalUsage db' l =
    (if ud_webdav_location_id row \<noteq> l then Inr n
     else if is_i64 (n + ud_bytes_delta row) then Inr (n + ud_bytes_delta row)
     else Inl (wrapAs ''GetTotalUsage'' (ESQL (DBFail ''integer overflow''))))"
proof -
  from assms(2) have s: "sqlSum 0 (deltasOf l (usage_delta db)) = Some n" by (simp add: GetTotalUsage_Inr)
  show ?thesis unfolding insertDelta_Inr [OF assms(1)]
    by (simp add: GetTotalUsage_def sqlSum_append s deltasOf_single)
qed

section \<open>Imports\<close>

lemma alreadyImported_insertDelta:
  assumes "insertDelta db row = Inr db'"
  shows "alreadyImported db' f i \<longleftrightarrow> alreadyImported db f i
    \<or> f \<noteq> [] \<and> ud_source_file row = f \<and> ud_source_row_id row = i"
  unfolding insertDelta_Inr [OF assms] by (auto simp: alreadyImported_def)

lemma mergeRows_imported:
  "mergeRows db f m rs = Inr db' \<Longrightarrow> f \<noteq> [] \<Longrightarrow>
     alreadyImported db' f i \<longleftrightarrow> alreadyImported db f i \<or> i \<in> ud_id ` set rs"
proof (induction rs arbitrary: db)
  case Nil
  then show ?case by simp
next
  case (Cons r rs)
  show ?case
  proof (cases "alreadyImported db f (ud_id r)")
    case True
    with Cons show ?thesis by auto
  next
    case False
    with Cons.prems obtain d where d: "insertDelta db (importedRow f m r) = Inr d"
      and rec: "mergeRows d f m rs = Inr db'" by (auto split: sum.splits)
    show ?thesis using Cons.IH [OF rec Cons.prems(2)] alreadyImported_insertDelta [OF d] Cons.prems(2)
      by auto
  qed
qed

lemma mergeRows_nop:
  "\<forall>r \<in> set rs. alreadyImported db f (ud_id r) \<Longrightarrow> mergeRows db f m rs = Inr db"
  by (induction rs) simp_all

lemma mergeRows_others:
  "mergeRows db f m rs = Inr db' \<Longrightarrow>
     filter (\<lambda>r. ud_source_file r \<noteq> f) (usage_delta db') = filter (\<lambda>r. ud_source_file r \<noteq> f) (usage_delta db)"
proof (induction rs arbitrary: db)
  case Nil
  then show ?case by simp
next
  case (Cons r rs)
  then show ?case
    by (fastforce split: if_splits sum.splits dest!: insertDelta_Inr)
qed

lemma count_list_distinct: "distinct xs \<Longrightarrow> x \<in> set xs \<Longrightarrow> count_list xs x = 1"
  by (induction xs) auto

lemma imported_once:
  assumes "usage_wf db" "alreadyImported db f i"
  shows "length (filter (\<lambda>r. ud_source_file r = f \<and> ud_source_row_id r = i) (usage_delta db)) = 1"
proof -
  let ?k = "\<lambda>r. (ud_source_file r, ud_source_row_id r)"
  let ?t = "filter (\<lambda>r. ud_source_file r \<noteq> []) (usage_delta db)"
  from assms have f: "f \<noteq> []" and m: "(f, i) \<in> ?k ` set ?t" by (auto simp: alreadyImported_def)
  from assms(1) have d: "distinct (map ?k ?t)" by (simp add: usage_wf_def)
  have cnt: "length (filter (\<lambda>r. ?k r = (f, i)) t) = count_list (map ?k t) (f, i)" for t
    by (induction t) auto
  have "filter (\<lambda>r. ud_source_file r = f \<and> ud_source_row_id r = i) (usage_delta db)
      = filter (\<lambda>r. ?k r = (f, i)) ?t"
    using f by (auto intro!: filter_cong)
  then have "length (filter (\<lambda>r. ud_source_file r = f \<and> ud_source_row_id r = i) (usage_delta db))
      = count_list (map ?k ?t) (f, i)"
    by (simp only: cnt)
  also have "\<dots> = 1"
    by (rule count_list_distinct [OF d]) (use m in \<open>simp only: set_map\<close>)
  finally show ?thesis .
qed

lemma filter_fresh_imports:
  assumes "mergeRows db f m rs = Inr db'" "distinct (map ud_id rs)" "f \<noteq> []"
    and "\<forall>r \<in> set rs. \<not> alreadyImported db f (ud_id r)"
  shows "\<exists>rs'. usage_delta db' = usage_delta db @ rs'
     \<and> map (\<lambda>r. (ud_webdav_location_id r, ud_bytes_delta r, ud_object_count_delta r)) rs'
       = map (\<lambda>r. (ud_webdav_location_id (importedRow f m r), ud_bytes_delta r, ud_object_count_delta r)) rs"
  using assms
proof (induction rs arbitrary: db)
  case Nil
  then show ?case by simp
next
  case (Cons r rs)
  from Cons.prems obtain d where d: "insertDelta db (importedRow f m r) = Inr d"
    and rec: "mergeRows d f m rs = Inr db'" by (auto split: sum.splits)
  have "\<forall>x \<in> set rs. \<not> alreadyImported d f (ud_id x)"
    using Cons.prems(2,4) by (auto simp: alreadyImported_insertDelta [OF d])
  with Cons.IH [OF rec] Cons.prems(2,3) obtain rs' where rs': "usage_delta db' = usage_delta d @ rs'"
    "map (\<lambda>r. (ud_webdav_location_id r, ud_bytes_delta r, ud_object_count_delta r)) rs'
       = map (\<lambda>r. (ud_webdav_location_id (importedRow f m r), ud_bytes_delta r, ud_object_count_delta r)) rs"
    by auto
  then show ?case unfolding insertDelta_Inr [OF d]
    by (intro exI [of _ "(importedRow f m r)\<lparr>ud_id := usage_seq db + 1\<rparr> # rs'"])
      (simp add: importedRow_def)
qed

section \<open>The contract of a usage ledger\<close>

text \<open>
  What the quota service relies on: the total of a location is a 64-bit number, and recording a
  delta moves the total of its own location by that much, and of no other.
\<close>

locale usage_ledger =
  fixes record_delta :: "'db \<Rightarrow> string \<Rightarrow> int \<Rightarrow> gerr + 'db"
    and total :: "'db \<Rightarrow> string \<Rightarrow> gerr + int"
  assumes total_range: "total db l = Inr n \<Longrightarrow> is_i64 n"
    and total_record: "record_delta db l b = Inr db' \<Longrightarrow> total db l = Inr n \<Longrightarrow> is_i64 (n + b)
          \<Longrightarrow> total db' l = Inr (n + b)"
    and total_other: "record_delta db l b = Inr db' \<Longrightarrow> l' \<noteq> l \<Longrightarrow> total db l' = Inr n
          \<Longrightarrow> total db' l' = Inr n"
begin

text \<open>A delta taken back leaves the total where it was: a deleted object frees its bytes.\<close>

lemma record_undone:
  assumes "record_delta db l b = Inr db1" "record_delta db1 l (- b) = Inr db2"
    and "total db l = Inr n" "is_i64 (n + b)"
  shows "total db2 l = Inr n"
proof -
  have t1: "total db1 l = Inr (n + b)" using assms(1,3,4) by (rule total_record)
  have "is_i64 (n + b + - b)" using total_range [OF assms(3)] by simp
  with total_record [OF assms(2) t1] show ?thesis by simp
qed

end

interpretation ledger: usage_ledger "\<lambda>db l b. AddDelta db now l user bucket b objs" GetTotalUsage
  for now user bucket objs
proof unfold_locales
  fix db db' :: usageDB and l l' :: string and b n :: int
  show "GetTotalUsage db l = Inr n \<Longrightarrow> is_i64 n" by (rule GetTotalUsage_i64)
  show "AddDelta db now l user bucket b objs = Inr db' \<Longrightarrow> GetTotalUsage db l = Inr n \<Longrightarrow>
      is_i64 (n + b) \<Longrightarrow> GetTotalUsage db' l = Inr (n + b)"
    unfolding AddDelta_def by (drule (1) GetTotalUsage_insertDelta) simp
  show "AddDelta db now l user bucket b objs = Inr db' \<Longrightarrow> l' \<noteq> l \<Longrightarrow> GetTotalUsage db l' = Inr n \<Longrightarrow>
      GetTotalUsage db' l' = Inr n"
    unfolding AddDelta_def by (drule (1) GetTotalUsage_insertDelta) simp
qed

section \<open>Properties\<close>

text \<open>C9: importing another daemon's ledger counts each of its rows exactly once, however often the
  file is imported: after an import every row of the file has exactly one copy, the rows of this
  daemon and of other files are untouched, and importing the file again changes nothing.\<close>

theorem MergeFromFile_once:
  assumes "usage_wf db" and "f \<noteq> []" and "MergeFromFile db (Inr src) f m = Inr db'"
  shows "(\<forall>r \<in> set (usage_delta src).
        length (filter (\<lambda>x. ud_source_file x = f \<and> ud_source_row_id x = ud_id r) (usage_delta db')) = 1)
     \<and> filter (\<lambda>r. ud_source_file r \<noteq> f) (usage_delta db') = filter (\<lambda>r. ud_source_file r \<noteq> f) (usage_delta db)
     \<and> MergeFromFile db' (Inr src) f m' = Inr db' \<and> usage_wf db'"
proof -
  let ?rs = "sort_key ud_id (usage_delta src)"
  from assms(3) have m: "mergeRows db f m ?rs = Inr db'" by (simp add: MergeFromFile_def)
  have wf': "usage_wf db'" using m assms(1) by (rule wf_mergeRows)
  have all: "\<forall>r \<in> set ?rs. alreadyImported db' f (ud_id r)"
    using mergeRows_imported [OF m assms(2)] by simp
  then show ?thesis
    using imported_once [OF wf'] mergeRows_others [OF m] mergeRows_nop [OF all] wf'
    by (simp add: MergeFromFile_def)
qed

definition demoUsage :: usageDB where
  "demoUsage = \<lparr>usage_delta = [\<lparr>ud_id = 1, ud_webdav_location_id = ''r'', ud_user_id = ''u'',
     ud_bucket_id = ''b'', ud_bytes_delta = 40, ud_object_count_delta = 1, ud_ts = 9,
     ud_source_file = [], ud_source_row_id = 0\<rparr>], usage_seq = 1\<rparr>"

lemma demoUsage_merge:
  "\<exists>db'. MergeFromFile emptyUsageDB (Inr demoUsage) ''stats-x.db'' [''r'' \<mapsto> ''l''] = Inr db'"
  by (simp add: MergeFromFile_def demoUsage_def emptyUsageDB_def alreadyImported_def insertDelta_def)

theorem MergeFromFile_once_witness:
  "\<exists>db'. MergeFromFile emptyUsageDB (Inr demoUsage) ''stats-x.db'' [''r'' \<mapsto> ''l''] = Inr db'
     \<and> MergeFromFile db' (Inr demoUsage) ''stats-x.db'' [''r'' \<mapsto> ''l''] = Inr db'"
proof -
  obtain db' where db': "MergeFromFile emptyUsageDB (Inr demoUsage) ''stats-x.db'' [''r'' \<mapsto> ''l''] = Inr db'"
    using demoUsage_merge by blast
  from MergeFromFile_once [OF usage_wf_empty _ db', of "[''r'' \<mapsto> ''l'']"] db' show ?thesis by auto
qed

text \<open>The first import of a ledger adds to a location's total exactly the bytes of the file's
  rows that belong to the location after the location ids are translated.\<close>

theorem MergeFromFile_total:
  assumes "usage_wf src" and "f \<noteq> []" and "\<forall>r \<in> set (usage_delta db). ud_source_file r \<noteq> f"
    and "MergeFromFile db (Inr src) f m = Inr db'"
  shows "sum_list (deltasOf l (usage_delta db')) = sum_list (deltasOf l (usage_delta db))
    + (\<Sum>r \<leftarrow> usage_delta src. if ud_webdav_location_id (importedRow f m r) = l then ud_bytes_delta r else 0)"
proof -
  let ?rs = "sort_key ud_id (usage_delta src)"
  let ?loc = "\<lambda>r. (ud_webdav_location_id r, ud_bytes_delta r, ud_object_count_delta r)"
  from assms(4) have m: "mergeRows db f m ?rs = Inr db'" by (simp add: MergeFromFile_def)
  have "distinct (map ud_id ?rs)"
    using assms(1) by (simp add: usage_wf_def distinct_map)
  moreover have "\<forall>r \<in> set ?rs. \<not> alreadyImported db f (ud_id r)"
    using assms(3) by (auto simp: alreadyImported_def)
  ultimately obtain rs' where rs': "usage_delta db' = usage_delta db @ rs'"
    "map ?loc rs' = map (\<lambda>r. (ud_webdav_location_id (importedRow f m r), ud_bytes_delta r,
                               ud_object_count_delta r)) ?rs"
    using filter_fresh_imports [OF m _ assms(2)] by blast
  have gen: "sum_list (deltasOf l t) = (\<Sum>x \<leftarrow> map ?loc t. if fst x = l then fst (snd x) else 0)" for t
    by (induction t) (simp_all add: deltasOf_def)
  have "sum_list (deltasOf l rs')
      = (\<Sum>r \<leftarrow> ?rs. if ud_webdav_location_id (importedRow f m r) = l then ud_bytes_delta r else 0)"
    by (simp add: gen rs'(2) o_def del: map_map) (simp add: o_def cong: if_cong)
  also have "\<dots> = (\<Sum>r \<leftarrow> usage_delta src. if ud_webdav_location_id (importedRow f m r) = l then ud_bytes_delta r else 0)"
    by (simp flip: sum_mset_sum_list)
  finally show ?thesis by (simp add: rs'(1))
qed

theorem MergeFromFile_total_witness:
  "\<exists>db'. MergeFromFile emptyUsageDB (Inr demoUsage) ''stats-x.db'' [''r'' \<mapsto> ''l''] = Inr db'
     \<and> sum_list (deltasOf ''l'' (usage_delta db')) = 40"
proof -
  obtain db' where db': "MergeFromFile emptyUsageDB (Inr demoUsage) ''stats-x.db'' [''r'' \<mapsto> ''l''] = Inr db'"
    using demoUsage_merge by blast
  have "usage_wf demoUsage" by (simp add: demoUsage_def usage_wf_def)
  from MergeFromFile_total [OF this _ _ db', of "''l''"] db' show ?thesis
    by (simp add: emptyUsageDB_def demoUsage_def importedRow_def deltasOf_def)
qed

section \<open>The part of the ledger that is uploaded\<close>

lemma pruneImportedStats_rows:
  "usage_delta (pruneImportedStats db) = filter (\<lambda>r. ud_source_file r = []) (usage_delta db)"
  by (simp add: pruneImportedStats_def deleteRows_def)

lemma pruneImportedStats_wf: "usage_wf db \<Longrightarrow> usage_wf (pruneImportedStats db)"
  by (simp add: usage_wf_def pruneImportedStats_rows distinct_map_filter) (simp add: pruneImportedStats_def)

lemma demoUsage_wf: "usage_wf demoUsage"
  by (simp add: demoUsage_def usage_wf_def)

end
