(* ===== verification/Structure.thy ===== *)
theory Structure
  imports Table
begin

text \<open>
  \<open>internal/meta/structure.go\<close>: the \<open>structure.db\<close> of locations, users and buckets. A row
  is the record of the Go struct with its time in seconds, as the columns hold it; the scan
  functions turn it back.
\<close>

record Location =
  loc_ID :: string
  loc_URL :: string
  loc_Username :: string
  loc_PasswordEnc :: string
  loc_DisplayName :: string
  loc_QuotaBytes :: int
  loc_BaseDir :: string
  loc_CreatedAt :: gotime

definition NormalizeBaseDir :: "string \<Rightarrow> string" where
  "NormalizeBaseDir input =
     (let s = trimSpace input in
      if s = [] \<or> s = ''/'' then ''/''
      else
        let s1 = (if \<not> hasPrefix s ''/'' then ''/'' @ s else s) in
        if \<not> hasSuffix s1 ''/'' then s1 @ ''/'' else s1)"

record User =
  usr_ID :: string
  usr_AccessKey :: string
  usr_SecretKeyHash :: string
  usr_SecretKeyEnc :: string
  usr_WebPasswordHash :: string
  usr_WebPasswordEnc :: string
  usr_DisplayName :: string
  usr_Enabled :: bool
  usr_CreatedAt :: gotime

record Bucket =
  bkt_ID :: string
  bkt_Name :: string
  bkt_OwnerUserID :: string
  bkt_WebDAVLocationID :: string
  bkt_CreatedAt :: gotime

record structureDB =
  webdav_locations :: "Location list"
  users :: "User list"
  buckets :: "Bucket list"

text \<open>The schema: an empty database, and the columns each table declares unique.\<close>

definition emptyStructure :: structureDB where
  "emptyStructure = \<lparr>webdav_locations = [], users = [], buckets = []\<rparr>"

definition locationKeys :: "(Location \<Rightarrow> string) list" where
  "locationKeys = [loc_ID]"

definition userKeys :: "(User \<Rightarrow> string) list" where
  "userKeys = [usr_ID, usr_AccessKey]"

definition bucketKeys :: "(Bucket \<Rightarrow> string) list" where
  "bucketKeys = [bkt_ID, bkt_Name]"

section \<open>Locations\<close>

definition locationRow :: "Location \<Rightarrow> Location" where
  "locationRow loc = loc\<lparr>loc_CreatedAt := unixSec (loc_CreatedAt loc)\<rparr>"

definition scanLocation :: "Location \<Rightarrow> Location" where
  "scanLocation row =
     row\<lparr>loc_BaseDir := (if loc_BaseDir row = [] then ''/'' else loc_BaseDir row),
         loc_CreatedAt := timeUnix (loc_CreatedAt row)\<rparr>"

definition AddLocation :: "structureDB \<Rightarrow> Location \<Rightarrow> gerr + structureDB" where
  "AddLocation s loc =
     (let loc = loc\<lparr>loc_BaseDir := NormalizeBaseDir (loc_BaseDir loc)\<rparr> in
      case insertRow ''webdav_locations'' locationKeys (locationRow loc) (webdav_locations s) of
        Inl e \<Rightarrow> Inl e
      | Inr t \<Rightarrow> Inr (s\<lparr>webdav_locations := t\<rparr>))"

definition GetLocation :: "structureDB \<Rightarrow> string \<Rightarrow> gerr + Location" where
  "GetLocation s ident =
     (case selectOne (\<lambda>r. loc_ID r = ident) (webdav_locations s) of
        None \<Rightarrow> Inl (wrapAs ''scan location'' (ESQL NoRows))
      | Some row \<Rightarrow> Inr (scanLocation row))"

definition ListLocations :: "structureDB \<Rightarrow> Location list" where
  "ListLocations s = map scanLocation (sort_key loc_CreatedAt (webdav_locations s))"

definition UpdateLocation :: "structureDB \<Rightarrow> Location \<Rightarrow> structureDB" where
  "UpdateLocation s loc =
     (let loc = loc\<lparr>loc_BaseDir := NormalizeBaseDir (loc_BaseDir loc)\<rparr> in
      s\<lparr>webdav_locations :=
          updateRows (\<lambda>r. loc_ID r = loc_ID loc)
            (\<lambda>r. r\<lparr>loc_URL := loc_URL loc, loc_Username := loc_Username loc,
                    loc_PasswordEnc := loc_PasswordEnc loc,
                    loc_DisplayName := loc_DisplayName loc,
                    loc_QuotaBytes := loc_QuotaBytes loc,
                    loc_BaseDir := loc_BaseDir loc\<rparr>)
            (webdav_locations s)\<rparr>)"

definition DeleteLocation :: "structureDB \<Rightarrow> string \<Rightarrow> gerr + structureDB" where
  "DeleteLocation s ident =
     (let t = deleteRows (\<lambda>r. loc_ID r = ident) (webdav_locations s);
          n = length (webdav_locations s) - length t in
      if n = 0 then Inl (ENew (''location '' @ fmtQ ident @ '' not found''))
      else Inr (s\<lparr>webdav_locations := t\<rparr>))"

section \<open>Users\<close>

definition userRow :: "User \<Rightarrow> User" where
  "userRow u = u\<lparr>usr_CreatedAt := unixSec (usr_CreatedAt u)\<rparr>"

definition scanUser :: "User \<Rightarrow> User" where
  "scanUser row = row\<lparr>usr_CreatedAt := timeUnix (usr_CreatedAt row)\<rparr>"

definition AddUser :: "structureDB \<Rightarrow> User \<Rightarrow> gerr + structureDB" where
  "AddUser s u =
     (case insertRow ''users'' userKeys (userRow u) (users s) of
        Inl e \<Rightarrow> Inl e
      | Inr t \<Rightarrow> Inr (s\<lparr>users := t\<rparr>))"

definition GetUserByAccessKey :: "structureDB \<Rightarrow> string \<Rightarrow> gerr + User" where
  "GetUserByAccessKey s key =
     (case selectOne (\<lambda>r. usr_AccessKey r = key) (users s) of
        None \<Rightarrow> Inl (wrapAs ''scan user'' (ESQL NoRows))
      | Some row \<Rightarrow> Inr (scanUser row))"

definition GetUser :: "structureDB \<Rightarrow> string \<Rightarrow> gerr + User" where
  "GetUser s ident =
     (case selectOne (\<lambda>r. usr_ID r = ident) (users s) of
        None \<Rightarrow> Inl (wrapAs ''scan user'' (ESQL NoRows))
      | Some row \<Rightarrow> Inr (scanUser row))"

definition ListUsers :: "structureDB \<Rightarrow> User list" where
  "ListUsers s = map scanUser (sort_key usr_CreatedAt (users s))"

definition SetUserEnabled :: "structureDB \<Rightarrow> string \<Rightarrow> bool \<Rightarrow> structureDB" where
  "SetUserEnabled s ident enabled =
     s\<lparr>users := updateRows (\<lambda>r. usr_ID r = ident) (\<lambda>r. r\<lparr>usr_Enabled := enabled\<rparr>) (users s)\<rparr>"

text \<open>\<open>UPDATE users\<close> may break the uniqueness of \<open>access_key\<close>; then no row changes.\<close>

definition UpdateUser :: "structureDB \<Rightarrow> User \<Rightarrow> gerr + structureDB" where
  "UpdateUser s u =
     (let t = updateRows (\<lambda>r. usr_ID r = usr_ID u)
                (\<lambda>r. r\<lparr>usr_AccessKey := usr_AccessKey u, usr_SecretKeyHash := usr_SecretKeyHash u,
                        usr_SecretKeyEnc := usr_SecretKeyEnc u,
                        usr_WebPasswordHash := usr_WebPasswordHash u,
                        usr_WebPasswordEnc := usr_WebPasswordEnc u,
                        usr_DisplayName := usr_DisplayName u, usr_Enabled := usr_Enabled u\<rparr>)
                (users s) in
      if uniqueOn userKeys t then Inr (s\<lparr>users := t\<rparr>) else Inl (ESQL (Constraint ''users'')))"

definition DeleteUser :: "structureDB \<Rightarrow> string \<Rightarrow> gerr + structureDB" where
  "DeleteUser s ident =
     (let t = deleteRows (\<lambda>r. usr_ID r = ident) (users s);
          n = length (users s) - length t in
      if n = 0 then Inl (ENew (''user '' @ fmtQ ident @ '' not found''))
      else Inr (s\<lparr>users := t\<rparr>))"

definition SetUserWebPassword :: "structureDB \<Rightarrow> string \<Rightarrow> string \<Rightarrow> structureDB" where
  "SetUserWebPassword s ident hash =
     s\<lparr>users := updateRows (\<lambda>r. usr_ID r = ident) (\<lambda>r. r\<lparr>usr_WebPasswordHash := hash\<rparr>) (users s)\<rparr>"

definition SetUserWebPasswordAndEnc ::
  "structureDB \<Rightarrow> string \<Rightarrow> string \<Rightarrow> string \<Rightarrow> structureDB" where
  "SetUserWebPasswordAndEnc s ident hash enc =
     s\<lparr>users := updateRows (\<lambda>r. usr_ID r = ident)
        (\<lambda>r. r\<lparr>usr_WebPasswordHash := hash, usr_WebPasswordEnc := enc\<rparr>) (users s)\<rparr>"

section \<open>Buckets\<close>

definition bucketRow :: "Bucket \<Rightarrow> Bucket" where
  "bucketRow b = b\<lparr>bkt_CreatedAt := unixSec (bkt_CreatedAt b)\<rparr>"

definition scanBucket :: "Bucket \<Rightarrow> Bucket" where
  "scanBucket row = row\<lparr>bkt_CreatedAt := timeUnix (bkt_CreatedAt row)\<rparr>"

definition AddBucket :: "structureDB \<Rightarrow> Bucket \<Rightarrow> gerr + structureDB" where
  "AddBucket s b =
     (case insertRow ''buckets'' bucketKeys (bucketRow b) (buckets s) of
        Inl e \<Rightarrow> Inl e
      | Inr t \<Rightarrow> Inr (s\<lparr>buckets := t\<rparr>))"

definition UpdateBucket :: "structureDB \<Rightarrow> Bucket \<Rightarrow> structureDB" where
  "UpdateBucket s b =
     s\<lparr>buckets := updateRows (\<lambda>r. bkt_Name r = bkt_Name b)
        (\<lambda>r. r\<lparr>bkt_OwnerUserID := bkt_OwnerUserID b,
                bkt_WebDAVLocationID := bkt_WebDAVLocationID b\<rparr>) (buckets s)\<rparr>"

definition GetBucket :: "structureDB \<Rightarrow> string \<Rightarrow> gerr + Bucket" where
  "GetBucket s name =
     (case selectOne (\<lambda>r. bkt_Name r = name) (buckets s) of
        None \<Rightarrow> Inl (wrapAs ''scan bucket'' (ESQL NoRows))
      | Some row \<Rightarrow> Inr (scanBucket row))"

definition ListBuckets :: "structureDB \<Rightarrow> Bucket list" where
  "ListBuckets s = map scanBucket (sort_key bkt_CreatedAt (buckets s))"

definition ListBucketsByUser :: "structureDB \<Rightarrow> string \<Rightarrow> Bucket list" where
  "ListBucketsByUser s userID =
     map scanBucket (sort_key bkt_CreatedAt (filter (\<lambda>r. bkt_OwnerUserID r = userID) (buckets s)))"

definition DeleteBucketRow :: "structureDB \<Rightarrow> string \<Rightarrow> gerr + structureDB" where
  "DeleteBucketRow s name =
     (let t = deleteRows (\<lambda>r. bkt_Name r = name) (buckets s);
          n = length (buckets s) - length t in
      if n = 0 then Inl (ENew (''bucket '' @ fmtQ name @ '' not found''))
      else Inr (s\<lparr>buckets := t\<rparr>))"

section \<open>Files\<close>

text \<open>
  A database file: its tables, \<open>None\<close> for one that is missing, and the columns of its
  \<open>users\<close> table (a file of an older version has no \<open>web_password_enc\<close>).
\<close>

record structureFile =
  f_locations :: "Location list option"
  f_buckets :: "Bucket list option"
  f_users :: "User list option"
  f_userColumns :: "string list"

definition userColumns :: "string list" where
  "userColumns = ensureColumn
     [''id'', ''access_key'', ''secret_key_hash'', ''secret_key_enc'', ''web_password_hash'',
      ''web_password_enc'', ''display_name'', ''enabled'', ''created_at''] ''web_password_enc''"

definition SaveStructure :: "structureDB \<Rightarrow> structureFile" where
  "SaveStructure s =
     \<lparr>f_locations = Some (webdav_locations s), f_buckets = Some (buckets s),
      f_users = Some (users s), f_userColumns = userColumns\<rparr>"

definition copyTable ::
  "string \<Rightarrow> ('r \<Rightarrow> string) list \<Rightarrow> 'r list option \<Rightarrow> gerr + 'r list" where
  "copyTable table cols src =
     (case src of
        None \<Rightarrow> Inl (ESQL (DBFail (''no such table: src.'' @ table)))
      | Some rows \<Rightarrow> insertAll table cols rows [])"

definition copyUsersFromAttachedDB :: "structureFile \<Rightarrow> structureDB \<Rightarrow> (gerr + unit) \<times> structureDB" where
  "copyUsersFromAttachedDB f s =
     (let s = s\<lparr>users := []\<rparr>;
          has = tableHasColumn (f_userColumns f) ''web_password_enc'';
          src = (if has then f_users f
                 else map_option (map (\<lambda>u. u\<lparr>usr_WebPasswordEnc := []\<rparr>)) (f_users f)) in
      case copyTable ''users'' userKeys src of
        Inl e \<Rightarrow> (Inl e, s)
      | Inr t \<Rightarrow> (Inr (), s\<lparr>users := t\<rparr>))"

text \<open>
  \<open>LoadFromFile\<close> empties and refills one table after the other, without a transaction: an
  error leaves the tables done so far.
\<close>

definition LoadStructure :: "structureFile \<Rightarrow> structureDB \<Rightarrow> (gerr + unit) \<times> structureDB" where
  "LoadStructure f s =
     (let s = s\<lparr>webdav_locations := []\<rparr> in
      case copyTable ''webdav_locations'' locationKeys (f_locations f) of
        Inl e \<Rightarrow> (Inl e, s)
      | Inr ls \<Rightarrow>
          (let s = s\<lparr>webdav_locations := ls, buckets := []\<rparr> in
           case copyTable ''buckets'' bucketKeys (f_buckets f) of
             Inl e \<Rightarrow> (Inl e, s)
           | Inr bs \<Rightarrow> copyUsersFromAttachedDB f (s\<lparr>buckets := bs\<rparr>)))"

section \<open>The schema's constraints are an invariant\<close>

definition structure_wf :: "structureDB \<Rightarrow> bool" where
  "structure_wf s \<longleftrightarrow> uniqueOn locationKeys (webdav_locations s) \<and> uniqueOn userKeys (users s)
     \<and> uniqueOn bucketKeys (buckets s)"

lemmas key_defs = locationKeys_def userKeys_def bucketKeys_def

lemma wf_empty [simp]: "structure_wf emptyStructure"
  by (simp add: structure_wf_def emptyStructure_def)

lemma wf_AddLocation: "structure_wf s \<Longrightarrow> AddLocation s loc = Inr s' \<Longrightarrow> structure_wf s'"
  by (auto simp: AddLocation_def structure_wf_def Let_def split: sum.splits dest: uniqueOn_insertRow)

lemma wf_AddUser: "structure_wf s \<Longrightarrow> AddUser s u = Inr s' \<Longrightarrow> structure_wf s'"
  by (auto simp: AddUser_def structure_wf_def split: sum.splits dest: uniqueOn_insertRow)

lemma wf_AddBucket: "structure_wf s \<Longrightarrow> AddBucket s b = Inr s' \<Longrightarrow> structure_wf s'"
  by (auto simp: AddBucket_def structure_wf_def split: sum.splits dest: uniqueOn_insertRow)

lemma wf_DeleteLocation: "structure_wf s \<Longrightarrow> DeleteLocation s i = Inr s' \<Longrightarrow> structure_wf s'"
  by (auto simp: DeleteLocation_def structure_wf_def Let_def uniqueOn_deleteRows split: if_splits)

lemma wf_DeleteUser: "structure_wf s \<Longrightarrow> DeleteUser s i = Inr s' \<Longrightarrow> structure_wf s'"
  by (auto simp: DeleteUser_def structure_wf_def Let_def uniqueOn_deleteRows split: if_splits)

lemma wf_DeleteBucketRow: "structure_wf s \<Longrightarrow> DeleteBucketRow s i = Inr s' \<Longrightarrow> structure_wf s'"
  by (auto simp: DeleteBucketRow_def structure_wf_def Let_def uniqueOn_deleteRows split: if_splits)

lemma wf_UpdateLocation: "structure_wf s \<Longrightarrow> structure_wf (UpdateLocation s loc)"
proof -
  assume "structure_wf s"
  moreover have "uniqueOn locationKeys (webdav_locations s) \<Longrightarrow>
      uniqueOn locationKeys (webdav_locations (UpdateLocation s loc))"
    unfolding UpdateLocation_def Let_def by simp (rule uniqueOn_updateRows, auto simp: locationKeys_def)
  ultimately show ?thesis by (simp add: structure_wf_def UpdateLocation_def Let_def)
qed

lemma wf_UpdateBucket: "structure_wf s \<Longrightarrow> structure_wf (UpdateBucket s b)"
proof -
  assume "structure_wf s"
  moreover have "uniqueOn bucketKeys (buckets s) \<Longrightarrow> uniqueOn bucketKeys (buckets (UpdateBucket s b))"
    unfolding UpdateBucket_def by simp (rule uniqueOn_updateRows, auto simp: bucketKeys_def)
  ultimately show ?thesis by (simp add: structure_wf_def UpdateBucket_def)
qed

lemma wf_UpdateUser: "structure_wf s \<Longrightarrow> UpdateUser s u = Inr s' \<Longrightarrow> structure_wf s'"
  by (auto simp: UpdateUser_def structure_wf_def Let_def split: if_splits)

lemma wf_set_user_fields:
  assumes "structure_wf s" and "\<And>r. usr_ID (f r) = usr_ID r" and "\<And>r. usr_AccessKey (f r) = usr_AccessKey r"
  shows "structure_wf (s\<lparr>users := updateRows p f (users s)\<rparr>)"
proof -
  have "uniqueOn userKeys (updateRows p f (users s))"
    by (rule uniqueOn_updateRows) (use assms in \<open>auto simp: structure_wf_def userKeys_def\<close>)
  with assms(1) show ?thesis by (simp add: structure_wf_def)
qed

lemma copyTable_unique: "copyTable n cols src = Inr t \<Longrightarrow> uniqueOn cols t"
  by (auto simp: copyTable_def split: option.splits dest: uniqueOn_insertAll)

lemma wf_LoadStructure: "structure_wf s \<Longrightarrow> structure_wf (snd (LoadStructure f s))"
  by (auto simp: LoadStructure_def copyUsersFromAttachedDB_def structure_wf_def Let_def
      split: sum.splits dest: copyTable_unique)

subsection \<open>Every database an operation can produce\<close>

inductive structureStep :: "structureDB \<Rightarrow> structureDB \<Rightarrow> bool" where
  st_AddLocation: "AddLocation s loc = Inr s' \<Longrightarrow> structureStep s s'"
| st_UpdateLocation: "structureStep s (UpdateLocation s loc)"
| st_DeleteLocation: "DeleteLocation s i = Inr s' \<Longrightarrow> structureStep s s'"
| st_AddUser: "AddUser s u = Inr s' \<Longrightarrow> structureStep s s'"
| st_UpdateUser: "UpdateUser s u = Inr s' \<Longrightarrow> structureStep s s'"
| st_DeleteUser: "DeleteUser s i = Inr s' \<Longrightarrow> structureStep s s'"
| st_SetUserEnabled: "structureStep s (SetUserEnabled s i b)"
| st_SetUserWebPassword: "structureStep s (SetUserWebPassword s i h)"
| st_SetUserWebPasswordAndEnc: "structureStep s (SetUserWebPasswordAndEnc s i h e)"
| st_AddBucket: "AddBucket s b = Inr s' \<Longrightarrow> structureStep s s'"
| st_UpdateBucket: "structureStep s (UpdateBucket s b)"
| st_DeleteBucket: "DeleteBucketRow s n = Inr s' \<Longrightarrow> structureStep s s'"
| st_LoadFromFile: "structureStep s (snd (LoadStructure f s))"

lemma structureStep_wf: "structureStep s s' \<Longrightarrow> structure_wf s \<Longrightarrow> structure_wf s'"
  by (induction rule: structureStep.induct)
    (auto intro: wf_AddLocation wf_UpdateLocation wf_DeleteLocation wf_AddUser wf_UpdateUser
      wf_DeleteUser wf_AddBucket wf_UpdateBucket wf_DeleteBucketRow wf_LoadStructure
      simp: SetUserEnabled_def SetUserWebPassword_def SetUserWebPasswordAndEnc_def
      intro!: wf_set_user_fields)

interpretation structure_steps: step_system structureStep structure_wf
  by unfold_locales (rule structureStep_wf)

section \<open>The three tables meet the contract of a keyed table\<close>

definition storedLocation :: "Location \<Rightarrow> Location" where
  "storedLocation loc = scanLocation (locationRow (loc\<lparr>loc_BaseDir := NormalizeBaseDir (loc_BaseDir loc)\<rparr>))"

lemmas selectOne_simps = selectOne_deleteRows_same selectOne_deleteRows_other
lemmas find_one = selectOne_None_iff

interpretation locs: keyed_store structure_wf GetLocation AddLocation DeleteLocation loc_ID storedLocation
proof unfold_locales
  fix db db' :: structureDB and v :: Location and k k' :: string
  show "AddLocation db v = Inr db' \<Longrightarrow> \<exists>e. GetLocation db (loc_ID v) = Inl e"
    by (auto simp: AddLocation_def GetLocation_def Let_def find_one locationKeys_def conflicts_def
        locationRow_def split: sum.splits option.splits dest!: insertRow_Inr selectOne_SomeD)
  show "AddLocation db v = Inr db' \<Longrightarrow>
      GetLocation db' k = (if k = loc_ID v then Inr (storedLocation v) else GetLocation db k)"
    by (auto simp: AddLocation_def GetLocation_def Let_def selectOne_insertRow [where c = loc_ID]
        locationKeys_def locationRow_def storedLocation_def split: sum.splits)
  show "structure_wf db \<Longrightarrow> AddLocation db v = Inr db' \<Longrightarrow> structure_wf db'" by (rule wf_AddLocation)
  show "(\<exists>db'. DeleteLocation db k = Inr db') = (\<exists>v. GetLocation db k = Inr v)"
    by (auto simp: DeleteLocation_def GetLocation_def Let_def deleteRows_empty_iff split: option.splits)
  show "DeleteLocation db k = Inr db' \<Longrightarrow> k' \<noteq> k \<Longrightarrow> GetLocation db' k' = GetLocation db k'"
    by (auto simp: DeleteLocation_def GetLocation_def Let_def selectOne_deleteRows_other split: if_splits)
  show "DeleteLocation db k = Inr db' \<Longrightarrow> \<exists>e. GetLocation db' k = Inl e"
    by (auto simp: DeleteLocation_def GetLocation_def Let_def selectOne_deleteRows_same split: if_splits)
  show "structure_wf db \<Longrightarrow> DeleteLocation db k = Inr db' \<Longrightarrow> structure_wf db'" by (rule wf_DeleteLocation)
qed

interpretation usrs: keyed_store structure_wf GetUser AddUser DeleteUser usr_ID "\<lambda>u. scanUser (userRow u)"
proof unfold_locales
  fix db db' :: structureDB and v :: User and k k' :: string
  show "AddUser db v = Inr db' \<Longrightarrow> \<exists>e. GetUser db (usr_ID v) = Inl e"
    by (auto simp: AddUser_def GetUser_def find_one userKeys_def conflicts_def
        userRow_def split: sum.splits option.splits dest!: insertRow_Inr selectOne_SomeD)
  show "AddUser db v = Inr db' \<Longrightarrow>
      GetUser db' k = (if k = usr_ID v then Inr (scanUser (userRow v)) else GetUser db k)"
    by (auto simp: AddUser_def GetUser_def selectOne_insertRow [where c = usr_ID]
        userKeys_def userRow_def split: sum.splits)
  show "structure_wf db \<Longrightarrow> AddUser db v = Inr db' \<Longrightarrow> structure_wf db'" by (rule wf_AddUser)
  show "(\<exists>db'. DeleteUser db k = Inr db') = (\<exists>v. GetUser db k = Inr v)"
    by (auto simp: DeleteUser_def GetUser_def Let_def deleteRows_empty_iff split: option.splits)
  show "DeleteUser db k = Inr db' \<Longrightarrow> k' \<noteq> k \<Longrightarrow> GetUser db' k' = GetUser db k'"
    by (auto simp: DeleteUser_def GetUser_def Let_def selectOne_deleteRows_other split: if_splits)
  show "DeleteUser db k = Inr db' \<Longrightarrow> \<exists>e. GetUser db' k = Inl e"
    by (auto simp: DeleteUser_def GetUser_def Let_def selectOne_deleteRows_same split: if_splits)
  show "structure_wf db \<Longrightarrow> DeleteUser db k = Inr db' \<Longrightarrow> structure_wf db'" by (rule wf_DeleteUser)
qed

lemma AddUser_lookup:
  "AddUser d u = Inr d' \<Longrightarrow> GetUserByAccessKey d' k
     = (if usr_AccessKey (userRow u) = k then Inr (scanUser (userRow u)) else GetUserByAccessKey d k)"
  by (auto simp: AddUser_def GetUserByAccessKey_def userKeys_def selectOne_insertRow [where c = usr_AccessKey] split: sum.splits)

interpretation bkts: keyed_store structure_wf GetBucket AddBucket DeleteBucketRow bkt_Name
  "\<lambda>b. scanBucket (bucketRow b)"
proof unfold_locales
  fix db db' :: structureDB and v :: Bucket and k k' :: string
  show "AddBucket db v = Inr db' \<Longrightarrow> \<exists>e. GetBucket db (bkt_Name v) = Inl e"
    by (auto simp: AddBucket_def GetBucket_def find_one bucketKeys_def conflicts_def
        bucketRow_def split: sum.splits option.splits dest!: insertRow_Inr selectOne_SomeD)
  show "AddBucket db v = Inr db' \<Longrightarrow>
      GetBucket db' k = (if k = bkt_Name v then Inr (scanBucket (bucketRow v)) else GetBucket db k)"
    by (auto simp: AddBucket_def GetBucket_def selectOne_insertRow [where c = bkt_Name]
        bucketKeys_def bucketRow_def split: sum.splits)
  show "structure_wf db \<Longrightarrow> AddBucket db v = Inr db' \<Longrightarrow> structure_wf db'" by (rule wf_AddBucket)
  show "(\<exists>db'. DeleteBucketRow db k = Inr db') = (\<exists>v. GetBucket db k = Inr v)"
    by (auto simp: DeleteBucketRow_def GetBucket_def Let_def deleteRows_empty_iff split: option.splits)
  show "DeleteBucketRow db k = Inr db' \<Longrightarrow> k' \<noteq> k \<Longrightarrow> GetBucket db' k' = GetBucket db k'"
    by (auto simp: DeleteBucketRow_def GetBucket_def Let_def selectOne_deleteRows_other split: if_splits)
  show "DeleteBucketRow db k = Inr db' \<Longrightarrow> \<exists>e. GetBucket db' k = Inl e"
    by (auto simp: DeleteBucketRow_def GetBucket_def Let_def selectOne_deleteRows_same split: if_splits)
  show "structure_wf db \<Longrightarrow> DeleteBucketRow db k = Inr db' \<Longrightarrow> structure_wf db'"
    by (rule wf_DeleteBucketRow)
qed

end
