(* ===== verification/BucketDB.thy ===== *)
theory BucketDB
  imports Table
begin

text \<open>
  \<open>internal/meta/bucketdb.go\<close>: the SQLite database of one bucket, with its objects, the chunk
  manifests of large objects, and the multipart uploads in progress. A statement that fails
  inside a transaction rolls the transaction back, so an operation that returns an error leaves
  the database as it was.
\<close>

record ChunkRef =
  chk_PartNumber :: int
  chk_Path :: string
  chk_Size :: int
  chk_MD5Hex :: string

record Object =
  obj_ID :: string
  obj_Key :: string
  obj_HashPath :: string
  obj_SizeBytes :: int
  obj_ETag :: string
  obj_ContentType :: string
  obj_LastModified :: gotime
  obj_UploadComplete :: bool
  obj_Chunks :: "ChunkRef list"

record MultipartUpload =
  mpu_ID :: string
  mpu_Key :: string
  mpu_ContentType :: string
  mpu_Initiated :: gotime

record MultipartPart =
  mpp_UploadID :: string
  mpp_PartNumber :: int
  mpp_HashPath :: string
  mpp_SizeBytes :: int
  mpp_ETag :: string

text \<open>
  The tables. A row of \<open>objects\<close> is an \<open>Object\<close> with no chunks and its time in seconds; a row
  of \<open>object_chunks\<close> is the object's key with the chunk.
\<close>

record bucketDB =
  objects :: "Object list"
  object_chunks :: "(string \<times> ChunkRef) list"
  multipart_uploads :: "MultipartUpload list"
  multipart_parts :: "MultipartPart list"

definition emptyBucketDB :: bucketDB where
  "emptyBucketDB = \<lparr>objects = [], object_chunks = [], multipart_uploads = [], multipart_parts = []\<rparr>"

section \<open>Objects\<close>

definition objectRow :: "Object \<Rightarrow> Object" where
  "objectRow obj = obj\<lparr>obj_LastModified := unixSec (obj_LastModified obj), obj_Chunks := []\<rparr>"

definition scanObject :: "Object \<Rightarrow> Object" where
  "scanObject row = row\<lparr>obj_LastModified := timeUnix (obj_LastModified row)\<rparr>"

text \<open>
  \<open>INSERT \<dots> ON CONFLICT(key) DO UPDATE\<close>: the row with the same key is replaced, otherwise the
  row is added; the id must not belong to another row.
\<close>

definition upsertObject :: "Object \<Rightarrow> Object list \<Rightarrow> gerr + Object list" where
  "upsertObject row t =
     (if \<exists>r \<in> set t. obj_ID r = obj_ID row \<and> obj_Key r \<noteq> obj_Key row
      then Inl (ESQL (Constraint ''objects.id''))
      else if \<exists>r \<in> set t. obj_Key r = obj_Key row
      then Inr (updateRows (\<lambda>r. obj_Key r = obj_Key row) (\<lambda>_. row) t)
      else Inr (t @ [row]))"

text \<open>The chunk inserts, one statement each; a part number used twice breaks the primary key.\<close>

fun insertChunks ::
  "string \<Rightarrow> ChunkRef list \<Rightarrow> (string \<times> ChunkRef) list \<Rightarrow> gerr + (string \<times> ChunkRef) list" where
  "insertChunks key [] t = Inr t"
| "insertChunks key (c # cs) t =
     (if \<exists>(k, d) \<in> set t. k = key \<and> chk_PartNumber d = chk_PartNumber c
      then Inl (ESQL (Constraint ''object_chunks''))
      else insertChunks key cs (t @ [(key, c)]))"

text \<open>The statements \<open>PutObject\<close> and \<open>CompleteMultipartUpload\<close> share.\<close>

definition writeObject :: "bucketDB \<Rightarrow> Object \<Rightarrow> gerr + bucketDB" where
  "writeObject b obj =
     (case upsertObject (objectRow obj) (objects b) of
        Inl e \<Rightarrow> Inl e
      | Inr os \<Rightarrow>
          (case insertChunks (obj_Key obj) (obj_Chunks obj)
                  (deleteRows (\<lambda>(k, _). k = obj_Key obj) (object_chunks b)) of
             Inl e \<Rightarrow> Inl e
           | Inr cs \<Rightarrow> Inr (b\<lparr>objects := os, object_chunks := cs\<rparr>)))"

definition PutObject :: "bucketDB \<Rightarrow> Object \<Rightarrow> gerr + bucketDB" where
  "PutObject b obj = writeObject b obj"

definition loadChunks :: "bucketDB \<Rightarrow> string \<Rightarrow> ChunkRef list" where
  "loadChunks b key =
     sort_key chk_PartNumber (map snd (filter (\<lambda>(k, _). k = key) (object_chunks b)))"

definition GetObject :: "bucketDB \<Rightarrow> string \<Rightarrow> gerr + Object" where
  "GetObject b key =
     (case selectOne (\<lambda>r. obj_Key r = key) (objects b) of
        None \<Rightarrow> Inl (wrapAs ''scan object'' (ESQL NoRows))
      | Some row \<Rightarrow> Inr ((scanObject row)\<lparr>obj_Chunks := loadChunks b key\<rparr>))"

definition DeleteObject :: "bucketDB \<Rightarrow> string \<Rightarrow> gerr + bucketDB" where
  "DeleteObject b key =
     (let t = deleteRows (\<lambda>r. obj_Key r = key) (objects b);
          n = length (objects b) - length t in
      if n = 0 then Inl (ENew (''object '' @ fmtQ key @ '' not found''))
      else Inr (b\<lparr>objects := t, object_chunks := deleteRows (\<lambda>(k, _). k = key) (object_chunks b)\<rparr>))"

definition CountByHashPath :: "bucketDB \<Rightarrow> string \<Rightarrow> int" where
  "CountByHashPath b hashPath = int (length (filter (\<lambda>r. obj_HashPath r = hashPath) (objects b)))"

section \<open>Listing\<close>

definition escapeLike :: "string \<Rightarrow> string" where
  "escapeLike s =
     concat (map (\<lambda>c. if c = CHR 0x25 \<or> c = CHR ''_'' \<or> c = CHR 0x5C then [CHR 0x5C, c] else [c]) s)"

definition asciiLower :: "char \<Rightarrow> char" where
  "asciiLower c =
     (let n = of_char c :: nat in if 65 \<le> n \<and> n \<le> 90 then char_of (n + 32) else c)"

text \<open>
  SQLite's \<open>text LIKE pattern ESCAPE '\'\<close>, with \<open>case_sensitive_like\<close> left at its default: \<open>%\<close>
  matches any sequence, \<open>_\<close> any character, the escape character makes the next one literal,
  and ASCII letters match without regard to case.
\<close>

fun likeMatch :: "string \<Rightarrow> string \<Rightarrow> bool" where
  "likeMatch [] s \<longleftrightarrow> s = []"
| "likeMatch (p # ps) [] \<longleftrightarrow> p = CHR 0x25 \<and> likeMatch ps []"
| "likeMatch (p # ps) (c # cs) \<longleftrightarrow>
     (if p = CHR 0x25 then likeMatch ps (c # cs) \<or> likeMatch (p # ps) cs
      else if p = CHR ''_'' then likeMatch ps cs
      else if p = CHR 0x5C then
        (case ps of [] \<Rightarrow> False | q # qs \<Rightarrow> asciiLower q = asciiLower c \<and> likeMatch qs cs)
      else asciiLower p = asciiLower c \<and> likeMatch ps cs)"

definition buildListQuery :: "string \<Rightarrow> string \<Rightarrow> int \<Rightarrow> Object list \<Rightarrow> Object list" where
  "buildListQuery pref startAfter maxKeys t =
     (let sel = filter (\<lambda>r. obj_UploadComplete r
                  \<and> (pref \<noteq> [] \<longrightarrow> likeMatch (escapeLike pref @ [CHR 0x25]) (obj_Key r))
                  \<and> (startAfter \<noteq> [] \<longrightarrow> startAfter < obj_Key r)) t;
          ordered = sort_key obj_Key sel in
      if maxKeys > 0 then take (nat maxKeys) ordered else ordered)"

definition listObjectsSingleQuery ::
  "bucketDB \<Rightarrow> string \<Rightarrow> string \<Rightarrow> int \<Rightarrow> Object list \<times> string list" where
  "listObjectsSingleQuery b pref startAfter maxKeys =
     (map scanObject (buildListQuery pref startAfter maxKeys (objects b)), [])"

text \<open>
  The body of the row loop of \<open>listObjectsBatched\<close>: the key falls into a common prefix when the
  delimiter occurs after the requested prefix. The flag says that the loop returned early.
\<close>

fun scanBatch ::
  "string \<Rightarrow> string \<Rightarrow> int \<Rightarrow> Object list \<Rightarrow> Object list \<Rightarrow> string list
     \<Rightarrow> bool \<times> Object list \<times> string list" where
  "scanBatch pref delimiter maxKeys [] objs cps = (False, objs, cps)"
| "scanBatch pref delimiter maxKeys (row # rows) objs cps =
     (let obj = scanObject row;
          rest = drop (length pref) (obj_Key obj);
          (objs', cps') =
            (case indexOf rest delimiter of
               Some idx \<Rightarrow>
                 (let cp = pref @ take (idx + length delimiter) rest in
                  if cp \<in> set cps then (objs, cps) else (objs, cps @ [cp]))
             | None \<Rightarrow> (objs @ [obj], cps)) in
      if maxKeys > 0 \<and> int (length objs') + int (length cps') \<ge> maxKeys then (True, objs', cps')
      else scanBatch pref delimiter maxKeys rows objs' cps')"

text \<open>
  The batch loop, with a bound on its rounds (\<open>None\<close>: not finished within the bound). Every
  round starts after the last key of the round before.
\<close>

fun listBatches ::
  "nat \<Rightarrow> bucketDB \<Rightarrow> string \<Rightarrow> string \<Rightarrow> int \<Rightarrow> int \<Rightarrow> string \<Rightarrow> Object list \<Rightarrow> string list
     \<Rightarrow> (Object list \<times> string list) option" where
  "listBatches 0 b pref delimiter batchSize maxKeys cursor objs cps = None"
| "listBatches (Suc fuel) b pref delimiter batchSize maxKeys cursor objs cps =
     (let rows = buildListQuery pref cursor batchSize (objects b) in
      case scanBatch pref delimiter maxKeys rows objs cps of
        (stop, objs', cps') \<Rightarrow>
          if stop then Some (objs', cps')
          else if rows = [] then Some (objs', cps')
          else listBatches fuel b pref delimiter batchSize maxKeys (obj_Key (last rows)) objs' cps')"

definition batchFuel :: "bucketDB \<Rightarrow> int \<Rightarrow> nat" where
  "batchFuel b maxKeys = length (objects b) + nat maxKeys + 2"

text \<open>\<open>make([]Object, 0, maxKeys)\<close> panics on a negative capacity.\<close>

definition listObjectsBatched ::
  "bucketDB \<Rightarrow> string \<Rightarrow> string \<Rightarrow> string \<Rightarrow> int \<Rightarrow> gerr + (Object list \<times> string list)" where
  "listObjectsBatched b pref delimiter startAfter maxKeys =
     (let batchSize = (if maxKeys \<le> 0 then 10000 else maxKeys) in
      if maxKeys < 0 then Inl (EAbort ''makeslice: cap out of range'')
      else case listBatches (batchFuel b maxKeys) b pref delimiter batchSize maxKeys startAfter [] [] of
             Some r \<Rightarrow> Inr r
           | None \<Rightarrow> Inl (EAbort ''listObjectsBatched does not return''))"

definition ListObjects ::
  "bucketDB \<Rightarrow> string \<Rightarrow> string \<Rightarrow> string \<Rightarrow> int \<Rightarrow> gerr + (Object list \<times> string list)" where
  "ListObjects b pref delimiter startAfter maxKeys =
     (if delimiter = [] then Inr (listObjectsSingleQuery b pref startAfter maxKeys)
      else listObjectsBatched b pref delimiter startAfter maxKeys)"

section \<open>Multipart uploads\<close>

definition CreateMultipartUpload :: "bucketDB \<Rightarrow> MultipartUpload \<Rightarrow> gerr + bucketDB" where
  "CreateMultipartUpload b up =
     (case insertRow ''multipart_uploads'' [mpu_ID]
             (up\<lparr>mpu_Initiated := unixSec (mpu_Initiated up)\<rparr>) (multipart_uploads b) of
        Inl e \<Rightarrow> Inl e
      | Inr t \<Rightarrow> Inr (b\<lparr>multipart_uploads := t\<rparr>))"

definition scanUpload :: "MultipartUpload \<Rightarrow> MultipartUpload" where
  "scanUpload row = row\<lparr>mpu_Initiated := timeUnix (mpu_Initiated row)\<rparr>"

definition GetMultipartUpload :: "bucketDB \<Rightarrow> string \<Rightarrow> gerr + MultipartUpload" where
  "GetMultipartUpload b ident =
     (case selectOne (\<lambda>r. mpu_ID r = ident) (multipart_uploads b) of
        None \<Rightarrow> Inl (wrapAs (''get multipart upload '' @ ident) (ESQL NoRows))
      | Some row \<Rightarrow> Inr (scanUpload row))"

definition ListMultipartUploads :: "bucketDB \<Rightarrow> MultipartUpload list" where
  "ListMultipartUploads b = map scanUpload (sort_key mpu_Initiated (multipart_uploads b))"

text \<open>\<open>INSERT \<dots> ON CONFLICT(upload_id, part_number) DO UPDATE\<close>.\<close>

definition AddPart :: "bucketDB \<Rightarrow> MultipartPart \<Rightarrow> bucketDB" where
  "AddPart b part =
     (let same = (\<lambda>r. mpp_UploadID r = mpp_UploadID part \<and> mpp_PartNumber r = mpp_PartNumber part);
          t = multipart_parts b in
      b\<lparr>multipart_parts :=
          (if \<exists>r \<in> set t. same r
           then updateRows same
                  (\<lambda>r. r\<lparr>mpp_HashPath := mpp_HashPath part, mpp_SizeBytes := mpp_SizeBytes part,
                          mpp_ETag := mpp_ETag part\<rparr>) t
           else t @ [part])\<rparr>)"

definition ListParts :: "bucketDB \<Rightarrow> string \<Rightarrow> MultipartPart list" where
  "ListParts b uploadID =
     sort_key mpp_PartNumber (filter (\<lambda>r. mpp_UploadID r = uploadID) (multipart_parts b))"

definition dropUpload :: "bucketDB \<Rightarrow> string \<Rightarrow> bucketDB" where
  "dropUpload b uploadID =
     b\<lparr>multipart_parts := deleteRows (\<lambda>r. mpp_UploadID r = uploadID) (multipart_parts b),
       multipart_uploads := deleteRows (\<lambda>r. mpu_ID r = uploadID) (multipart_uploads b)\<rparr>"

definition CompleteMultipartUpload :: "bucketDB \<Rightarrow> string \<Rightarrow> Object \<Rightarrow> gerr + bucketDB" where
  "CompleteMultipartUpload b uploadID obj =
     (case writeObject b obj of Inl e \<Rightarrow> Inl e | Inr b' \<Rightarrow> Inr (dropUpload b' uploadID))"

definition AbortMultipartUpload :: "bucketDB \<Rightarrow> string \<Rightarrow> bucketDB" where
  "AbortMultipartUpload b uploadID = dropUpload b uploadID"

section \<open>The schema's constraints are an invariant\<close>

definition chunkKey :: "string \<times> ChunkRef \<Rightarrow> string \<times> int" where
  "chunkKey kc = (fst kc, chk_PartNumber (snd kc))"

definition partKey :: "MultipartPart \<Rightarrow> string \<times> int" where
  "partKey p = (mpp_UploadID p, mpp_PartNumber p)"

text \<open>
  Beside the declared keys: a chunk row belongs to an object, because \<open>PutObject\<close> and
  \<open>DeleteObject\<close> write both tables in one transaction.
\<close>

definition bucket_wf :: "bucketDB \<Rightarrow> bool" where
  "bucket_wf b \<longleftrightarrow> distinct (map obj_ID (objects b)) \<and> distinct (map obj_Key (objects b))
     \<and> distinct (map chunkKey (object_chunks b))
     \<and> fst ` set (object_chunks b) \<subseteq> obj_Key ` set (objects b)
     \<and> distinct (map mpu_ID (multipart_uploads b))
     \<and> distinct (map partKey (multipart_parts b))"

lemma bucket_wf_empty [simp]: "bucket_wf emptyBucketDB"
  by (simp add: bucket_wf_def emptyBucketDB_def)

lemma insertChunks_Inr:
  "insertChunks key cs t = Inr t' \<Longrightarrow> t' = t @ map (Pair key) cs
     \<and> (distinct (map chunkKey t) \<longrightarrow> distinct (map chunkKey t'))"
proof (induction cs arbitrary: t)
  case Nil
  then show ?case by simp
next
  case (Cons c cs)
  from Cons.prems have new: "\<not> (\<exists>(k, d) \<in> set t. k = key \<and> chk_PartNumber d = chk_PartNumber c)"
    and rec: "insertChunks key cs (t @ [(key, c)]) = Inr t'" by (auto split: if_splits)
  from new have "distinct (map chunkKey t) \<Longrightarrow> distinct (map chunkKey (t @ [(key, c)]))"
    by (fastforce simp: chunkKey_def)
  moreover from Cons.IH [OF rec] have "t' = (t @ [(key, c)]) @ map (Pair key) cs"
    and "distinct (map chunkKey (t @ [(key, c)])) \<longrightarrow> distinct (map chunkKey t')" by blast+
  ultimately show ?case by (intro conjI impI) (simp, blast)
qed

lemma insertChunks_iff:
  "(\<exists>t'. insertChunks key cs t = Inr t') \<longleftrightarrow>
     distinct (map chk_PartNumber cs)
     \<and> (\<forall>(k, d) \<in> set t. k = key \<longrightarrow> chk_PartNumber d \<notin> chk_PartNumber ` set cs)"
proof (induction cs arbitrary: t)
  case Nil
  then show ?case by auto
next
  case (Cons c cs)
  show ?case
    by (auto simp: Cons.IH image_iff Ball_def Bex_def split: prod.splits if_splits)
qed

lemma upsertObject_cases:
  assumes "upsertObject row t = Inr t'"
  obtains (replace) "obj_Key row \<in> obj_Key ` set t"
      "t' = updateRows (\<lambda>r. obj_Key r = obj_Key row) (\<lambda>_. row) t"
      "\<forall>r \<in> set t. obj_ID r = obj_ID row \<longrightarrow> obj_Key r = obj_Key row"
    | (add) "obj_Key row \<notin> obj_Key ` set t" "t' = t @ [row]"
      "obj_ID row \<notin> obj_ID ` set t"
proof -
  from assms have nid: "\<not> (\<exists>r \<in> set t. obj_ID r = obj_ID row \<and> obj_Key r \<noteq> obj_Key row)"
    by (simp add: upsertObject_def split: if_splits)
  show thesis
  proof (cases "\<exists>r \<in> set t. obj_Key r = obj_Key row")
    case True
    with assms nid have t': "t' = updateRows (\<lambda>r. obj_Key r = obj_Key row) (\<lambda>_. row) t"
      by (simp add: upsertObject_def)
    from True have "obj_Key row \<in> obj_Key ` set t" by (metis image_eqI)
    with t' nid show thesis by (intro replace) blast+
  next
    case False
    with assms nid have t': "t' = t @ [row]" by (simp add: upsertObject_def)
    from False have "obj_Key row \<notin> obj_Key ` set t" by (metis imageE)
    moreover from False nid have "obj_ID row \<notin> obj_ID ` set t" by (metis imageE)
    ultimately show thesis using t' by (intro add) blast+
  qed
qed

lemma map_Key_updateRows:
  "map obj_Key (updateRows (\<lambda>r. obj_Key r = obj_Key row) (\<lambda>_. row) t) = map obj_Key t"
  by (simp add: updateRows_def)

lemma upsertObject_keys:
  assumes "upsertObject row t = Inr t'"
  shows "obj_Key ` set t' = insert (obj_Key row) (obj_Key ` set t)"
  using assms
proof (cases rule: upsertObject_cases)
  case replace
  then have "obj_Key ` set t' = obj_Key ` set t"
    using map_Key_updateRows [of row t] by (metis set_map)
  with replace show ?thesis by blast
next
  case add
  then show ?thesis by simp
qed

lemma upsertObject_distinct_keys:
  assumes "upsertObject row t = Inr t'" "distinct (map obj_Key t)"
  shows "distinct (map obj_Key t')"
  using assms(1)
proof (cases rule: upsertObject_cases)
  case replace
  then show ?thesis using assms(2) by (simp add: map_Key_updateRows)
next
  case add
  then show ?thesis using assms(2) by simp
qed

lemma updateRows_Cons: "updateRows P f (a # t) = (if P a then f a else a) # updateRows P f t"
  by (simp add: updateRows_def)

lemma updateRows_other: "k \<notin> obj_Key ` set t \<Longrightarrow> updateRows (\<lambda>r. obj_Key r = k) (\<lambda>_. row) t = t"
  by (induction t) (auto simp: updateRows_def)

lemma set_updateRows: "x \<in> set (updateRows P f t) \<Longrightarrow> x \<in> set t \<and> \<not> P x \<or> (\<exists>y \<in> set t. P y \<and> x = f y)"
  by (auto simp: updateRows_def split: if_splits)

lemma updateRows_distinct_ids:
  assumes "distinct (map obj_Key t)" "distinct (map obj_ID t)"
    and "\<forall>r \<in> set t. obj_ID r = obj_ID row \<longrightarrow> obj_Key r = obj_Key row"
  shows "distinct (map obj_ID (updateRows (\<lambda>r. obj_Key r = obj_Key row) (\<lambda>_. row) t))"
  using assms
proof (induction t)
  case Nil
  then show ?case by (simp add: updateRows_def)
next
  case (Cons a t)
  show ?case
  proof (cases "obj_Key a = obj_Key row")
    case True
    with Cons.prems have "obj_Key row \<notin> obj_Key ` set t" by auto
    then have "updateRows (\<lambda>r. obj_Key r = obj_Key row) (\<lambda>_. row) t = t" by (rule updateRows_other)
    moreover have "obj_ID row \<notin> obj_ID ` set t"
    proof
      assume "obj_ID row \<in> obj_ID ` set t"
      then obtain x where "x \<in> set t" "obj_ID x = obj_ID row" by fastforce
      with Cons.prems(3) have "obj_Key x = obj_Key row" by simp
      with \<open>x \<in> set t\<close> \<open>obj_Key row \<notin> obj_Key ` set t\<close> show False by (metis image_eqI)
    qed
    ultimately show ?thesis using True Cons.prems(2) by (simp add: updateRows_def)
  next
    case False
    have ni: "obj_ID a \<notin> obj_ID ` set (updateRows (\<lambda>r. obj_Key r = obj_Key row) (\<lambda>_. row) t)"
    proof
      assume "obj_ID a \<in> obj_ID ` set (updateRows (\<lambda>r. obj_Key r = obj_Key row) (\<lambda>_. row) t)"
      then obtain x where x: "x \<in> set (updateRows (\<lambda>r. obj_Key r = obj_Key row) (\<lambda>_. row) t)"
        "obj_ID a = obj_ID x" by blast
      from set_updateRows [OF x(1)] have "x \<in> set t \<or> x = row" by blast
      then show False
      proof
        assume "x \<in> set t"
        with x(2) Cons.prems(2) show False by auto
      next
        assume "x = row"
        with x(2) Cons.prems(3) False show False by auto
      qed
    qed
    have "distinct (map obj_ID (updateRows (\<lambda>r. obj_Key r = obj_Key row) (\<lambda>_. row) t))"
      using Cons.IH Cons.prems by simp
    with ni False show ?thesis by (simp add: updateRows_Cons)
  qed
qed

lemma upsertObject_distinct_ids:
  assumes "upsertObject row t = Inr t'" "distinct (map obj_Key t)" "distinct (map obj_ID t)"
  shows "distinct (map obj_ID t')"
  using assms(1)
proof (cases rule: upsertObject_cases)
  case replace
  then show ?thesis using updateRows_distinct_ids [OF assms(2,3)] by blast
next
  case add
  then show ?thesis using assms(3) by simp
qed

lemma selectOne_updateRows_key:
  assumes "k' \<in> obj_Key ` set t" and "obj_Key row = k'"
  shows "selectOne (\<lambda>r. obj_Key r = k) (updateRows (\<lambda>r. obj_Key r = k') (\<lambda>_. row) t)
      = (if k = k' then Some row else selectOne (\<lambda>r. obj_Key r = k) t)"
  using assms(1)
proof (induction t)
  case Nil
  then show ?case by simp
next
  case (Cons a t)
  show ?case
  proof (cases "k' \<in> obj_Key ` set t")
    case True
    from Cons.IH [OF this] assms(2) show ?thesis by (auto simp: updateRows_def selectOne_def)
  next
    case False
    with Cons.prems have a: "obj_Key a = k'" by auto
    from updateRows_other [OF False, of row] have
      "updateRows (\<lambda>r. obj_Key r = k') (\<lambda>_. row) (a # t) = row # t"
      using a by (simp add: updateRows_def)
    then show ?thesis using a assms(2) by (simp add: selectOne_def)
  qed
qed

lemma upsertObject_select:
  assumes "upsertObject row t = Inr t'"
  shows "selectOne (\<lambda>r. obj_Key r = k) t'
      = (if k = obj_Key row then Some row else selectOne (\<lambda>r. obj_Key r = k) t)"
  using assms
proof (cases rule: upsertObject_cases)
  case replace
  then show ?thesis using selectOne_updateRows_key [OF replace(1), of row] by simp
next
  case add
  then have "selectOne (\<lambda>r. obj_Key r = obj_Key row) t = None"
    unfolding selectOne_None_iff by (metis image_eqI)
  with add show ?thesis by (auto simp: selectOne_def find_append split: option.splits)
qed

lemma writeObject_Inr:
  assumes "writeObject b obj = Inr b'"
  shows "\<exists>os. upsertObject (objectRow obj) (objects b) = Inr os
     \<and> b' = b\<lparr>objects := os, object_chunks :=
          filter (\<lambda>(k, _). k \<noteq> obj_Key obj) (object_chunks b) @ map (Pair (obj_Key obj)) (obj_Chunks obj)\<rparr>
     \<and> (distinct (map chunkKey (object_chunks b)) \<longrightarrow> distinct (map chunkKey (object_chunks b')))"
  using assms
  by (auto simp: writeObject_def deleteRows_def case_prod_unfold distinct_map_filter
      split: sum.splits dest!: insertChunks_Inr)

lemma objectRow_simps [simp]:
  "obj_Key (objectRow o') = obj_Key o'" "obj_ID (objectRow o') = obj_ID o'"
  "obj_HashPath (objectRow o') = obj_HashPath o'" "obj_SizeBytes (objectRow o') = obj_SizeBytes o'"
  "obj_UploadComplete (objectRow o') = obj_UploadComplete o'"
  by (simp_all add: objectRow_def)

lemma scanObject_simps [simp]:
  "obj_Key (scanObject o') = obj_Key o'" "obj_ID (scanObject o') = obj_ID o'"
  "obj_HashPath (scanObject o') = obj_HashPath o'" "obj_SizeBytes (scanObject o') = obj_SizeBytes o'"
  "obj_UploadComplete (scanObject o') = obj_UploadComplete o'"
  by (simp_all add: scanObject_def)

lemma bucket_wfI:
  "distinct (map obj_ID (objects b)) \<Longrightarrow> distinct (map obj_Key (objects b)) \<Longrightarrow>
   distinct (map chunkKey (object_chunks b)) \<Longrightarrow>
   fst ` set (object_chunks b) \<subseteq> obj_Key ` set (objects b) \<Longrightarrow>
   distinct (map mpu_ID (multipart_uploads b)) \<Longrightarrow>
   distinct (map partKey (multipart_parts b)) \<Longrightarrow> bucket_wf b"
  by (simp add: bucket_wf_def)

lemma bucket_wfD:
  assumes "bucket_wf b"
  shows "distinct (map obj_ID (objects b))" "distinct (map obj_Key (objects b))"
    "distinct (map chunkKey (object_chunks b))"
    "fst ` set (object_chunks b) \<subseteq> obj_Key ` set (objects b)"
    "distinct (map mpu_ID (multipart_uploads b))" "distinct (map partKey (multipart_parts b))"
  using assms by (simp_all add: bucket_wf_def)

lemma wf_writeObject:
  assumes "bucket_wf b" "writeObject b obj = Inr b'"
  shows "bucket_wf b'"
proof -
  from writeObject_Inr [OF assms(2)] obtain os where
    os: "upsertObject (objectRow obj) (objects b) = Inr os"
    and b': "b' = b\<lparr>objects := os, object_chunks :=
          filter (\<lambda>(k, _). k \<noteq> obj_Key obj) (object_chunks b) @ map (Pair (obj_Key obj)) (obj_Chunks obj)\<rparr>"
    and d: "distinct (map chunkKey (object_chunks b))  \<longrightarrow> distinct (map chunkKey (object_chunks b'))"
    by blast
  note wf = bucket_wfD [OF assms(1)]
  show ?thesis
  proof (rule bucket_wfI)
    show "distinct (map obj_ID (objects b'))"
      using upsertObject_distinct_ids [OF os wf(2,1)] by (simp add: b')
    show "distinct (map obj_Key (objects b'))"
      using upsertObject_distinct_keys [OF os wf(2)] by (simp add: b')
    show "distinct (map chunkKey (object_chunks b'))" using d wf(3) by blast
    have "fst ` set (object_chunks b') \<subseteq> insert (obj_Key obj) (fst ` set (object_chunks b))"
      by (auto simp: b')
    then show "fst ` set (object_chunks b') \<subseteq> obj_Key ` set (objects b')"
      using wf(4) upsertObject_keys [OF os] by (auto simp: b')
  qed (use wf(5,6) in \<open>simp_all add: b'\<close>)
qed

lemma wf_PutObject: "bucket_wf b \<Longrightarrow> PutObject b obj = Inr b' \<Longrightarrow> bucket_wf b'"
  unfolding PutObject_def by (rule wf_writeObject)

lemma wf_DeleteObject:
  assumes "bucket_wf b" "DeleteObject b key = Inr b'"
  shows "bucket_wf b'"
proof -
  from assms(2) have b': "b' = b\<lparr>objects := filter (\<lambda>r. obj_Key r \<noteq> key) (objects b),
      object_chunks := filter (\<lambda>(k, _). k \<noteq> key) (object_chunks b)\<rparr>"
    by (auto simp: DeleteObject_def Let_def deleteRows_def case_prod_unfold split: if_splits)
  note wf = bucket_wfD [OF assms(1)]
  have "k \<in> obj_Key ` set (objects b')" if kc: "(k, c) \<in> set (object_chunks b')" for k c
  proof -
    from kc have "k \<noteq> key" "k \<in> fst ` set (object_chunks b)" by (force simp: b')+
    moreover from this(2) wf(4) have "k \<in> obj_Key ` set (objects b)" by blast
    ultimately show ?thesis by (auto simp: b')
  qed
  then have "fst ` set (object_chunks b') \<subseteq> obj_Key ` set (objects b')" by force
  then show ?thesis using wf
    by (intro bucket_wfI) (simp_all add: b' distinct_map_filter)
qed

lemma wf_dropUpload: "bucket_wf b \<Longrightarrow> bucket_wf (dropUpload b i)"
  by (simp add: bucket_wf_def dropUpload_def deleteRows_def distinct_map_filter)

lemma wf_CompleteMultipartUpload:
  "bucket_wf b \<Longrightarrow> CompleteMultipartUpload b i obj = Inr b' \<Longrightarrow> bucket_wf b'"
  by (auto simp: CompleteMultipartUpload_def split: sum.splits intro: wf_dropUpload wf_writeObject)

lemma wf_AbortMultipartUpload: "bucket_wf b \<Longrightarrow> bucket_wf (AbortMultipartUpload b i)"
  unfolding AbortMultipartUpload_def by (rule wf_dropUpload)

lemma wf_CreateMultipartUpload:
  "bucket_wf b \<Longrightarrow> CreateMultipartUpload b up = Inr b' \<Longrightarrow> bucket_wf b'"
proof -
  assume wf: "bucket_wf b" and c: "CreateMultipartUpload b up = Inr b'"
  from c obtain t where t: "insertRow ''multipart_uploads'' [mpu_ID]
      (up\<lparr>mpu_Initiated := unixSec (mpu_Initiated up)\<rparr>) (multipart_uploads b) = Inr t"
    and b': "b' = b\<lparr>multipart_uploads := t\<rparr>"
    by (auto simp: CreateMultipartUpload_def split: sum.splits)
  from wf have "uniqueOn [mpu_ID] (multipart_uploads b)" by (simp add: bucket_wf_def uniqueOn_def)
  then have "uniqueOn [mpu_ID] t" using t by (rule uniqueOn_insertRow)
  with wf show ?thesis by (simp add: b' bucket_wf_def uniqueOn_def)
qed

lemma wf_AddPart:
  assumes "bucket_wf b"
  shows "bucket_wf (AddPart b part)"
proof -
  let ?t = "multipart_parts b" and ?t' = "multipart_parts (AddPart b part)"
  have "distinct (map partKey ?t')"
  proof (cases "partKey part \<in> partKey ` set ?t")
    case True
    then have "map partKey ?t' = map partKey ?t"
      by (auto simp: AddPart_def Let_def updateRows_def partKey_def)
    with assms show ?thesis by (simp add: bucket_wf_def)
  next
    case False
    then have "?t' = ?t @ [part]"
      by (auto simp: AddPart_def Let_def partKey_def image_iff)
    with False assms show ?thesis by (auto simp: bucket_wf_def)
  qed
  with assms show ?thesis by (simp add: bucket_wf_def AddPart_def Let_def)
qed

inductive bucketStep :: "bucketDB \<Rightarrow> bucketDB \<Rightarrow> bool" where
  bs_Put: "PutObject b obj = Inr b' \<Longrightarrow> bucketStep b b'"
| bs_Delete: "DeleteObject b key = Inr b' \<Longrightarrow> bucketStep b b'"
| bs_Create: "CreateMultipartUpload b up = Inr b' \<Longrightarrow> bucketStep b b'"
| bs_AddPart: "bucketStep b (AddPart b part)"
| bs_Complete: "CompleteMultipartUpload b i obj = Inr b' \<Longrightarrow> bucketStep b b'"
| bs_Abort: "bucketStep b (AbortMultipartUpload b i)"

lemma bucketStep_wf: "bucketStep b b' \<Longrightarrow> bucket_wf b \<Longrightarrow> bucket_wf b'"
  by (induction rule: bucketStep.induct)
    (auto intro: wf_PutObject wf_DeleteObject wf_CreateMultipartUpload wf_AddPart
      wf_CompleteMultipartUpload wf_AbortMultipartUpload)

interpretation bucket_steps: step_system bucketStep bucket_wf
  by unfold_locales (rule bucketStep_wf)

section \<open>What a listing returns\<close>

text \<open>
  The pattern \<open>escape(prefix) || '%'\<close> selects the keys that start with the prefix up to the case
  of ASCII letters.
\<close>

lemma likeMatch_any [simp]: "likeMatch [CHR 0x25] s"
  by (induction s) simp_all

lemma likeMatch_escapeLike:
  "likeMatch (escapeLike p @ [CHR 0x25]) s \<longleftrightarrow>
     length p \<le> length s \<and> map asciiLower (take (length p) s) = map asciiLower p"
proof (induction p arbitrary: s)
  case Nil
  then show ?case by (simp add: escapeLike_def)
next
  case (Cons c p)
  let ?special = "c = CHR 0x25 \<or> c = CHR ''_'' \<or> c = CHR 0x5C"
  have esc: "escapeLike (c # p) = (if ?special then [CHR 0x5C, c] else [c]) @ escapeLike p"
    by (simp add: escapeLike_def)
  show ?case
  proof (cases s)
    case Nil
    then show ?thesis by (simp add: esc)
  next
    case (Cons d ds)
    show ?thesis
    proof (cases ?special)
      case True
      then have "escapeLike (c # p) @ [CHR 0x25] = CHR 0x5C # c # (escapeLike p @ [CHR 0x25])"
        by (simp add: esc)
      then show ?thesis by (auto simp: Cons Cons.IH)
    next
      case False
      then have "escapeLike (c # p) @ [CHR 0x25] = c # (escapeLike p @ [CHR 0x25])"
        by (simp add: esc)
      with False show ?thesis by (auto simp: Cons Cons.IH)
    qed
  qed
qed

text \<open>
  The rows a listing walks, without the page limit, and the two parts of the unlimited result:
  the keys with no delimiter after the prefix, and the common prefixes in order of their first
  occurrence.
\<close>

definition matching :: "bucketDB \<Rightarrow> string \<Rightarrow> string \<Rightarrow> Object list" where
  "matching b pref startAfter = buildListQuery pref startAfter 0 (objects b)"

definition plainKeys :: "string \<Rightarrow> string \<Rightarrow> Object list \<Rightarrow> Object list" where
  "plainKeys pref delimiter rows =
     filter (\<lambda>r. indexOf (drop (length pref) (obj_Key r)) delimiter = None) rows"

definition commonPrefix :: "string \<Rightarrow> string \<Rightarrow> Object \<Rightarrow> string option" where
  "commonPrefix pref delimiter r =
     (let rest = drop (length pref) (obj_Key r) in
      map_option (\<lambda>idx. pref @ take (idx + length delimiter) rest) (indexOf rest delimiter))"

definition dedup :: "'a list \<Rightarrow> 'a list" where
  "dedup xs = rev (remdups (rev xs))"

definition commonPrefixes :: "string \<Rightarrow> string \<Rightarrow> Object list \<Rightarrow> string list" where
  "commonPrefixes pref delimiter rows = dedup (List.map_filter (commonPrefix pref delimiter) rows)"

lemma matching_eq:
  "matching b pref startAfter = sort_key obj_Key (filter (\<lambda>r. obj_UploadComplete r
      \<and> (pref \<noteq> [] \<longrightarrow> likeMatch (escapeLike pref @ [CHR 0x25]) (obj_Key r))
      \<and> (startAfter \<noteq> [] \<longrightarrow> startAfter < obj_Key r)) (objects b))"
  by (simp add: matching_def buildListQuery_def Let_def)

lemma buildListQuery_take:
  "buildListQuery pref startAfter n (objects b)
     = (if n > 0 then take (nat n) (matching b pref startAfter) else matching b pref startAfter)"
  by (simp add: matching_def buildListQuery_def Let_def)

lemma set_matching:
  "r \<in> set (matching b pref startAfter) \<longleftrightarrow> r \<in> set (objects b) \<and> obj_UploadComplete r
     \<and> length pref \<le> length (obj_Key r)
     \<and> map asciiLower (take (length pref) (obj_Key r)) = map asciiLower pref
     \<and> (startAfter \<noteq> [] \<longrightarrow> startAfter < obj_Key r)"
  by (auto simp: matching_eq likeMatch_escapeLike)

lemma distinct_map_sort_key: "distinct (map f (sort_key g xs)) \<longleftrightarrow> distinct (map f xs)"
  by (simp add: distinct_map)

lemma matching_sorted:
  assumes "distinct (map obj_Key (objects b))"
  shows "sorted_wrt (\<lambda>x y. obj_Key x < obj_Key y) (matching b pref startAfter)"
proof -
  have "sorted (map obj_Key (matching b pref startAfter))" by (simp add: matching_eq)
  moreover have "distinct (map obj_Key (matching b pref startAfter))"
    using assms by (simp add: matching_eq distinct_map_sort_key distinct_map_filter)
  ultimately have "sorted_wrt (<) (map obj_Key (matching b pref startAfter))"
    by (simp add: strict_sorted_iff)
  then show ?thesis by (simp add: sorted_wrt_map)
qed

lemma filter_after_take:
  fixes f :: "'a \<Rightarrow> 'b :: linorder"
  assumes "sorted_wrt (\<lambda>x y. f x < f y) l" "0 < n" "l \<noteq> []"
  shows "filter (\<lambda>x. f (last (take n l)) < f x) l = drop n l"
proof -
  let ?a = "take n l" and ?d = "drop n l"
  have s: "sorted_wrt (\<lambda>x y. f x < f y) (?a @ ?d)" using assms(1) by simp
  have ne: "?a \<noteq> []" using assms(2,3) by simp
  then have "?a = butlast ?a @ [last ?a]" by simp
  moreover from s have "sorted_wrt (\<lambda>x y. f x < f y) ?a" by (simp add: sorted_wrt_append)
  ultimately have "sorted_wrt (\<lambda>x y. f x < f y) (butlast ?a @ [last ?a])" by metis
  then have "\<forall>x \<in> set (butlast ?a). f x < f (last ?a)" by (simp add: sorted_wrt_append)
  then have "\<forall>x \<in> set ?a. \<not> f (last ?a) < f x"
    using \<open>?a = butlast ?a @ [last ?a]\<close>
    by (metis Un_iff dual_order.asym insert_iff less_irrefl list.set(2) set_append empty_iff empty_set)
  moreover have "\<forall>x \<in> set ?d. f (last ?a) < f x"
    using s last_in_set [OF ne] unfolding sorted_wrt_append by blast
  ultimately have "filter (\<lambda>x. f (last ?a) < f x) (?a @ ?d) = ?d"
    by (simp add: filter_empty_conv filter_id_conv del: append_take_drop_id)
  then show ?thesis by simp
qed

lemma matching_advance:
  assumes d: "distinct (map obj_Key (objects b))" and ne: "[] \<notin> obj_Key ` set (objects b)"
    and n: "0 < n" and m: "matching b pref c \<noteq> []"
  shows "matching b pref (obj_Key (last (take n (matching b pref c)))) = drop n (matching b pref c)"
    (is "matching b pref ?c' = _")
proof -
  let ?r = "last (take n (matching b pref c))"
  from n m have "?r \<in> set (take n (matching b pref c))" by (intro last_in_set) simp
  then have r: "?r \<in> set (matching b pref c)" by (rule in_set_takeD)
  then have "?r \<in> set (objects b)" by (simp add: set_matching)
  then have c': "?c' \<noteq> []" using ne by (metis image_eqI)
  have lt: "c \<noteq> [] \<longrightarrow> c < ?c'" using r by (simp add: set_matching)
  have "matching b pref ?c' = filter (\<lambda>x. ?c' < obj_Key x) (matching b pref c)"
    using c' lt unfolding matching_eq [of b pref] filter_sort filter_filter
    by (intro arg_cong [where f = "sort_key obj_Key"] filter_cong) auto
  also have "\<dots> = drop n (matching b pref c)"
    using matching_sorted [OF d] n m by (rule filter_after_take)
  finally show ?thesis .
qed

lemma scanBatch_append:
  "scanBatch pref d m (xs @ ys) objs cps =
     (case scanBatch pref d m xs objs cps of
        (stop, objs', cps') \<Rightarrow> if stop then (stop, objs', cps') else scanBatch pref d m ys objs' cps')"
  by (induction xs arbitrary: objs cps) (auto simp: Let_def split: option.splits)

text \<open>The batches together are one scan of all the matching rows, and the fuel is enough.\<close>

lemma listBatches_scan:
  assumes "distinct (map obj_Key (objects b))" "[] \<notin> obj_Key ` set (objects b)" "0 < n"
    and "length (matching b pref c) < fuel"
  shows "listBatches fuel b pref d n m c objs cps
    = Some (snd (scanBatch pref d m (matching b pref c) objs cps))"
  using assms(4)
proof (induction fuel arbitrary: c objs cps)
  case 0
  then show ?case by simp
next
  case (Suc fuel)
  let ?M = "matching b pref c"
  let ?rows = "take (nat n) ?M"
  have rows: "buildListQuery pref c n (objects b) = ?rows"
    using assms(3) by (simp add: buildListQuery_take)
  show ?case
  proof (cases "?M = []")
    case True
    then show ?thesis by (simp add: rows)
  next
    case False
    obtain stop objs' cps' where sc: "scanBatch pref d m ?rows objs cps = (stop, objs', cps')"
      by (cases "scanBatch pref d m ?rows objs cps")
    have whole: "scanBatch pref d m ?M objs cps =
        (if stop then (stop, objs', cps') else scanBatch pref d m (drop (nat n) ?M) objs' cps')"
      using scanBatch_append [of pref d m ?rows "drop (nat n) ?M" objs cps] sc by simp
    have next': "matching b pref (obj_Key (last ?rows)) = drop (nat n) ?M"
      using assms(1,2,3) False by (intro matching_advance) simp_all
    have "length (drop (nat n) ?M) < fuel" using Suc.prems False assms(3)
      by (cases ?M) auto
    then have "listBatches fuel b pref d n m (obj_Key (last ?rows)) objs' cps'
        = Some (snd (scanBatch pref d m (drop (nat n) ?M) objs' cps'))"
      using Suc.IH [of "obj_Key (last ?rows)"] by (simp only: next')
    with whole sc False assms(3) show ?thesis by (simp add: rows)
  qed
qed

lemma dedup_Nil [simp]: "dedup [] = []"
  by (simp add: dedup_def)

lemma dedup_snoc: "dedup (xs @ [x]) = (if x \<in> set xs then dedup xs else dedup xs @ [x])"
  by (simp add: dedup_def)

lemma set_dedup [simp]: "set (dedup xs) = set xs"
  by (simp add: dedup_def)

lemma distinct_dedup [simp]: "distinct (dedup xs)"
  by (simp add: dedup_def)

definition addPrefix :: "string option \<Rightarrow> string list \<Rightarrow> string list" where
  "addPrefix cp cps = (case cp of None \<Rightarrow> cps | Some x \<Rightarrow> if x \<in> set cps then cps else cps @ [x])"

lemma addPrefix_dedup:
  "addPrefix cp (dedup xs) = dedup (xs @ (case cp of None \<Rightarrow> [] | Some x \<Rightarrow> [x]))"
  by (simp add: addPrefix_def dedup_snoc split: option.split)

lemma scanBatch_step:
  "scanBatch pref d m (row # rows) objs cps =
     (let objs' = objs @ map scanObject (plainKeys pref d [row]);
          cps' = addPrefix (commonPrefix pref d row) cps in
      if m > 0 \<and> int (length objs') + int (length cps') \<ge> m then (True, objs', cps')
      else scanBatch pref d m rows objs' cps')"
  by (simp add: Let_def plainKeys_def commonPrefix_def addPrefix_def split: option.split)

lemma plainKeys_Nil [simp]: "plainKeys pref d [] = []"
  by (simp add: plainKeys_def)

lemma plainKeys_Cons: "plainKeys pref d (r # rows) = plainKeys pref d [r] @ plainKeys pref d rows"
  by (simp add: plainKeys_def)

lemma map_filter_Cons:
  "List.map_filter f (x # xs) = (case f x of None \<Rightarrow> [] | Some y \<Rightarrow> [y]) @ List.map_filter f xs"
  by (simp add: List.map_filter_def split: option.split)

text \<open>With no page limit the scan computes the two parts of the result.\<close>

lemma scanBatch_unlimited:
  assumes "m \<le> 0"
  shows "scanBatch pref d m rows objs (dedup cps) = (False, objs @ map scanObject (plainKeys pref d rows),
     dedup (cps @ List.map_filter (commonPrefix pref d) rows))"
proof (induction rows arbitrary: objs cps)
  case Nil
  then show ?case by (simp add: List.map_filter_def)
next
  case (Cons row rows)
  have "\<not> m > 0" using assms by simp
  then show ?case
    by (simp only: scanBatch_step Let_def addPrefix_dedup Cons.IH map_filter_Cons
        plainKeys_Cons [of pref d row rows]) simp
qed

text \<open>With a page limit it does so for the shortest run of rows that fills the page.\<close>

lemma scanBatch_limited:
  assumes "0 < m" "int (length objs) + int (length (dedup cps)) < m"
  shows "\<exists>n \<le> length rows. snd (scanBatch pref d m rows objs (dedup cps))
       = (objs @ map scanObject (plainKeys pref d (take n rows)),
          dedup (cps @ List.map_filter (commonPrefix pref d) (take n rows)))
     \<and> int (length objs + length (plainKeys pref d (take n rows))
           + length (dedup (cps @ List.map_filter (commonPrefix pref d) (take n rows)))) \<le> m
     \<and> (n < length rows \<longrightarrow> int (length objs + length (plainKeys pref d (take n rows))
           + length (dedup (cps @ List.map_filter (commonPrefix pref d) (take n rows)))) = m)"
  using assms(2)
proof (induction rows arbitrary: objs cps)
  case Nil
  then show ?case by (simp add: List.map_filter_def)
next
  case (Cons row rows)
  let ?o = "objs @ map scanObject (plainKeys pref d [row])"
  let ?x = "case commonPrefix pref d row of None \<Rightarrow> [] | Some x \<Rightarrow> [x]"
  have step: "scanBatch pref d m (row # rows) objs (dedup cps) =
      (if int (length ?o) + int (length (dedup (cps @ ?x))) \<ge> m then (True, ?o, dedup (cps @ ?x))
       else scanBatch pref d m rows ?o (dedup (cps @ ?x)))"
    using assms(1) by (simp only: scanBatch_step Let_def addPrefix_dedup simp_thms)
  have grow: "int (length ?o) + int (length (dedup (cps @ ?x)))
      \<le> int (length objs) + int (length (dedup cps)) + 1"
    by (auto simp: plainKeys_def commonPrefix_def dedup_snoc Let_def split: option.split)
  show ?case
  proof (cases "int (length ?o) + int (length (dedup (cps @ ?x))) \<ge> m")
    case True
    with grow Cons.prems have "int (length ?o) + int (length (dedup (cps @ ?x))) = m" by linarith
    moreover have "List.map_filter (commonPrefix pref d) (take (Suc 0) (row # rows)) = ?x"
      by (simp add: List.map_filter_def split: option.split)
    moreover have "snd (scanBatch pref d m (row # rows) objs (dedup cps)) = (?o, dedup (cps @ ?x))"
      using True step by simp
    ultimately show ?thesis by (intro exI [of _ "Suc 0"]) (simp del: scanBatch.simps)
  next
    case False
    then obtain n where n: "n \<le> length rows"
      "snd (scanBatch pref d m rows ?o (dedup (cps @ ?x)))
         = (?o @ map scanObject (plainKeys pref d (take n rows)),
            dedup ((cps @ ?x) @ List.map_filter (commonPrefix pref d) (take n rows)))"
      "int (length ?o + length (plainKeys pref d (take n rows))
           + length (dedup ((cps @ ?x) @ List.map_filter (commonPrefix pref d) (take n rows)))) \<le> m"
      "n < length rows \<longrightarrow> int (length ?o + length (plainKeys pref d (take n rows))
           + length (dedup ((cps @ ?x) @ List.map_filter (commonPrefix pref d) (take n rows)))) = m"
      using Cons.IH [of ?o "cps @ ?x"] by auto
    note pk = plainKeys_Cons [of pref d row "take n rows"]
    moreover have "List.map_filter (commonPrefix pref d) (take (Suc n) (row # rows))
        = ?x @ List.map_filter (commonPrefix pref d) (take n rows)"
      by (simp add: map_filter_Cons split: option.split)
    moreover have "scanBatch pref d m (row # rows) objs (dedup cps)
        = scanBatch pref d m rows ?o (dedup (cps @ ?x))"
      using False step by simp
    ultimately show ?thesis using n
      by (intro exI [of _ "Suc n"]) (simp del: scanBatch.simps add: add.assoc)
  qed
qed

section \<open>The database as an index from keys to objects\<close>

definition storedObject :: "Object \<Rightarrow> Object" where
  "storedObject obj =
     (scanObject (objectRow obj))\<lparr>obj_Chunks := sort_key chk_PartNumber (obj_Chunks obj)\<rparr>"

lemma loadChunks_write:
  assumes "writeObject b obj = Inr b'"
  shows "loadChunks b' k = (if k = obj_Key obj then sort_key chk_PartNumber (obj_Chunks obj)
                            else loadChunks b k)"
proof -
  from writeObject_Inr [OF assms] have cs: "object_chunks b' =
      filter (\<lambda>(k, _). k \<noteq> obj_Key obj) (object_chunks b) @ map (Pair (obj_Key obj)) (obj_Chunks obj)"
    by auto
  have "filter (\<lambda>(j, _). j = k) (filter (\<lambda>(j, _). j \<noteq> obj_Key obj) (object_chunks b))
      = (if k = obj_Key obj then [] else filter (\<lambda>(j, _). j = k) (object_chunks b))"
    by (auto simp: filter_filter case_prod_unfold filter_empty_conv intro!: filter_cong)
  moreover have "filter (\<lambda>(j, _). j = k) (map (Pair (obj_Key obj)) (obj_Chunks obj))
      = (if k = obj_Key obj then map (Pair (obj_Key obj)) (obj_Chunks obj) else [])"
    by (simp add: filter_map o_def)
  ultimately show ?thesis by (simp add: loadChunks_def cs o_def)
qed

lemma GetObject_write:
  assumes "writeObject b obj = Inr b'"
  shows "GetObject b' k = (if k = obj_Key obj then Inr (storedObject obj) else GetObject b k)"
proof -
  from writeObject_Inr [OF assms] have "upsertObject (objectRow obj) (objects b) = Inr (objects b')"
    by auto
  from upsertObject_select [OF this, of k] show ?thesis
    by (simp add: GetObject_def loadChunks_write [OF assms] storedObject_def split: option.split)
qed

lemma writeObject_parts [simp]:
  "writeObject b obj = Inr b' \<Longrightarrow> multipart_uploads b' = multipart_uploads b
     \<and> multipart_parts b' = multipart_parts b"
  by (auto dest: writeObject_Inr)

lemma DeleteObject_Inr:
  "DeleteObject b k = Inr b' \<longleftrightarrow> selectOne (\<lambda>r. obj_Key r = k) (objects b) \<noteq> None
     \<and> b' = b\<lparr>objects := deleteRows (\<lambda>r. obj_Key r = k) (objects b),
             object_chunks := deleteRows (\<lambda>(j, _). j = k) (object_chunks b)\<rparr>"
  by (auto simp: DeleteObject_def Let_def deleteRows_empty_iff)

lemma loadChunks_delete:
  "k' \<noteq> k \<Longrightarrow> loadChunks (b\<lparr>objects := os, object_chunks := deleteRows (\<lambda>(j, _). j = k) (object_chunks b)\<rparr>) k'
     = loadChunks b k'"
  by (auto simp: loadChunks_def deleteRows_def filter_filter case_prod_unfold
      intro!: arg_cong [where f = "\<lambda>l. sort_key chk_PartNumber (map snd l)"] filter_cong)

interpretation objs: store bucket_wf GetObject PutObject DeleteObject obj_Key storedObject
proof unfold_locales
  fix b b' :: bucketDB and v :: Object and k k' :: string
  show "PutObject b v = Inr b' \<Longrightarrow>
      GetObject b' k = (if k = obj_Key v then Inr (storedObject v) else GetObject b k)"
    unfolding PutObject_def by (rule GetObject_write)
  show "bucket_wf b \<Longrightarrow> PutObject b v = Inr b' \<Longrightarrow> bucket_wf b'" by (rule wf_PutObject)
  show "(\<exists>b'. DeleteObject b k = Inr b') = (\<exists>v. GetObject b k = Inr v)"
    by (auto simp: DeleteObject_Inr GetObject_def split: option.splits)
  show "DeleteObject b k = Inr b' \<Longrightarrow> k' \<noteq> k \<Longrightarrow> GetObject b' k' = GetObject b k'"
    by (auto simp: DeleteObject_Inr GetObject_def selectOne_deleteRows_other loadChunks_delete
        split: option.split)
  show "DeleteObject b k = Inr b' \<Longrightarrow> \<exists>e. GetObject b' k = Inl e"
    by (auto simp: DeleteObject_Inr GetObject_def selectOne_deleteRows_same)
  show "bucket_wf b \<Longrightarrow> DeleteObject b k = Inr b' \<Longrightarrow> bucket_wf b'" by (rule wf_DeleteObject)
qed

section \<open>Properties\<close>

definition demoObject :: Object where
  "demoObject = \<lparr>obj_ID = ''i1'', obj_Key = ''Docs/a.txt'', obj_HashPath = ''h'', obj_SizeBytes = 3,
     obj_ETag = ''e'', obj_ContentType = ''text/plain'', obj_LastModified = 1500000000,
     obj_UploadComplete = True,
     obj_Chunks = [\<lparr>chk_PartNumber = 2, chk_Path = ''p2'', chk_Size = 1, chk_MD5Hex = ''m2''\<rparr>,
                   \<lparr>chk_PartNumber = 1, chk_Path = ''p1'', chk_Size = 2, chk_MD5Hex = ''m1''\<rparr>]\<rparr>"

definition demoDB :: bucketDB where
  "demoDB = emptyBucketDB\<lparr>objects := [objectRow demoObject],
     object_chunks := map (Pair ''Docs/a.txt'') (obj_Chunks demoObject),
     multipart_uploads := [\<lparr>mpu_ID = ''u'', mpu_Key = ''Docs/b'', mpu_ContentType = [], mpu_Initiated = 7\<rparr>],
     multipart_parts := [\<lparr>mpp_UploadID = ''u'', mpp_PartNumber = 1, mpp_HashPath = ''p'',
        mpp_SizeBytes = 1, mpp_ETag = ''e''\<rparr>]\<rparr>"

lemma demoDB_wf [simp]: "bucket_wf demoDB"
  by (simp add: demoDB_def demoObject_def bucket_wf_def emptyBucketDB_def chunkKey_def objectRow_def)

text \<open>C3: \<open>PutObject\<close> is a map update: afterwards the key reads back the object that was put (its
  time to the second, its chunks by part number), every other key reads as before, and the
  schema's constraints still hold.\<close>

theorem PutObject_map_update:
  assumes "bucket_wf b" and "PutObject b obj = Inr b'"
  shows "GetObject b' k = (if k = obj_Key obj then Inr (storedObject obj) else GetObject b k)
     \<and> objs.abs b' = (objs.abs b)(obj_Key obj \<mapsto> storedObject obj) \<and> bucket_wf b'"
  using objs.lookup_insert [OF assms] objs.abs_insert [OF assms] objs.invar_insert [OF assms] by simp

lemma demo_put: "\<exists>b'. PutObject emptyBucketDB demoObject = Inr b'"
  by (simp add: PutObject_def writeObject_def emptyBucketDB_def demoObject_def upsertObject_def
      deleteRows_def)

theorem PutObject_map_update_witness:
  "\<exists>b'. PutObject emptyBucketDB demoObject = Inr b'
     \<and> GetObject b' ''Docs/a.txt'' = Inr (storedObject demoObject)"
proof -
  obtain b' where b': "PutObject emptyBucketDB demoObject = Inr b'" using demo_put by blast
  from PutObject_map_update [OF bucket_wf_empty b', of "''Docs/a.txt''"] b' show ?thesis
    by (simp add: demoObject_def)
qed

text \<open>\<open>PutObject\<close> fails exactly when the object's id already belongs to another key or two of
  its chunks carry the same part number; nothing else is refused, replacing a key included.\<close>

theorem PutObject_error_iff:
  "(\<exists>e. PutObject b obj = Inl e) \<longleftrightarrow>
     (\<exists>r \<in> set (objects b). obj_ID r = obj_ID obj \<and> obj_Key r \<noteq> obj_Key obj)
     \<or> \<not> distinct (map chk_PartNumber (obj_Chunks obj))"
proof -
  let ?t = "deleteRows (\<lambda>(k, _). k = obj_Key obj) (object_chunks b)"
  have "\<forall>(k, d) \<in> set ?t. k \<noteq> obj_Key obj" by (auto simp: deleteRows_def)
  then have "(\<exists>t'. insertChunks (obj_Key obj) (obj_Chunks obj) ?t = Inr t')
      \<longleftrightarrow> distinct (map chk_PartNumber (obj_Chunks obj))"
    unfolding insertChunks_iff by fastforce
  then have ins: "(\<exists>e. insertChunks (obj_Key obj) (obj_Chunks obj) ?t = Inl e)
      \<longleftrightarrow> \<not> distinct (map chk_PartNumber (obj_Chunks obj))"
    by (cases "insertChunks (obj_Key obj) (obj_Chunks obj) ?t") auto
  have ups: "(\<exists>e. upsertObject (objectRow obj) (objects b) = Inl e)
      \<longleftrightarrow> (\<exists>r \<in> set (objects b). obj_ID r = obj_ID obj \<and> obj_Key r \<noteq> obj_Key obj)"
    by (simp add: upsertObject_def)
  show ?thesis unfolding ins [symmetric] ups [symmetric] PutObject_def writeObject_def
    by (auto split: sum.splits)
qed

theorem PutObject_error_iff_witness:
  "\<exists>e. PutObject demoDB (demoObject\<lparr>obj_Key := ''other''\<rparr>) = Inl e"
  by (rule PutObject_error_iff [THEN iffD2])
    (simp add: demoDB_def demoObject_def objectRow_def emptyBucketDB_def)

text \<open>C6: a listing without a delimiter returns, in strictly increasing key order and cut off at
  \<open>maxKeys\<close>, exactly the complete objects after \<open>startAfter\<close> whose key starts with the prefix
  when ASCII letters are compared without case (the source asks SQLite's \<open>LIKE\<close>).\<close>

theorem ListObjects_plain:
  assumes "bucket_wf b"
  shows "ListObjects b pref [] startAfter maxKeys
      = Inr (map scanObject (if maxKeys > 0 then take (nat maxKeys) (matching b pref startAfter)
                             else matching b pref startAfter), [])
    \<and> sorted_wrt (\<lambda>x y. obj_Key x < obj_Key y) (matching b pref startAfter)
    \<and> set (matching b pref startAfter) = {r \<in> set (objects b). obj_UploadComplete r
           \<and> length pref \<le> length (obj_Key r)
           \<and> map asciiLower (take (length pref) (obj_Key r)) = map asciiLower pref
           \<and> (startAfter \<noteq> [] \<longrightarrow> startAfter < obj_Key r)}"
  using matching_sorted [OF bucket_wfD(2) [OF assms]]
  by (intro conjI set_eqI) (simp_all add: set_matching ListObjects_def listObjectsSingleQuery_def buildListQuery_take)

theorem ListObjects_plain_witness:
  "\<exists>r \<in> set (matching demoDB ''docs/'' []). obj_Key r = ''Docs/a.txt'' \<and> \<not> hasPrefix (obj_Key r) ''docs/''"
proof -
  note sel = ListObjects_plain [OF demoDB_wf, THEN conjunct2, THEN conjunct2]
  have low: "map asciiLower ''Docs/'' = map asciiLower ''docs/''" by code_simp
  show ?thesis unfolding sel using low
    by (simp add: demoDB_def demoObject_def objectRow_def hasPrefix_def)
qed

text \<open>C7: a listing with a delimiter always returns (its batch loop ends), and its page is the
  exact result for the first \<open>n\<close> matching keys, where \<open>n\<close> is all of them or as many as fill the
  page: the objects with no delimiter after the prefix, and each common prefix once.\<close>

theorem ListObjects_delimited:
  assumes "bucket_wf b" and "[] \<notin> obj_Key ` set (objects b)" and "delimiter \<noteq> []" and "0 \<le> maxKeys"
  shows "\<exists>n \<le> length (matching b pref startAfter).
     let rows = take n (matching b pref startAfter);
         os = map scanObject (plainKeys pref delimiter rows);
         ps = commonPrefixes pref delimiter rows in
       ListObjects b pref delimiter startAfter maxKeys = Inr (os, ps)
     \<and> (maxKeys > 0 \<longrightarrow> int (length os + length ps) \<le> maxKeys)
     \<and> (n < length (matching b pref startAfter) \<longrightarrow> int (length os + length ps) = maxKeys)"
proof -
  let ?M = "matching b pref startAfter"
  let ?n = "if maxKeys \<le> 0 then 10000 else maxKeys"
  have "length ?M \<le> length (objects b)" by (simp add: matching_eq)
  then have "listBatches (batchFuel b maxKeys) b pref delimiter ?n maxKeys startAfter [] []
      = Some (snd (scanBatch pref delimiter maxKeys ?M [] (dedup [])))"
    using bucket_wfD(2) [OF assms(1)] assms(2) by (subst listBatches_scan) (simp_all add: batchFuel_def)
  then have lo: "ListObjects b pref delimiter startAfter maxKeys
      = Inr (snd (scanBatch pref delimiter maxKeys ?M [] (dedup [])))"
    using assms(3,4) by (simp add: ListObjects_def listObjectsBatched_def Let_def)
  show ?thesis
  proof (cases "maxKeys = 0")
    case True
    have "snd (scanBatch pref delimiter maxKeys ?M [] (dedup []))
        = (map scanObject (plainKeys pref delimiter ?M), commonPrefixes pref delimiter ?M)"
      unfolding scanBatch_unlimited [OF eq_refl [OF True]] by (simp add: commonPrefixes_def)
    with True lo show ?thesis by (intro exI [of _ "length ?M"]) (simp add: Let_def)
  next
    case False
    with assms(4) scanBatch_limited [of maxKeys "[]" "[]" ?M pref delimiter]
    obtain n where "n \<le> length ?M"
      "snd (scanBatch pref delimiter maxKeys ?M [] (dedup []))
        = (map scanObject (plainKeys pref delimiter (take n ?M)), commonPrefixes pref delimiter (take n ?M))"
      "int (length (plainKeys pref delimiter (take n ?M)) + length (commonPrefixes pref delimiter (take n ?M))) \<le> maxKeys"
      "n < length ?M \<longrightarrow> int (length (plainKeys pref delimiter (take n ?M)) + length (commonPrefixes pref delimiter (take n ?M))) = maxKeys"
      by (auto simp: commonPrefixes_def)
    then show ?thesis by (intro exI [of _ n]) (simp add: lo Let_def)
  qed
qed

theorem ListObjects_delimited_witness:
  "\<exists>os ps. ListObjects demoDB [] ''/'' [] 5 = Inr (os, ps) \<and> length os + length ps \<le> 5"
proof -
  have "[] \<notin> obj_Key ` set (objects demoDB)"
    by (simp add: demoDB_def demoObject_def objectRow_def)
  from ListObjects_delimited [OF demoDB_wf this, of "''/''" 5 "[]" "[]"] show ?thesis
    by (auto simp: Let_def)
qed

text \<open>C8: completing an upload publishes the object under its key in the same transaction that
  removes the upload and all its parts; other keys, other uploads and their parts are as before.\<close>

theorem CompleteMultipartUpload_publishes:
  assumes "bucket_wf b" and "CompleteMultipartUpload b up obj = Inr b'"
  shows "GetObject b' k = (if k = obj_Key obj then Inr (storedObject obj) else GetObject b k)
    \<and> (\<exists>e. GetMultipartUpload b' up = Inl e)
    \<and> (u \<noteq> up \<longrightarrow> GetMultipartUpload b' u = GetMultipartUpload b u)
    \<and> ListParts b' u = (if u = up then [] else ListParts b u)
    \<and> bucket_wf b'"
proof (intro conjI impI)
  from assms(2) obtain c where c: "writeObject b obj = Inr c" and b': "b' = dropUpload c up"
    by (auto simp: CompleteMultipartUpload_def split: sum.splits)
  note parts = writeObject_parts [OF c]
  have "GetObject b' k = GetObject c k" for k
    by (simp add: b' GetObject_def dropUpload_def loadChunks_def split: option.split)
  then show "GetObject b' k = (if k = obj_Key obj then Inr (storedObject obj) else GetObject b k)"
    by (simp add: GetObject_write [OF c])
  show "\<exists>e. GetMultipartUpload b' up = Inl e"
    by (simp add: b' GetMultipartUpload_def dropUpload_def selectOne_deleteRows_same)
  show "u \<noteq> up \<Longrightarrow> GetMultipartUpload b' u = GetMultipartUpload b u"
    by (simp add: b' GetMultipartUpload_def dropUpload_def selectOne_deleteRows_other parts)
  show "ListParts b' u = (if u = up then [] else ListParts b u)"
    by (auto simp: b' ListParts_def dropUpload_def deleteRows_def parts filter_filter
        filter_empty_conv intro!: arg_cong [where f = "sort_key mpp_PartNumber"] filter_cong)
  show "bucket_wf b'" using assms by (rule wf_CompleteMultipartUpload)
qed

theorem CompleteMultipartUpload_publishes_witness:
  "\<exists>b'. CompleteMultipartUpload demoDB ''u'' (demoObject\<lparr>obj_ID := ''i2'', obj_Key := ''Docs/b''\<rparr>) = Inr b'
     \<and> ListParts b' ''u'' = [] \<and> (\<exists>e. GetMultipartUpload b' ''u'' = Inl e)"
proof -
  let ?o = "demoObject\<lparr>obj_ID := ''i2'', obj_Key := ''Docs/b''\<rparr>"
  have "\<exists>b'. CompleteMultipartUpload demoDB ''u'' ?o = Inr b'"
    by (simp add: CompleteMultipartUpload_def writeObject_def demoDB_def emptyBucketDB_def
        demoObject_def upsertObject_def deleteRows_def objectRow_def)
  then obtain b' where b': "CompleteMultipartUpload demoDB ''u'' ?o = Inr b'" by blast
  from CompleteMultipartUpload_publishes [OF demoDB_wf b', of "[]" "''u''"] b' show ?thesis by auto
qed

end
