(* ===== verification/Runtime.thy ===== *)
theory Runtime
  imports Stats Structure BucketDB
begin

text \<open>
  What the program gets from outside the repository, as parameters: the operating system (local
  files, the SQLite engine's I/O, randomness, the clock, the request context), the hash
  functions of the standard library, and the on-disk form of the three databases.

  The type \<open>'w\<close> is the state of everything outside the process. \<open>env_os label\<close> is a call to
  the operating system or to the SQLite driver that returns nothing the program uses: it may
  fail, and then the source takes its error branch. A temporary file is private to the call that
  makes it, so it is represented by its contents. \<open>Client\<close> is the interface
  \<open>internal/webdav.Client\<close>; an \<open>os.FileInfo\<close> is a name, a directory flag and a size. A stream
  that is read to its end is the bytes it delivers and the error it ends with, if any.
\<close>

type_synonym stream = "bytes \<times> gerr option"

record fileInfo =
  fi_Name :: string
  fi_IsDir :: bool
  fi_Size :: int

record 'w Client =
  cl_Upload :: "string \<Rightarrow> stream \<Rightarrow> int \<Rightarrow> ('w, unit) act"
  cl_Download :: "string \<Rightarrow> ('w, bytes) act"
  cl_Delete :: "string \<Rightarrow> ('w, unit) act"
  cl_MkdirAll :: "string \<Rightarrow> ('w, unit) act"
  cl_Exists :: "string \<Rightarrow> ('w, bool) act"
  cl_Rename :: "string \<Rightarrow> string \<Rightarrow> bool \<Rightarrow> ('w, unit) act"
  cl_DownloadToFile :: "string \<Rightarrow> ('w, bytes) act"
  cl_UploadFromFile :: "string \<Rightarrow> bytes \<Rightarrow> ('w, unit) act"
  cl_ReadDir :: "string \<Rightarrow> ('w, string list) act"
  cl_ReadDirInfo :: "string \<Rightarrow> ('w, fileInfo list) act"
  cl_Ping :: "('w, unit) act"
  cl_Stat :: "string \<Rightarrow> ('w, fileInfo) act"

record 'w env =
  env_os :: "string \<Rightarrow> ('w, unit) act"
  env_now :: "('w, gotime) act"
  env_rand :: "nat \<Rightarrow> ('w, bytes) act"
  env_sleep :: "int \<Rightarrow> ('w, unit) act"
  env_ctxErr :: "'w \<Rightarrow> gerr option"
  env_sha256 :: "bytes \<Rightarrow> bytes"
  env_md5 :: "bytes \<Rightarrow> bytes"
  env_saveStructure :: "structureDB \<Rightarrow> bytes"
  env_openStructure :: "bytes \<Rightarrow> gerr + structureDB"
  env_saveBucket :: "bucketDB \<Rightarrow> bytes"
  env_openBucket :: "bytes \<Rightarrow> gerr + bucketDB"
  env_saveStats :: "usageDB \<Rightarrow> bytes"
  env_openStats :: "bytes \<Rightarrow> gerr + usageDB"

text \<open>
  The documented behaviour of the parameters the theorems use: a digest of SHA-256 has 32 bytes
  and one of MD5 has 16, and \<open>rand.Read\<close> fills its buffer. That a database written to a file
  reads back is assumed where it is used, of the database in question.
\<close>

definition env_ok :: "'w env \<Rightarrow> bool" where
  "env_ok E \<longleftrightarrow> (\<forall>x. length (env_sha256 E x) = 32) \<and> (\<forall>x. length (env_md5 E x) = 16)
     \<and> (\<forall>n w bs w'. env_rand E n w = (Inr bs, w') \<longrightarrow> length bs = n)"

end
