(* ===== verification/WebDAV.thy ===== *)
theory WebDAV
  imports Runtime
begin

text \<open>
  \<open>internal/webdav\<close>: the WebDAV client of the program (\<open>client.go\<close>, over the library
  \<open>gowebdav\<close>, which is a parameter), the retrying client that verifies uploads (\<open>retry.go\<close>),
  the client that can be swapped at run time (\<open>resolver.go\<close>), and the client used while no
  location is configured (\<open>main.go\<close>). A client is a value of the record \<open>Client\<close>, so wrapping
  one is a function from clients to clients.
\<close>

section \<open>client.go\<close>

text \<open>The methods of \<open>gowebdav.Client\<close> the source calls.\<close>

record 'w gowebdav =
  gw_WriteStream :: "string \<Rightarrow> stream \<Rightarrow> ('w, unit) act"
  gw_ReadStream :: "string \<Rightarrow> ('w, bytes) act"
  gw_Remove :: "string \<Rightarrow> ('w, unit) act"
  gw_MkdirAll :: "string \<Rightarrow> ('w, unit) act"
  gw_Stat :: "string \<Rightarrow> ('w, fileInfo) act"
  gw_Rename :: "string \<Rightarrow> string \<Rightarrow> bool \<Rightarrow> ('w, unit) act"
  gw_ReadDir :: "string \<Rightarrow> ('w, fileInfo list) act"

text \<open>
  \<open>isNotFound\<close>: an error with a \<open>StatusCode()\<close> method answers by it; otherwise the text is
  searched. Only an error from outside the source can have that method; a wrapped one is not
  looked into.
\<close>

fun statusCode :: "gerr \<Rightarrow> int option" where
  "statusCode (EExt code t) = code"
| "statusCode e = None"

definition isNotFound :: "gerr \<Rightarrow> bool" where
  "isNotFound e =
     (case statusCode e of
        Some code \<Rightarrow> code = 404
      | None \<Rightarrow> containsStr (errText e) ''404'' \<or> containsStr (errText e) ''Not Found'')"

text \<open>
  \<open>New\<close>: the client with preemptive authentication if the root answers it, the negotiating one
  otherwise.
\<close>

definition NewClient :: "'w gowebdav \<Rightarrow> 'w gowebdav \<Rightarrow> ('w, 'w gowebdav) act" where
  "NewClient preemptive negotiating =
     bnd (attempt (gw_Stat preemptive ''/''))
       (\<lambda>r. ret (case r of Inr _ \<Rightarrow> preemptive | Inl _ \<Rightarrow> negotiating))"

definition clientExists :: "'w gowebdav \<Rightarrow> string \<Rightarrow> ('w, bool) act" where
  "clientExists g p =
     bnd (attempt (gw_Stat g p))
       (\<lambda>r. case r of Inr _ \<Rightarrow> ret True
             | Inl e \<Rightarrow> if isNotFound e then ret False else fail e)"

definition clientReadDir :: "'w gowebdav \<Rightarrow> string \<Rightarrow> ('w, string list) act" where
  "clientReadDir g p = bnd (gw_ReadDir g p) (\<lambda>infos. ret (map fi_Name infos))"

definition clientDownloadToFile :: "(string \<Rightarrow> ('w, unit) act) \<Rightarrow> 'w gowebdav \<Rightarrow> string \<Rightarrow> ('w, bytes) act" where
  "clientDownloadToFile os g p =
     bnd (wrapE (wrapAs (''download '' @ p)) (gw_ReadStream g p)) (\<lambda>data.
     thn (wrapE (wrapAs ''create dest'') (os ''create''))
    (thn (wrapE (wrapAs ''copy to dest'') (os ''copy'')) (ret data)))"

definition clientUploadFromFile :: "(string \<Rightarrow> ('w, unit) act) \<Rightarrow> 'w gowebdav \<Rightarrow> string \<Rightarrow> bytes \<Rightarrow> ('w, unit) act" where
  "clientUploadFromFile os g p data =
     thn (wrapE (wrapAs ''open src'') (os ''open''))
    (thn (wrapE (wrapAs ''stat src'') (os ''fstat'')) (gw_WriteStream g p (data, None)))"

definition ClientImpl :: "(string \<Rightarrow> ('w, unit) act) \<Rightarrow> 'w gowebdav \<Rightarrow> 'w Client" where
  "ClientImpl os g =
     \<lparr>cl_Upload = (\<lambda>p body size. gw_WriteStream g p body),
      cl_Download = gw_ReadStream g,
      cl_Delete = gw_Remove g,
      cl_MkdirAll = gw_MkdirAll g,
      cl_Exists = clientExists g,
      cl_Rename = gw_Rename g,
      cl_DownloadToFile = clientDownloadToFile os g,
      cl_UploadFromFile = clientUploadFromFile os g,
      cl_ReadDir = clientReadDir g,
      cl_ReadDirInfo = gw_ReadDir g,
      cl_Ping = bnd (gw_Stat g ''/'') (\<lambda>_. ret ()),
      cl_Stat = gw_Stat g\<rparr>"

section \<open>retry.go\<close>

definition shouldUploadAtomically :: "string \<Rightarrow> bool" where
  "shouldUploadAtomically remotePath \<longleftrightarrow>
     hasSuffix remotePath ''.db'' \<and> hasSuffix (pathDir remotePath) ''_meta''"

text \<open>
  The attempts of \<open>uploadFromFileVerified\<close>: \<open>n\<close> are left, \<open>i\<close> is the loop variable. The
  delay is a 64-bit duration; shifting one by 64 or more gives zero.
\<close>

definition retryDelay :: "int \<Rightarrow> nat \<Rightarrow> int" where
  "retryDelay base i = i64 (base * i64 (2 ^ (i - 1)))"

fun uploadAttempts ::
  "'w env \<Rightarrow> 'w Client \<Rightarrow> int \<Rightarrow> string \<Rightarrow> bytes \<Rightarrow> nat \<Rightarrow> nat \<Rightarrow> gerr option \<Rightarrow> ('w, unit) act" where
  "uploadAttempts E inner base uploadPath src 0 i lastErr =
     (case lastErr of None \<Rightarrow> ret () | Some e \<Rightarrow> fail e)"
| "uploadAttempts E inner base uploadPath src (Suc n) i lastErr =
     bnd (if i > 0
          then bnd (gets (env_ctxErr E)) (\<lambda>c. case c of
                 Some e \<Rightarrow> fail e
               | None \<Rightarrow> env_sleep E (retryDelay base i))
          else ret ()) (\<lambda>_.
     bnd (attempt (cl_UploadFromFile inner uploadPath src)) (\<lambda>r.
       case r of
         Inl e \<Rightarrow> uploadAttempts E inner base uploadPath src n (Suc i) (Some e)
       | Inr _ \<Rightarrow>
           bnd (attempt (cl_Stat inner uploadPath)) (\<lambda>st.
             case st of
               Inl e \<Rightarrow> uploadAttempts E inner base uploadPath src n (Suc i)
                          (Some (wrapAs ''stat after upload'' e))
             | Inr info \<Rightarrow>
                 if fi_Size info \<noteq> int (length src)
                 then uploadAttempts E inner base uploadPath src n (Suc i)
                        (Some (ENew (''upload size mismatch: expected '' @ fmtD (int (length src))
                          @ '' got '' @ fmtD (fi_Size info))))
                 else ret ())))"

definition uploadFromFileVerified ::
  "'w env \<Rightarrow> 'w Client \<Rightarrow> int \<Rightarrow> int \<Rightarrow> string \<Rightarrow> bytes \<Rightarrow> ('w, unit) act" where
  "uploadFromFileVerified E inner retries base uploadPath src =
     thn (wrapE (wrapAs ''stat local file'') (env_os E ''stat''))
       (uploadAttempts E inner base uploadPath src (nat retries) 0 None)"

definition uploadFromFileAtomic ::
  "'w env \<Rightarrow> 'w Client \<Rightarrow> int \<Rightarrow> int \<Rightarrow> string \<Rightarrow> bytes \<Rightarrow> ('w, unit) act" where
  "uploadFromFileAtomic E inner retries base finalPath src =
     bnd (env_now E) (\<lambda>now.
       let tmpPath = finalPath @ ''.tmp-'' @ fmtD (i64 now) in
       thn (orElse (uploadFromFileVerified E inner retries base tmpPath src)
              (\<lambda>e. thn (attempt (cl_Delete inner tmpPath)) (fail e)))
           (orElse (cl_Rename inner tmpPath finalPath True)
              (\<lambda>e. thn (attempt (cl_Delete inner tmpPath)) (fail (wrapAs ''rename uploaded metadata db'' e)))))"

definition retryUploadFromFile ::
  "'w env \<Rightarrow> 'w Client \<Rightarrow> int \<Rightarrow> int \<Rightarrow> string \<Rightarrow> bytes \<Rightarrow> ('w, unit) act" where
  "retryUploadFromFile E inner retries base p src =
     (if shouldUploadAtomically p then uploadFromFileAtomic E inner retries base p src
      else uploadFromFileVerified E inner retries base p src)"

definition RetryClient :: "'w env \<Rightarrow> 'w Client \<Rightarrow> int \<Rightarrow> int \<Rightarrow> 'w Client" where
  "RetryClient E inner retries base =
     inner\<lparr>cl_UploadFromFile := retryUploadFromFile E inner retries base\<rparr>"

section \<open>resolver.go\<close>

text \<open>
  \<open>RefreshableClient\<close>: every method takes the current client under the read lock and calls it.
  \<open>viaCurrent\<close> is the shape the twelve methods share; the state is the client of the moment.
\<close>

type_synonym 'w RefreshableClient = "'w Client option"

definition NewRefreshable :: "'w Client option \<Rightarrow> 'w RefreshableClient" where
  "NewRefreshable initial = initial"

definition SetClient :: "'w RefreshableClient \<Rightarrow> 'w Client option \<Rightarrow> 'w RefreshableClient" where
  "SetClient r c = c"

definition currentClient :: "'w RefreshableClient \<Rightarrow> gerr + 'w Client" where
  "currentClient r =
     (case r of None \<Rightarrow> Inl (ENew ''no webdav client configured'') | Some c \<Rightarrow> Inr c)"

definition viaCurrent :: "'w RefreshableClient \<Rightarrow> ('w Client \<Rightarrow> ('w, 'a) act) \<Rightarrow> ('w, 'a) act" where
  "viaCurrent r m = (case currentClient r of Inl e \<Rightarrow> fail e | Inr c \<Rightarrow> m c)"

definition refreshable :: "'w RefreshableClient \<Rightarrow> 'w Client" where
  "refreshable r =
     \<lparr>cl_Upload = (\<lambda>p body size. viaCurrent r (\<lambda>c. cl_Upload c p body size)),
      cl_Download = (\<lambda>p. viaCurrent r (\<lambda>c. cl_Download c p)),
      cl_Delete = (\<lambda>p. viaCurrent r (\<lambda>c. cl_Delete c p)),
      cl_MkdirAll = (\<lambda>p. viaCurrent r (\<lambda>c. cl_MkdirAll c p)),
      cl_Exists = (\<lambda>p. viaCurrent r (\<lambda>c. cl_Exists c p)),
      cl_Rename = (\<lambda>p q overwrite. viaCurrent r (\<lambda>c. cl_Rename c p q overwrite)),
      cl_DownloadToFile = (\<lambda>p. viaCurrent r (\<lambda>c. cl_DownloadToFile c p)),
      cl_UploadFromFile = (\<lambda>p data. viaCurrent r (\<lambda>c. cl_UploadFromFile c p data)),
      cl_ReadDir = (\<lambda>p. viaCurrent r (\<lambda>c. cl_ReadDir c p)),
      cl_ReadDirInfo = (\<lambda>p. viaCurrent r (\<lambda>c. cl_ReadDirInfo c p)),
      cl_Ping = viaCurrent r cl_Ping,
      cl_Stat = (\<lambda>p. viaCurrent r (\<lambda>c. cl_Stat c p))\<rparr>"

section \<open>noopWebDAV of main.go\<close>

definition noopWebDAV :: "'w Client" where
  "noopWebDAV =
     (let none = ENew ''no webdav location configured'' in
      \<lparr>cl_Upload = (\<lambda>p body size. ret ()), cl_Download = (\<lambda>p. fail none),
       cl_Delete = (\<lambda>p. ret ()), cl_MkdirAll = (\<lambda>p. ret ()), cl_Exists = (\<lambda>p. ret False),
       cl_Rename = (\<lambda>p q overwrite. ret ()), cl_DownloadToFile = (\<lambda>p. fail none),
       cl_UploadFromFile = (\<lambda>p data. ret ()), cl_ReadDir = (\<lambda>p. fail none),
       cl_ReadDirInfo = (\<lambda>p. fail none), cl_Ping = fail none, cl_Stat = (\<lambda>p. fail none)\<rparr>)"

lemma refreshable_Some [simp]: "refreshable (Some c) = c"
  by (simp add: refreshable_def viaCurrent_def currentClient_def)

section \<open>A server to try things on\<close>

text \<open>
  A WebDAV server that never fails, a list of paths with their contents, and an operating system
  that never fails: concrete values for the parameters, used in the examples that accompany the
  properties.
\<close>

type_synonym demoWorld = "(string \<times> bytes) list"

definition demoNotFound :: gerr where
  "demoNotFound = EExt (Some 404) ''404 Not Found''"

definition demoPut :: "string \<Rightarrow> bytes \<Rightarrow> (demoWorld, unit) act" where
  "demoPut p data = modify (\<lambda>w. (p, data) # filter (\<lambda>(q, _). q \<noteq> p) w)"

definition demoGet :: "string \<Rightarrow> (demoWorld, bytes) act" where
  "demoGet p = (\<lambda>w. case map_of w p of None \<Rightarrow> (Inl demoNotFound, w) | Some d \<Rightarrow> (Inr d, w))"

definition demoChildren :: "string \<Rightarrow> demoWorld \<Rightarrow> string list" where
  "demoChildren p w =
     (let pre = trimSuffix p ''/'' @ ''/'' in
      remdups (filter (\<lambda>n. n \<noteq> []) (map (\<lambda>(q, _). takeWhile (\<lambda>c. c \<noteq> CHR ''/'') (drop (length pre) q))
        (filter (\<lambda>(q, _). hasPrefix q pre) w))))"

definition demoClient :: "demoWorld Client" where
  "demoClient =
     \<lparr>cl_Upload = (\<lambda>p body size. case snd body of None \<Rightarrow> demoPut p (fst body) | Some e \<Rightarrow> fail e), cl_Download = demoGet,
      cl_Delete = (\<lambda>p. modify (filter (\<lambda>(q, _). q \<noteq> p \<and> \<not> hasPrefix q (p @ ''/'')))),
      cl_MkdirAll = (\<lambda>p. ret ()), cl_Exists = (\<lambda>p. gets (\<lambda>w. map_of w p \<noteq> None)),
      cl_Rename = (\<lambda>p q overwrite. bnd (demoGet p) (\<lambda>d.
         thn (modify (filter (\<lambda>(r, _). r \<noteq> p))) (demoPut q d))),
      cl_DownloadToFile = demoGet, cl_UploadFromFile = demoPut,
      cl_ReadDir = (\<lambda>p. gets (demoChildren p)),
      cl_ReadDirInfo = (\<lambda>p. gets (\<lambda>w. map (\<lambda>n. \<lparr>fi_Name = n, fi_IsDir = False, fi_Size = 0\<rparr>) (demoChildren p w))),
      cl_Ping = ret (),
      cl_Stat = (\<lambda>p. bnd (demoGet p) (\<lambda>d. ret \<lparr>fi_Name = p, fi_IsDir = False, fi_Size = int (length d)\<rparr>))\<rparr>"

definition demoEnv :: "demoWorld env" where
  "demoEnv =
     \<lparr>env_os = (\<lambda>_. ret ()), env_now = ret 5000000000, env_rand = (\<lambda>n. ret (replicate n (CHR ''r''))),
      env_sleep = (\<lambda>_. ret ()), env_ctxErr = (\<lambda>_. None),
      env_sha256 = (\<lambda>x. take 32 (x @ replicate 32 (CHR ''s''))),
      env_md5 = (\<lambda>x. take 16 (x @ replicate 16 (CHR ''m''))),
      env_saveStructure = (\<lambda>_. ''S''), env_openStructure = (\<lambda>_. Inl (ENew ''no database'')),
      env_saveBucket = (\<lambda>_. ''B''), env_openBucket = (\<lambda>_. Inr emptyBucketDB),
      env_saveStats = (\<lambda>_. ''U''), env_openStats = (\<lambda>_. Inr emptyUsageDB)\<rparr>"

lemma demoEnv_ok [simp]: "env_ok demoEnv"
  by (auto simp: env_ok_def demoEnv_def ret_def)

section \<open>Properties\<close>

lemma kept_gets_case: "kept I (bnd (gets f) g) \<longleftrightarrow> (\<forall>s. I s \<longrightarrow> I (snd (g (f s) s)))"
  by (simp add: kept_def bnd_def gets_def)

lemma kept_uploadAttempts:
  assumes "\<And>d. kept I (env_sleep E d)" "kept I (cl_UploadFromFile inner p src)" "kept I (cl_Stat inner p)"
  shows "kept I (uploadAttempts E inner base p src n i le)"
proof (induction n arbitrary: i le)
  case 0
  then show ?case by (auto intro: keeps)
next
  case (Suc n)
  show ?case by (auto intro!: keeps assms Suc.IH)
qed

lemma kept_uploadFromFileVerified:
  assumes "\<And>d. kept I (env_sleep E d)" "\<And>l. kept I (env_os E l)"
    and "kept I (cl_UploadFromFile inner p src)" "kept I (cl_Stat inner p)"
  shows "kept I (uploadFromFileVerified E inner retries base p src)"
  unfolding uploadFromFileVerified_def by (intro keeps kept_uploadAttempts assms)

lemma uploadAttempts_Inr:
  assumes "uploadAttempts E inner base p src n i le w = (Inr (), w')" and "n > 0 \<or> le \<noteq> None"
  shows "\<exists>w1 info. cl_Stat inner p w1 = (Inr info, w') \<and> fi_Size info = int (length src)"
  using assms
proof (induction n arbitrary: i le w)
  case 0
  then show ?case by (auto simp: fail_def)
next
  case (Suc n)
  from Suc.prems(1) show ?case unfolding uploadAttempts.simps
  proof (elim bnd_InrE)
    fix u w2 r w3
    assume rest: "(case r of
         Inl e \<Rightarrow> uploadAttempts E inner base p src n (Suc i) (Some e)
       | Inr _ \<Rightarrow> bnd (attempt (cl_Stat inner p)) (\<lambda>st. case st of
               Inl e \<Rightarrow> uploadAttempts E inner base p src n (Suc i) (Some (wrapAs ''stat after upload'' e))
             | Inr info \<Rightarrow>
                 if fi_Size info \<noteq> int (length src)
                 then uploadAttempts E inner base p src n (Suc i)
                        (Some (ENew (''upload size mismatch: expected '' @ fmtD (int (length src))
                          @ '' got '' @ fmtD (fi_Size info))))
                 else ret ())) w3 = (Inr (), w')"
    show ?thesis
    proof (cases r)
      case (Inl e)
      with rest Suc.IH [of "Suc i" "Some e" w3] show ?thesis by simp
    next
      case (Inr v)
      from rest show ?thesis unfolding Inr sum.case
      proof (elim bnd_InrE)
        fix st w4
        assume "attempt (cl_Stat inner p) w3 = (Inr st, w4)"
        then have "cl_Stat inner p w3 = (st, w4)" by (rule attempt_InrD)
        moreover assume "(case st of
               Inl e \<Rightarrow> uploadAttempts E inner base p src n (Suc i) (Some (wrapAs ''stat after upload'' e))
             | Inr info \<Rightarrow>
                 if fi_Size info \<noteq> int (length src)
                 then uploadAttempts E inner base p src n (Suc i)
                        (Some (ENew (''upload size mismatch: expected '' @ fmtD (int (length src))
                          @ '' got '' @ fmtD (fi_Size info))))
                 else ret ()) w4 = (Inr (), w')"
        ultimately show ?thesis using Suc.IH
          by (cases st) (auto simp: ret_def split: if_splits)
      qed
    qed
  qed
qed

lemma uploadFromFileVerified_Inr:
  assumes "uploadFromFileVerified E inner retries base p src w = (Inr (), w')" "retries > 0"
  shows "\<exists>w1 info. cl_Stat inner p w1 = (Inr info, w') \<and> fi_Size info = int (length src)"
  using assms unfolding uploadFromFileVerified_def
  by (auto elim!: thn_InrE dest!: uploadAttempts_Inr)

lemma uploadFromFileAtomic_Inr:
  assumes "uploadFromFileAtomic E inner retries base p src w = (Inr (), w')"
  shows "\<exists>tmp w1 w2. tmp \<noteq> p \<and> uploadFromFileVerified E inner retries base tmp src w1 = (Inr (), w2)
     \<and> cl_Rename inner tmp p True w2 = (Inr (), w')"
  using assms unfolding uploadFromFileAtomic_def Let_def
  by (elim act_elims) (auto simp: fail_def)

text \<open>C4: an upload that reports success was verified: the last thing the client did on the server
  is a stat that returned the size of the local file; a metadata database is in addition moved
  into place only after its temporary upload was verified that way.\<close>

theorem RetryClient_verified:
  assumes "retries > 0"
    and "cl_UploadFromFile (RetryClient E inner retries base) p src w = (Inr (), w')"
  shows "\<exists>q w1 w2 info. cl_Stat inner q w1 = (Inr info, w2) \<and> fi_Size info = int (length src)
     \<and> (if shouldUploadAtomically p then q \<noteq> p \<and> cl_Rename inner q p True w2 = (Inr (), w')
         else q = p \<and> w2 = w')"
proof (cases "shouldUploadAtomically p")
  case True
  with assms(2) have "uploadFromFileAtomic E inner retries base p src w = (Inr (), w')"
    by (simp add: RetryClient_def retryUploadFromFile_def)
  from uploadFromFileAtomic_Inr [OF this] uploadFromFileVerified_Inr [OF _ assms(1)] True
  show ?thesis by metis
next
  case False
  with assms(2) have "uploadFromFileVerified E inner retries base p src w = (Inr (), w')"
    by (simp add: RetryClient_def retryUploadFromFile_def)
  from uploadFromFileVerified_Inr [OF this assms(1)] False show ?thesis by metis
qed

lemmas demo_defs = demoClient_def demoEnv_def demoPut_def demoGet_def act_defs

theorem RetryClient_verified_witness:
  "\<exists>w'. cl_UploadFromFile (RetryClient demoEnv demoClient 3 1) ''/a'' ''xyz'' [] = (Inr (), w')
     \<and> (\<exists>w1 info. cl_Stat demoClient ''/a'' w1 = (Inr info, w') \<and> fi_Size info = 3)"
proof -
  have na: "\<not> shouldUploadAtomically ''/a''" by code_simp
  have "\<exists>w'. cl_UploadFromFile (RetryClient demoEnv demoClient 3 1) ''/a'' ''xyz'' [] = (Inr (), w')"
    using na by (simp add: RetryClient_def retryUploadFromFile_def uploadFromFileVerified_def
        demo_defs eval_nat_numeral)
  then obtain w' where w': "cl_UploadFromFile (RetryClient demoEnv demoClient 3 1) ''/a'' ''xyz'' [] = (Inr (), w')"
    by blast
  from RetryClient_verified [OF _ w'] na w' show ?thesis by auto
qed

lemma attempt_fail: "\<exists>e'. fst (thn (attempt m) (fail e) s) = Inl e'"
  by (cases "attempt m s"; cases "fst (attempt m s)") (auto simp: thn_def bnd_def fail_def)

lemma thn_run: "m s = (Inl e, t) \<Longrightarrow> thn m n s = (Inl e, t)" "m s = (Inr a, t) \<Longrightarrow> thn m n s = n t"
  by (simp_all add: thn_def bnd_def)

lemma orElse_run: "m s = (Inr a, t) \<Longrightarrow> orElse m h s = (Inr a, t)"
  "m s = (Inl e, t) \<Longrightarrow> orElse m h s = (if aborts e then (Inl e, t) else h e t)"
  by (simp_all add: orElse_def)

lemma snd_attempt_fail: "snd (thn (attempt m) (fail e) s) = snd (m s)"
  by (cases "m s") (auto simp: thn_def bnd_def fail_def attempt_def split: sum.split)

text \<open>C5: a metadata database is replaced by one rename or not at all. Whatever fails: either the upload
  fails and the world outside the temporary name is as it was (any property \<open>I\<close> of it that uploading,
  examining and deleting the temporary name cannot destroy still holds), or a complete copy, whose size
  the server confirmed, stood under the temporary name and the path was then renamed over, once; what the
  server made of that rename is all that happened, and its outcome is the outcome of the upload.\<close>

theorem RetryClient_atomic:
  fixes w w' :: 'w
  assumes "shouldUploadAtomically p" and "retries > 0"
    and "\<And>n d. kept I (cl_UploadFromFile inner (p @ ''.tmp-'' @ n) d)"
    and "\<And>n. kept I (cl_Stat inner (p @ ''.tmp-'' @ n))"
    and "\<And>n. kept I (cl_Delete inner (p @ ''.tmp-'' @ n))"
    and "kept I (env_now E)" and "\<And>l. kept I (env_os E l)" and "\<And>d. kept I (env_sleep E d)"
    and "I w" and "cl_UploadFromFile (RetryClient E inner retries base) p src w = (r, w')"
  shows "(\<exists>e. r = Inl e) \<and> I w'
    \<or> (\<exists>n w1 w2 info x w3. cl_Stat inner (p @ ''.tmp-'' @ n) w1 = (Inr info, w2) \<and> fi_Size info = int (length src) \<and> I w2
         \<and> cl_Rename inner (p @ ''.tmp-'' @ n) p True w2 = (x, w3)
         \<and> (case x of Inr _ \<Rightarrow> r = Inr () \<and> w' = w3
            | Inl e \<Rightarrow> (\<exists>e'. r = Inl e') \<and> (w' = w3 \<or> w' = snd (cl_Delete inner (p @ ''.tmp-'' @ n) w3))))"
proof -
  have run: "uploadFromFileAtomic E inner retries base p src w = (r, w')"
    using assms(1,10) by (simp add: RetryClient_def retryUploadFromFile_def)
  obtain y u1 where now: "env_now E w = (y, u1)" by fastforce
  have u1: "I u1" by (rule keptD' [OF assms(6,9) now])
  show ?thesis
  proof (cases y)
    case (Inl e)
    with run now have "r = Inl e" "w' = u1" by (simp_all add: uploadFromFileAtomic_def bnd_def)
    with u1 show ?thesis by blast
  next
    case (Inr t)
    let ?n = "fmtD (i64 t)"
    let ?tmp = "p @ ''.tmp-'' @ ?n"
    let ?drop = "\<lambda>e. thn (attempt (cl_Delete inner ?tmp)) (fail e) :: ('w, unit) act"
    obtain v u2 where up: "uploadFromFileVerified E inner retries base ?tmp src u1 = (v, u2)" by fastforce
    let ?up = "uploadFromFileVerified E inner retries base ?tmp src"
    have k: "kept I (uploadFromFileVerified E inner retries base ?tmp src)"
      by (rule kept_uploadFromFileVerified) (rule assms)+
    have u2: "I u2" by (rule keptD' [OF k u1 up])
    have rest: "thn (orElse (uploadFromFileVerified E inner retries base ?tmp src) ?drop)
        (orElse (cl_Rename inner ?tmp p True) (\<lambda>e. ?drop (wrapAs ''rename uploaded metadata db'' e))) u1 = (r, w')"
      using run now Inr by (simp add: uploadFromFileAtomic_def bnd_def Let_def)
    show ?thesis
    proof (cases v)
      case (Inl e)
      obtain e' z where d: "?drop e u2 = (Inl e', z)" using attempt_fail by (metis prod.collapse)
      have "I (snd (?drop e u2))" unfolding snd_attempt_fail using keptD [OF assms(5) u2] .
      with d have z: "I z" by simp
      have "orElse (uploadFromFileVerified E inner retries base ?tmp src) ?drop u1 = (if aborts e then (Inl e, u2) else (Inl e', z))"
        using orElse_run(2) [of ?up u1, OF up [unfolded Inl], of ?drop] unfolding d .
      then have "thn (orElse ?up ?drop) (orElse (cl_Rename inner ?tmp p True) (\<lambda>e. ?drop (wrapAs ''rename uploaded metadata db'' e))) u1
          = (if aborts e then (Inl e, u2) else (Inl e', z))"
        by (cases "aborts e") (simp_all add: thn_run(1) [of "orElse ?up ?drop" u1])
      with rest have "\<exists>e. r = Inl e" and "I w'" using u2 z by (auto split: if_splits)
      then show ?thesis by blast
    next
      case ok: (Inr v')
      then obtain w1 info where st: "cl_Stat inner ?tmp w1 = (Inr info, u2)" "fi_Size info = int (length src)"
        using uploadFromFileVerified_Inr [OF _ assms(2)] up by (metis old.unit.exhaust)
      obtain x u3 where mv: "cl_Rename inner ?tmp p True u2 = (x, u3)" by fastforce
      have "orElse (cl_Rename inner ?tmp p True) (\<lambda>e. ?drop (wrapAs ''rename uploaded metadata db'' e)) u2 = (r, w')"
        using rest unfolding thn_run(2) [of "orElse ?up ?drop" u1, OF orElse_run(1) [of ?up u1, OF up [unfolded ok]]] .
      note last = this
      have "case x of Inr _ \<Rightarrow> r = Inr () \<and> w' = u3
          | Inl e \<Rightarrow> (\<exists>e'. r = Inl e') \<and> (w' = u3 \<or> w' = snd (cl_Delete inner ?tmp u3))"
      proof (cases x)
        case (Inl e)
        let ?e = "wrapAs ''rename uploaded metadata db'' e"
        obtain e' z where d: "?drop ?e u3 = (Inl e', z)" using attempt_fail by (metis prod.collapse)
        have "z = snd (cl_Delete inner ?tmp u3)" using snd_attempt_fail [of "cl_Delete inner ?tmp" ?e u3, where ?'b = unit] d by simp
        moreover have "(r, w') = (if aborts e then (Inl e, u3) else (Inl e', z))"
          using last orElse_run(2) [of "cl_Rename inner ?tmp p True" u2, OF mv [unfolded Inl]] d by (cases "aborts e") simp_all
        ultimately show ?thesis using Inl by (auto split: if_splits)
      next
        case (Inr y)
        with last orElse_run(1) [of "cl_Rename inner ?tmp p True" u2, OF mv [unfolded Inr]] show ?thesis by auto
      qed
      with st mv u2 show ?thesis by blast
    qed
  qed
qed

text \<open>
  A server that clears the destination of a rename, as \<open>Overwrite: T\<close> asks it to, and then fails to move the
  file into its place: the remote database is gone, and that is all the property leaves open.
\<close>

definition demoHalfRename :: "demoWorld Client" where
  "demoHalfRename = demoClient\<lparr>cl_Rename := (\<lambda>p q overwrite. thn (modify (filter (\<lambda>(r, _). r \<noteq> q)))
     (fail (EExt (Some 507) ''507 Insufficient Storage'')))\<rparr>"

theorem RetryClient_atomic_witness:
  "\<exists>r w' n w2 (info :: fileInfo) x w3. cl_UploadFromFile (RetryClient demoEnv demoHalfRename 1 1) ''/_meta/b.db'' ''new'' [(''/_meta/b.db'', ''old'')] = (r, w')
     \<and> map_of w' ''/_meta/b.db'' = None \<and> map_of w2 ''/_meta/b.db'' = Some ''old''
     \<and> fi_Size info = 3 \<and> cl_Rename demoHalfRename (''/_meta/b.db'' @ ''.tmp-'' @ n) ''/_meta/b.db'' True w2 = (x, w3)"
proof -
  let ?p = "''/_meta/b.db''" and ?w = "[(''/_meta/b.db'', ''old'')]"
  let ?I = "\<lambda>w. map_of w ?p = Some ''old''"
  have at: "shouldUploadAtomically ?p" by code_simp
  have flt: "map_of (filter (\<lambda>(r, _). r \<noteq> q \<and> R r) w) ?p = map_of w ?p"
    if "q \<noteq> ?p" "R ?p" for q R and w :: demoWorld
    using that by (induction w) auto
  have flt1: "map_of (filter (\<lambda>(r, _). r \<noteq> q) w) ?p = map_of w ?p" if "q \<noteq> ?p" for q and w :: demoWorld
    using flt [OF that, of "\<lambda>_. True"] by simp
  have 1: "kept ?I (cl_UploadFromFile demoHalfRename (?p @ ''.tmp-'' @ n) d)" for n d
    using flt1 [of "?p @ ''.tmp-'' @ n"] by (simp add: demoHalfRename_def demo_defs kept_def)
  have 2: "kept ?I (cl_Stat demoHalfRename (?p @ ''.tmp-'' @ n))" for n
    by (simp add: demoHalfRename_def demo_defs kept_def split: option.split)
  have "\<not> hasPrefix ?p (?p @ ''.tmp-'' @ n @ ''/'')" for n by (simp add: hasPrefix_def)
  then have 3: "kept ?I (cl_Delete demoHalfRename (?p @ ''.tmp-'' @ n))" for n
    using flt [of "?p @ ''.tmp-'' @ n" "\<lambda>r. \<not> hasPrefix r (?p @ ''.tmp-'' @ n @ ''/'')"]
    by (simp add: demoHalfRename_def demo_defs kept_def)
  have 5: "kept ?I (env_now demoEnv)" "kept ?I (env_os demoEnv l)" "kept ?I (env_sleep demoEnv d)" for l d
    by (simp_all add: demoEnv_def kept_def ret_def)
  obtain r w' where r: "cl_UploadFromFile (RetryClient demoEnv demoHalfRename 1 1) ?p ''new'' ?w = (r, w')" by fastforce
  with at have gone: "map_of w' ?p = None"
    by (auto simp: RetryClient_def retryUploadFromFile_def uploadFromFileAtomic_def
        uploadFromFileVerified_def demoHalfRename_def demo_defs eval_nat_numeral Let_def)
  have size: "int (length ''new'') = 3" by simp
  have "?I ?w" by simp
  from RetryClient_atomic [where I = ?I, OF at zero_less_one 1 2 3 5 this r, unfolded size] show ?thesis
  proof (elim disjE exE conjE)
    assume "?I w'"
    with gone show ?thesis by simp
  next
    fix n w2 x w3 and info :: fileInfo
    assume "fi_Size info = 3" "?I w2" "cl_Rename demoHalfRename (?p @ ''.tmp-'' @ n) ?p True w2 = (x, w3)"
    with r gone show ?thesis by (intro exI conjI)
  qed
qed

text \<open>A retrying client that is configured with no attempts reports success without having
  contacted the server.\<close>

theorem RetryClient_no_attempts:
  assumes "retries \<le> 0" and "\<not> shouldUploadAtomically p" and "env_os E ''stat'' w = (Inr (), w')"
  shows "cl_UploadFromFile (RetryClient E inner retries base) p src w = (Inr (), w')"
  using assms by (simp add: RetryClient_def retryUploadFromFile_def uploadFromFileVerified_def ret_def)

theorem RetryClient_no_attempts_witness:
  "cl_UploadFromFile (RetryClient demoEnv demoClient 0 1) ''/a'' ''xyz'' [] = (Inr (), [])"
proof -
  have "\<not> shouldUploadAtomically ''/a''" by code_simp
  then show ?thesis by (rule RetryClient_no_attempts [rotated]) (simp_all add: demoEnv_def ret_def)
qed

end
