(* ===== verification/LRU.thy ===== *)
theory LRU
  imports Prelude "HOL-Library.Multiset"
begin

text \<open>
  \<open>internal/meta/lru.go\<close>: the cache of open bucket databases. First the cache as one goroutine
  sees it, a list of bucket ids with the most recently used in front; then the cache as several
  goroutines see it, a step relation with one step for each stretch of code that runs under the
  mutex. An entry (\<open>lruEntry\<close>) is a number; its read-write lock is a reader count, and
  \<open>rw.Lock()\<close> is a step that is enabled when the count is zero. Which caller holds a read lock is left
  open here, so every release that could happen is a step; \<open>LRUCallers\<close> adds the callers.
\<close>

section \<open>One goroutine\<close>

text \<open>
  \<open>Get\<close> when no other call interferes: the id that is closed to make room, and the new order.
\<close>

definition lruGet :: "int \<Rightarrow> string list \<Rightarrow> string \<Rightarrow> string option \<times> string list" where
  "lruGet cap order ident =
     (if ident \<in> set order then (None, ident # remove1 ident order)
      else if int (length order) \<ge> cap \<and> order \<noteq> []
      then (Some (last order), ident # butlast order)
      else (None, ident # order))"

definition lruRemove :: "string list \<Rightarrow> string \<Rightarrow> string list" where
  "lruRemove order ident = remove1 ident order"

definition lru_ok :: "int \<Rightarrow> string list \<Rightarrow> bool" where
  "lru_ok cap order \<longleftrightarrow> distinct order \<and> int (length order) \<le> max 1 cap"

lemma lru_ok_Nil [simp]: "lru_ok cap []"
  by (simp add: lru_ok_def)

lemma lru_ok_remove: "lru_ok cap order \<Longrightarrow> lru_ok cap (lruRemove order ident)"
  by (auto simp: lru_ok_def lruRemove_def length_remove1)

lemma lru_ok_get: "lru_ok cap order \<Longrightarrow> lruGet cap order ident = (v, order') \<Longrightarrow> lru_ok cap order'"
proof -
  assume ok: "lru_ok cap order" and g: "lruGet cap order ident = (v, order')"
  consider (hit) "ident \<in> set order" | (full) "ident \<notin> set order" "int (length order) \<ge> cap" "order \<noteq> []"
    | (room) "ident \<notin> set order" "int (length order) < cap \<or> order = []" by fastforce
  then show ?thesis
  proof cases
    case hit
    with g have "order' = ident # remove1 ident order" by (simp add: lruGet_def)
    moreover have "length (ident # remove1 ident order) = length order"
      using hit length_pos_if_in_set [OF hit] by (simp add: length_remove1)
    ultimately show ?thesis using hit ok by (auto simp: lru_ok_def)
  next
    case full
    with g have o': "order' = ident # butlast order" by (simp add: lruGet_def)
    have "distinct (butlast order)" using ok by (simp add: lru_ok_def distinct_butlast)
    with full ok show ?thesis
      by (cases order) (auto simp: lru_ok_def o' dest: in_set_butlastD)
  next
    case room
    with g have "order' = ident # order" by (auto simp: lruGet_def)
    with room ok show ?thesis by (auto simp: lru_ok_def)
  qed
qed

section \<open>Several goroutines\<close>

text \<open>
  What a goroutine inside a call still has to do after it gave up the mutex: \<open>WaitEvict v e\<close>
  waits for the readers of the victim \<open>v\<close> and then inserts the new entry \<open>e\<close>; \<open>WaitInsert e\<close>
  has closed the victim; \<open>WaitClose e\<close> is the tail of \<open>Remove\<close> and \<open>CloseAll\<close>.
\<close>

datatype pending = WaitEvict nat nat | WaitInsert nat | WaitClose nat

record lruState =
  lru_items :: "string \<rightharpoonup> nat"
  lru_order :: "nat list"
  lru_id :: "nat \<Rightarrow> string"
  lru_closed :: "nat \<Rightarrow> bool"
  lru_readers :: "nat \<Rightarrow> nat"
  lru_pending :: "pending list"
  lru_next :: nat

definition NewLRUCache :: lruState where
  "NewLRUCache = \<lparr>lru_items = Map.empty, lru_order = [], lru_id = (\<lambda>_. []), lru_closed = (\<lambda>_. False),
     lru_readers = (\<lambda>_. 0), lru_pending = [], lru_next = 0\<rparr>"

definition lruAcquire :: "lruState \<Rightarrow> nat \<Rightarrow> lruState" where
  "lruAcquire s e = s\<lparr>lru_readers := (lru_readers s)(e := Suc (lru_readers s e))\<rparr>"

text \<open>A hit: the entry moves to the front and is read-locked before the mutex is released.\<close>

definition lruHit :: "lruState \<Rightarrow> nat \<Rightarrow> lruState" where
  "lruHit s e = lruAcquire (s\<lparr>lru_order := e # remove1 e (lru_order s)\<rparr>) e"

text \<open>A miss makes a new entry; it goes to the front and is read-locked.\<close>

definition lruNew :: "lruState \<Rightarrow> string \<Rightarrow> lruState" where
  "lruNew s ident = s\<lparr>lru_id := (lru_id s)(lru_next s := ident), lru_next := Suc (lru_next s)\<rparr>"

definition lruInsert :: "lruState \<Rightarrow> nat \<Rightarrow> lruState" where
  "lruInsert s e =
     lruAcquire (s\<lparr>lru_order := e # lru_order s, lru_items := (lru_items s)(lru_id s e \<mapsto> e)\<rparr>) e"

text \<open>For room, the last entry leaves the map and the list, and the mutex is given up.\<close>

definition lruUnlink :: "lruState \<Rightarrow> nat \<Rightarrow> lruState" where
  "lruUnlink s e =
     s\<lparr>lru_items := (lru_items s)(lru_id s e := None), lru_order := remove1 e (lru_order s)\<rparr>"

definition lruEvict :: "lruState \<Rightarrow> nat \<Rightarrow> nat \<Rightarrow> lruState" where
  "lruEvict s victim e = (lruUnlink s victim)\<lparr>lru_pending := WaitEvict victim e # lru_pending s\<rparr>"

definition lruClose :: "lruState \<Rightarrow> nat \<Rightarrow> lruState" where
  "lruClose s e = s\<lparr>lru_closed := (lru_closed s)(e := True)\<rparr>"

inductive lruStep :: "int \<Rightarrow> lruState \<Rightarrow> lruState \<Rightarrow> bool" for cap :: int where
  get_hit: "lru_items s ident = Some e \<Longrightarrow> lruStep cap s (lruHit s e)"
| get_room: "lru_items s ident = None \<Longrightarrow> int (length (lru_order s)) < cap \<or> lru_order s = [] \<Longrightarrow>
    lruStep cap s (lruInsert (lruNew s ident) (lru_next s))"
| get_full: "lru_items s ident = None \<Longrightarrow> int (length (lru_order s)) \<ge> cap \<Longrightarrow> lru_order s \<noteq> [] \<Longrightarrow>
    lruStep cap s (lruEvict (lruNew s ident) (last (lru_order s)) (lru_next s))"
| evict_close: "lru_pending s = xs @ WaitEvict v e # ys \<Longrightarrow> lru_readers s v = 0 \<Longrightarrow>
    lruStep cap s (lruClose (s\<lparr>lru_pending := xs @ WaitInsert e # ys\<rparr>) v)"
| evict_insert: "lru_pending s = xs @ WaitInsert e # ys \<Longrightarrow>
    lruStep cap s (lruInsert (s\<lparr>lru_pending := xs @ ys\<rparr>) e)"
| release: "lru_readers s e = Suc n \<Longrightarrow> lruStep cap s (s\<lparr>lru_readers := (lru_readers s)(e := n)\<rparr>)"
| remove_unlink: "lru_items s ident = Some e \<Longrightarrow>
    lruStep cap s ((lruUnlink s e)\<lparr>lru_pending := WaitClose e # lru_pending s\<rparr>)"
| close_all: "distinct es \<Longrightarrow> set es = ran (lru_items s) \<Longrightarrow>
    lruStep cap s (s\<lparr>lru_items := Map.empty, lru_order := [], lru_pending := map WaitClose es @ lru_pending s\<rparr>)"
| tail_close: "lru_pending s = xs @ WaitClose e # ys \<Longrightarrow> lru_readers s e = 0 \<Longrightarrow>
    lruStep cap s (lruClose (s\<lparr>lru_pending := xs @ ys\<rparr>) e)"

inductive_cases lruStepE: "lruStep cap s s'"

fun pendingEntries :: "pending \<Rightarrow> nat list" where
  "pendingEntries (WaitEvict v e) = [v, e]"
| "pendingEntries (WaitInsert e) = [e]"
| "pendingEntries (WaitClose e) = [e]"

definition liveEntries :: "lruState \<Rightarrow> nat list" where
  "liveEntries s = lru_order s @ concat (map pendingEntries (lru_pending s))"

text \<open>
  The invariant: an entry is in the list or in the hands of one goroutine, never both or twice,
  and then it is open; the map points into the list; an entry that is closed has no readers.
\<close>

definition lru_inv :: "lruState \<Rightarrow> bool" where
  "lru_inv s \<longleftrightarrow> distinct (liveEntries s)
     \<and> (\<forall>e \<in> set (liveEntries s). \<not> lru_closed s e \<and> e < lru_next s)
     \<and> (\<forall>ident e. lru_items s ident = Some e \<longrightarrow> e \<in> set (lru_order s) \<and> lru_id s e = ident)
     \<and> (\<forall>e. lru_closed s e \<longrightarrow> lru_readers s e = 0 \<and> e < lru_next s)"

lemma lru_inv_New [simp]: "lru_inv NewLRUCache"
  by (simp add: lru_inv_def NewLRUCache_def liveEntries_def)

lemma lru_invI:
  "distinct (liveEntries s) \<Longrightarrow> (\<And>e. e \<in> set (liveEntries s) \<Longrightarrow> \<not> lru_closed s e \<and> e < lru_next s) \<Longrightarrow>
   (\<And>ident e. lru_items s ident = Some e \<Longrightarrow> e \<in> set (lru_order s) \<and> lru_id s e = ident) \<Longrightarrow>
   (\<And>e. lru_closed s e \<Longrightarrow> lru_readers s e = 0 \<and> e < lru_next s) \<Longrightarrow> lru_inv s"
  by (simp add: lru_inv_def)

lemma lru_invD:
  assumes "lru_inv s"
  shows "distinct (liveEntries s)"
    and "e \<in> set (liveEntries s) \<Longrightarrow> \<not> lru_closed s e \<and> e < lru_next s"
    and "lru_items s ident = Some e \<Longrightarrow> e \<in> set (lru_order s) \<and> lru_id s e = ident"
    and "lru_closed s e \<Longrightarrow> lru_readers s e = 0 \<and> e < lru_next s"
  using assms by (simp_all add: lru_inv_def)

lemma liveEntries_order: "e \<in> set (lru_order s) \<Longrightarrow> e \<in> set (liveEntries s)"
  by (simp add: liveEntries_def)

lemma inv_hit:
  assumes "lru_inv s" "e \<in> set (lru_order s)"
  shows "lru_inv (lruHit s e)"
proof -
  note inv = lru_invD [OF assms(1)]
  have d: "distinct (lru_order s)" using inv(1) by (simp add: liveEntries_def)
  have st: "set (e # remove1 e (lru_order s)) = set (lru_order s)"
    using d assms(2) by auto
  have live: "set (liveEntries (lruHit s e)) = set (liveEntries s)"
    using st by (auto simp: liveEntries_def lruHit_def lruAcquire_def)
  show ?thesis
  proof (rule lru_invI)
    show "distinct (liveEntries (lruHit s e))"
      using inv(1) st d by (auto simp: liveEntries_def lruHit_def lruAcquire_def)
    show "\<not> lru_closed (lruHit s e) e' \<and> e' < lru_next (lruHit s e)"
      if "e' \<in> set (liveEntries (lruHit s e))" for e'
      using inv(2) that unfolding live by (simp add: lruHit_def lruAcquire_def)
    show "e' \<in> set (lru_order (lruHit s e)) \<and> lru_id (lruHit s e) e' = ident"
      if "lru_items (lruHit s e) ident = Some e'" for ident e'
      using inv(3) that st by (auto simp: lruHit_def lruAcquire_def)
    show "lru_readers (lruHit s e) e' = 0 \<and> e' < lru_next (lruHit s e)"
      if "lru_closed (lruHit s e) e'" for e'
      using inv(4) inv(2) [OF liveEntries_order [OF assms(2)]] that
      by (auto simp: lruHit_def lruAcquire_def)
  qed
qed

lemma inv_new:
  assumes "lru_inv s"
  shows "lru_inv (lruNew s ident)" and "lru_next s \<notin> set (liveEntries s)"
    and "\<not> lru_closed s (lru_next s)"
proof -
  note inv = lru_invD [OF assms]
  show fresh: "lru_next s \<notin> set (liveEntries s)" using inv(2) by blast
  show "\<not> lru_closed s (lru_next s)" using inv(4) by blast
  have live: "liveEntries (lruNew s ident) = liveEntries s" by (simp add: liveEntries_def lruNew_def)
  show "lru_inv (lruNew s ident)"
  proof (rule lru_invI)
    show "distinct (liveEntries (lruNew s ident))" using inv(1) by (simp add: live)
    show "\<not> lru_closed (lruNew s ident) e \<and> e < lru_next (lruNew s ident)"
      if "e \<in> set (liveEntries (lruNew s ident))" for e
      using inv(2) that unfolding live by (fastforce simp: lruNew_def)
    show "e \<in> set (lru_order (lruNew s ident)) \<and> lru_id (lruNew s ident) e = i"
      if "lru_items (lruNew s ident) i = Some e" for i e
      using inv(3) that fresh liveEntries_order by (fastforce simp: lruNew_def)
    show "lru_readers (lruNew s ident) e = 0 \<and> e < lru_next (lruNew s ident)"
      if "lru_closed (lruNew s ident) e" for e
      using inv(4) that by (fastforce simp: lruNew_def)
  qed
qed

lemma inv_insert:
  assumes "lru_inv s" "e \<notin> set (liveEntries s)" "\<not> lru_closed s e" "e < lru_next s"
  shows "lru_inv (lruInsert s e)"
proof -
  note inv = lru_invD [OF assms(1)]
  have live: "liveEntries (lruInsert s e) = e # liveEntries s"
    by (simp add: liveEntries_def lruInsert_def lruAcquire_def)
  show ?thesis
  proof (rule lru_invI)
    show "distinct (liveEntries (lruInsert s e))" using inv(1) assms(2) by (simp add: live)
    show "\<not> lru_closed (lruInsert s e) e' \<and> e' < lru_next (lruInsert s e)"
      if "e' \<in> set (liveEntries (lruInsert s e))" for e'
      using inv(2) that assms(3,4) unfolding live by (auto simp: lruInsert_def lruAcquire_def)
    show "e' \<in> set (lru_order (lruInsert s e)) \<and> lru_id (lruInsert s e) e' = ident"
      if "lru_items (lruInsert s e) ident = Some e'" for ident e'
      using inv(3) that by (auto simp: lruInsert_def lruAcquire_def split: if_splits)
    show "lru_readers (lruInsert s e) e' = 0 \<and> e' < lru_next (lruInsert s e)"
      if "lru_closed (lruInsert s e) e'" for e'
      using inv(4) that assms(3) by (auto simp: lruInsert_def lruAcquire_def)
  qed
qed

lemma inv_unlink:
  assumes "lru_inv s" "e \<in> set (lru_order s)" "distinct ns" "set ns \<inter> set (liveEntries s) = {}"
    and "\<forall>n \<in> set ns. \<not> lru_closed s n \<and> n < lru_next s" and "mset (pendingEntries p) = mset (e # ns)"
  shows "lru_inv ((lruUnlink s e)\<lparr>lru_pending := p # lru_pending s\<rparr>)" (is "lru_inv ?s'")
proof -
  note inv = lru_invD [OF assms(1)]
  have d: "distinct (lru_order s)" using inv(1) by (simp add: liveEntries_def)
  let ?rest = "concat (map pendingEntries (lru_pending s))"
  have live: "liveEntries ?s' = remove1 e (lru_order s) @ pendingEntries p @ ?rest"
    by (simp add: liveEntries_def lruUnlink_def)
  have m: "mset (liveEntries ?s') = mset (liveEntries s @ ns)"
    using assms(2,6) unfolding live unfolding liveEntries_def by (simp add: lruUnlink_def)
  then have st: "set (liveEntries ?s') = set (liveEntries s) \<union> set ns" by (metis set_append set_mset_mset)
  show ?thesis
  proof (rule lru_invI)
    have "distinct (liveEntries s @ ns)" using inv(1) assms(3,4) by auto
    with m show "distinct (liveEntries ?s')" by (metis mset_eq_imp_distinct_iff)
    show "\<not> lru_closed ?s' e' \<and> e' < lru_next ?s'" if "e' \<in> set (liveEntries ?s')" for e'
      using that assms(5) inv(2) unfolding st by (auto simp: lruUnlink_def)
    show "e' \<in> set (lru_order ?s') \<and> lru_id ?s' e' = ident" if "lru_items ?s' ident = Some e'" for ident e'
      using inv(3) [of ident e'] that d by (auto simp: lruUnlink_def split: if_splits)
    show "lru_readers ?s' e' = 0 \<and> e' < lru_next ?s'" if "lru_closed ?s' e'" for e'
      using inv(4) that by (simp add: lruUnlink_def)
  qed
qed

lemma inv_close:
  assumes "lru_inv s" "lru_pending s = xs @ p # ys" "mset (pendingEntries p) = mset (e # ns)"
    and "concat (map pendingEntries qs) = ns" "lru_readers s e = 0"
  shows "lru_inv (lruClose (s\<lparr>lru_pending := xs @ qs @ ys\<rparr>) e)" (is "lru_inv ?s'")
proof -
  note inv = lru_invD [OF assms(1)]
  have m: "mset (liveEntries s) = mset (e # liveEntries ?s')"
    using assms(2,3,4) by (simp add: liveEntries_def lruClose_def)
  then have st: "set (liveEntries s) = insert e (set (liveEntries ?s'))"
    by (metis list.simps(15) set_mset_mset)
  have d: "distinct (e # liveEntries ?s')" using inv(1) m by (metis mset_eq_imp_distinct_iff)
  show ?thesis
  proof (rule lru_invI)
    show "distinct (liveEntries ?s')" using d by simp
    show "\<not> lru_closed ?s' e' \<and> e' < lru_next ?s'" if "e' \<in> set (liveEntries ?s')" for e'
      using that inv(2) [of e'] d st by (auto simp: lruClose_def)
    have e: "e \<notin> set (lru_order s)"
      using d by (auto simp: liveEntries_def lruClose_def)
    show "e' \<in> set (lru_order ?s') \<and> lru_id ?s' e' = ident" if "lru_items ?s' ident = Some e'" for ident e'
      using inv(3) [of ident e'] that by (simp add: lruClose_def)
    show "lru_readers ?s' e' = 0 \<and> e' < lru_next ?s'" if "lru_closed ?s' e'" for e'
      using that inv(4) [of e'] inv(2) [of e] st assms(5) by (auto simp: lruClose_def split: if_splits)
  qed
qed

lemma inv_release:
  assumes "lru_inv s" "lru_readers s e = Suc n"
  shows "lru_inv (s\<lparr>lru_readers := (lru_readers s)(e := n)\<rparr>)"
  using assms by (auto simp: lru_inv_def liveEntries_def)

lemma inv_close_all:
  assumes "lru_inv s" "distinct es" "set es = ran (lru_items s)"
  shows "lru_inv (s\<lparr>lru_items := Map.empty, lru_order := [], lru_pending := map WaitClose es @ lru_pending s\<rparr>)"
    (is "lru_inv ?s'")
proof -
  note inv = lru_invD [OF assms(1)]
  let ?rest = "concat (map pendingEntries (lru_pending s))"
  have "concat (map (pendingEntries \<circ> WaitClose) es) = es" by (induction es) simp_all
  then have live: "liveEntries ?s' = es @ ?rest" by (simp add: liveEntries_def)
  have sub: "set es \<subseteq> set (lru_order s)" using assms(3) inv(3) by (auto simp: ran_def)
  show ?thesis
  proof (rule lru_invI)
    show "distinct (liveEntries ?s')"
      using inv(1) sub assms(2) unfolding live by (auto simp: liveEntries_def)
    show "\<not> lru_closed ?s' e \<and> e < lru_next ?s'" if "e \<in> set (liveEntries ?s')" for e
      using that inv(2) [of e] sub unfolding live by (auto simp: liveEntries_def)
    show "e \<in> set (lru_order ?s') \<and> lru_id ?s' e = ident" if "lru_items ?s' ident = Some e" for ident e
      using that by simp
    show "lru_readers ?s' e = 0 \<and> e < lru_next ?s'" if "lru_closed ?s' e" for e
      using that inv(4) by simp
  qed
qed

lemma inv_take_insert:
  assumes "lru_inv s" "lru_pending s = xs @ WaitInsert e # ys"
  shows "lru_inv (lruInsert (s\<lparr>lru_pending := xs @ ys\<rparr>) e)"
proof -
  let ?t = "s\<lparr>lru_pending := xs @ ys\<rparr>"
  have m: "mset (liveEntries s) = mset (e # liveEntries ?t)"
    using assms(2) by (simp add: liveEntries_def)
  note inv = lru_invD [OF assms(1)]
  have d: "distinct (e # liveEntries ?t)" using inv(1) m by (metis mset_eq_imp_distinct_iff)
  have st: "set (liveEntries s) = insert e (set (liveEntries ?t))"
    using m by (metis list.simps(15) set_mset_mset)
  show ?thesis
  proof (rule inv_insert)
    show "lru_inv ?t"
    proof (rule lru_invI)
      show "distinct (liveEntries ?t)" using d by simp
      show "\<not> lru_closed ?t e' \<and> e' < lru_next ?t" if "e' \<in> set (liveEntries ?t)" for e'
        using that inv(2) [of e'] st by simp
    qed (use inv(3,4) in simp_all)
    show "e \<notin> set (liveEntries ?t)" using d by simp
    show "\<not> lru_closed ?t e" "e < lru_next ?t" using inv(2) [of e] st by simp_all
  qed
qed

lemma lruStep_inv: "lruStep cap s s' \<Longrightarrow> lru_inv s \<Longrightarrow> lru_inv s'"
proof (induction rule: lruStep.induct)
  case (get_hit s ident e)
  then show ?case using lru_invD(3) by (blast intro: inv_hit)
next
  case (get_room s ident)
  note n = inv_new(1) [OF get_room.prems, of ident] inv_new(2,3) [OF get_room.prems]
  show ?case by (rule inv_insert [OF n(1)]) (use n(2,3) in \<open>simp_all add: liveEntries_def lruNew_def\<close>)
next
  case (get_full s ident)
  note n = inv_new(1) [OF get_full.prems, of ident] inv_new(2,3) [OF get_full.prems]
  show ?case unfolding lruEvict_def
    by (rule inv_unlink [OF n(1), where ns = "[lru_next s]"])
      (use n(2,3) get_full.hyps in \<open>simp_all add: liveEntries_def lruNew_def\<close>)
next
  case (evict_close s xs v e ys)
  then show ?case using inv_close [of s xs "WaitEvict v e" ys v "[e]" "[WaitInsert e]"] by simp
next
  case (evict_insert s xs e ys)
  then show ?case by (blast intro: inv_take_insert)
next
  case (release s e n)
  then show ?case by (blast intro: inv_release)
next
  case (remove_unlink s ident e)
  then have "e \<in> set (lru_order s)" by (blast dest: lru_invD(3))
  then show ?case by (intro inv_unlink [OF remove_unlink.prems, where ns = "[]"]) simp_all
next
  case (close_all es s)
  then show ?case by (blast intro: inv_close_all)
next
  case (tail_close s xs e ys)
  then show ?case using inv_close [of s xs "WaitClose e" ys e "[]" "[]"] by simp
qed

interpretation lru_steps: step_system "lruStep cap" lru_inv for cap
  by unfold_locales (rule lruStep_inv)

section \<open>Properties\<close>

text \<open>C12: whatever the goroutines do, an open bucket database a caller still holds (its read lock is
  taken) is never closed, and no entry is linked twice.\<close>

theorem lru_no_use_after_close:
  assumes "rtranclp (lruStep cap) NewLRUCache s" and "lru_readers s e > 0"
  shows "\<not> lru_closed s e \<and> distinct (lru_order s)"
proof -
  from assms(1) lru_inv_New have "lru_inv s" by (rule lru_steps.reach_inv)
  from lru_invD [OF this] assms(2) show ?thesis by (fastforce simp: liveEntries_def)
qed

definition lruRace :: "lruState list" where
  "lruRace =
     (let s1 = lruInsert (lruNew NewLRUCache ''a'') 0;
          s2 = s1\<lparr>lru_readers := (lru_readers s1)(0 := 0)\<rparr>;
          s3 = lruEvict (lruNew s2 ''b'') 0 1;
          s4 = lruInsert (lruNew s3 ''b'') (Suc (Suc 0));
          s5 = lruClose (s4\<lparr>lru_pending := [WaitInsert 1]\<rparr>) 0;
          s6 = lruInsert (s5\<lparr>lru_pending := []\<rparr>) 1 in [s1, s2, s3, s4, s5, s6])"

lemmas lruRace_defs = lruRace_def Let_def lruInsert_def lruNew_def lruAcquire_def lruEvict_def
  lruUnlink_def lruClose_def NewLRUCache_def

lemma lruRace_reached: "rtranclp (lruStep 1) NewLRUCache (lruRace ! 5)"
proof -
  have 1: "lruStep 1 NewLRUCache (lruRace ! 0)"
    using get_room [of NewLRUCache "''a''" 1] by (simp add: lruRace_defs)
  have 2: "lruStep 1 (lruRace ! 0) (lruRace ! 1)"
    using release [of "lruRace ! 0" 0 0] by (simp add: lruRace_defs)
  have 3: "lruStep 1 (lruRace ! 1) (lruRace ! 2)"
    using get_full [of "lruRace ! 1" "''b''" 1] by (simp add: lruRace_defs)
  have 4: "lruStep 1 (lruRace ! 2) (lruRace ! 3)"
    using get_room [of "lruRace ! 2" "''b''" 1] by (simp add: lruRace_defs)
  have 5: "lruStep 1 (lruRace ! 3) (lruRace ! 4)"
    using evict_close [of "lruRace ! 3" "[]" 0 1 "[]"] by (simp add: lruRace_defs)
  have 6: "lruStep 1 (lruRace ! 4) (lruRace ! 5)"
    using evict_insert [of "lruRace ! 4" "[]" 1 "[]"] by (simp add: lruRace_defs)
  from 1 2 3 4 5 6 show ?thesis by (meson rtranclp.rtrancl_into_rtrancl rtranclp.rtrancl_refl)
qed

text \<open>The capacity is not a bound once calls overlap: while one \<open>Get\<close> has given up the mutex to
  close its victim, another \<open>Get\<close> for the same bucket finds it missing and room in the list. With
  capacity one, two open databases of the same bucket end up in the list.\<close>

theorem lru_capacity_exceeded:
  "\<exists>s. rtranclp (lruStep 1) NewLRUCache s \<and> length (lru_order s) = 2
     \<and> map (lru_id s) (lru_order s) = [''b'', ''b''] \<and> map (lru_closed s) (lru_order s) = [False, False]"
  using lruRace_reached by (intro exI [of _ "lruRace ! 5"]) (simp add: lruRace_defs)

theorem lru_no_use_after_close_witness:
  "lru_readers (lruRace ! 5) 1 > 0 \<and> \<not> lru_closed (lruRace ! 5) 1"
proof -
  have r: "lru_readers (lruRace ! 5) 1 > 0" by (simp add: lruRace_defs)
  from lru_no_use_after_close [OF lruRace_reached r] r show ?thesis by blast
qed

section \<open>The order of last use\<close>

text \<open>A caller that asks for one bucket after the other; the buckets whose databases are closed on the way.\<close>

fun lruGets :: "int \<Rightarrow> string list \<Rightarrow> string list \<Rightarrow> string list \<times> string list" where
  "lruGets cap order [] = ([], order)"
| "lruGets cap order (i # ids) =
     (case lruGet cap order i of (v, order') \<Rightarrow>
        (case lruGets cap order' ids of (vs, order'') \<Rightarrow> (case v of None \<Rightarrow> vs | Some x \<Rightarrow> x # vs, order'')))"

text \<open>A hit or a miss leaves the id in front of what fits of the rest.\<close>

lemma lruGet_take:
  assumes "lru_ok cap order"
  shows "snd (lruGet cap order i) = take (nat (max 1 cap)) (i # removeAll i order)"
proof -
  have d: "distinct order" and l: "length order \<le> nat (max 1 cap)" using assms by (auto simp: lru_ok_def)
  consider (hit) "i \<in> set order" | (full) "i \<notin> set order" "int (length order) \<ge> cap" "order \<noteq> []"
    | (room) "i \<notin> set order" "int (length order) < cap \<or> order = []" by fastforce
  then show ?thesis
  proof cases
    case hit
    then have "length (i # removeAll i order) = length order"
      using d length_pos_if_in_set [OF hit] by (simp add: distinct_remove1_removeAll [symmetric] length_remove1)
    with l have "take (nat (max 1 cap)) (i # removeAll i order) = i # removeAll i order"
      by (metis take_all)
    with hit d show ?thesis by (simp add: lruGet_def distinct_remove1_removeAll)
  next
    case full
    then have "length order = nat (max 1 cap)" using l by (cases order) auto
    moreover from full(3) have "take (length order) (i # order) = i # butlast order"
      by (cases order rule: rev_cases) simp_all
    ultimately show ?thesis using full by (simp add: lruGet_def)
  next
    case room
    then have "length (i # order) \<le> nat (max 1 cap)" using l by auto
    then have "take (nat (max 1 cap)) (i # order) = i # order" by (rule take_all)
    with room show ?thesis by (auto simp: lruGet_def)
  qed
qed

lemma remdups_snoc: "remdups (xs @ [i]) = removeAll i (remdups xs) @ [i]"
  by (induction xs) auto

lemma rev_removeAll: "rev (removeAll i xs) = removeAll i (rev xs)"
  by (simp add: removeAll_filter_not_eq rev_filter)

lemma take_filter_take:
  assumes "m \<le> length (filter P (take n xs)) \<or> length xs \<le> n"
  shows "take m (filter P (take n xs)) = take m (filter P xs)"
proof -
  have "filter P xs = filter P (take n xs) @ filter P (drop n xs)" by (metis append_take_drop_id filter_append)
  with assms show ?thesis by auto
qed

lemma take_front:
  assumes "distinct xs"
  shows "take n (i # removeAll i (take n xs)) = take n (i # removeAll i xs)"
proof (cases n)
  case (Suc m)
  have "m \<le> length (removeAll i (take n xs)) \<or> length xs \<le> n"
  proof (cases "length xs \<le> n")
    case False
    have "length (removeAll i (take n xs)) \<ge> length (take n xs) - 1"
      using assms by (auto simp: distinct_remove1_removeAll [symmetric] length_remove1)
    with False Suc show ?thesis by simp
  qed simp
  then have "take m (removeAll i (take n xs)) = take m (removeAll i xs)"
    unfolding removeAll_filter_not_eq by (rule take_filter_take)
  with Suc show ?thesis by simp
qed simp

lemma lruGets_snoc: "snd (lruGets cap order (ids @ [i])) = snd (lruGet cap (snd (lruGets cap order ids)) i)"
proof (induction ids arbitrary: order)
  case Nil
  then show ?case by (simp split: prod.split)
next
  case (Cons a ids)
  have "snd (lruGets cap order (a # js)) = snd (lruGets cap (snd (lruGet cap order a)) js)" for js
    by (simp split: prod.split)
  with Cons show ?case by simp
qed

lemma lruGets_take:
  assumes "lru_ok cap order"
  shows "lru_ok cap (snd (lruGets cap order ids))
    \<and> snd (lruGets cap order ids) = take (nat (max 1 cap)) (rev (remdups (rev order @ ids)))"
proof (induction ids rule: rev_induct)
  case Nil
  have "distinct (rev order)" and l: "length order \<le> nat (max 1 cap)" using assms by (auto simp: lru_ok_def)
  then have "rev (remdups (rev order @ [])) = order" by (metis append_Nil2 distinct_remdups_id rev_rev_ident)
  with assms l show ?case by (simp only: lruGets.simps snd_conv take_all)
next
  case (snoc i ids)
  let ?o = "snd (lruGets cap order ids)" and ?used = "rev (remdups (rev order @ ids))"
  have "rev (remdups (rev order @ ids @ [i])) = i # removeAll i ?used"
    using remdups_snoc [of "rev order @ ids" i] by (simp add: rev_removeAll)
  moreover from snoc have o': "lru_ok cap ?o" "?o = take (nat (max 1 cap)) ?used" by blast+
  have "snd (lruGet cap ?o i) = take (nat (max 1 cap)) (i # removeAll i ?used)"
    unfolding lruGet_take [OF o'(1)] by (subst o'(2), rule take_front) simp
  moreover have "lru_ok cap (snd (lruGet cap ?o i))"
    using lru_ok_get [OF o'(1)] by (metis prod.collapse)
  ultimately show ?case by (simp add: lruGets_snoc)
qed

text \<open>C13: without overlap the cache is a least-recently-used cache. After any sequence of calls of
  \<open>Get\<close> it holds exactly the databases that were asked for last, as many as fit (one, if \<open>cap\<close> is not
  positive), in the order of their last use; and the next call closes a database only if its own
  bucket is not among them and there is no room, and then the one whose last use is longest ago.\<close>

theorem lruGets_recent:
  assumes "lru_ok cap order" and "lruGets cap order ids = (vs, order')" and "lruGet cap order' ident = (v, order'')"
  shows "let n = nat (max 1 cap); used = rev (remdups (rev order @ ids)) in
     order' = take n used \<and> order'' = take n (ident # removeAll ident used)
     \<and> v = (if ident \<notin> set order' \<and> n \<le> length used then Some (used ! (n - 1)) else None)"
proof -
  let ?n = "nat (max 1 cap)" and ?used = "rev (remdups (rev order @ ids))"
  have o': "lru_ok cap order'" "order' = take ?n ?used"
    using lruGets_take [OF assms(1), of ids] unfolding assms(2) snd_conv by blast+
  have "order'' = take ?n (ident # removeAll ident ?used)"
    using lruGet_take [OF o'(1), of ident] assms(3) take_front [of ?used ?n ident] unfolding o'(2) [symmetric] by simp
  moreover have "cap \<le> int (length order') \<and> length order' \<noteq> 0 \<longleftrightarrow> ?n \<le> length ?used"
    unfolding o'(2) length_take by arith
  moreover have "v = (if ident \<notin> set order' \<and> cap \<le> int (length order') \<and> length order' \<noteq> 0 then Some (last order') else None)"
    using assms(3) by (auto simp: lruGet_def split: if_splits)
  moreover have "last order' = ?used ! (?n - 1)" if "?n \<le> length ?used"
  proof -
    from that o'(2) have "length order' = ?n" "order' \<noteq> []" by auto
    with o'(2) show ?thesis by (simp add: last_conv_nth)
  qed
  ultimately show ?thesis unfolding Let_def using o'(2) by (metis (no_types, lifting))
qed

theorem lruGets_recent_witness:
  "lruGets 3 [''x'', ''y''] [''z'', ''y'', ''x''] = ([], [''x'', ''y'', ''z''])
   \<and> lruGet 3 [''x'', ''y'', ''z''] ''w'' = (Some ''z'', [''w'', ''x'', ''y''])"
proof -
  obtain vs o' v o'' where r: "lruGets 3 [''x'', ''y''] [''z'', ''y'', ''x''] = (vs, o')" "lruGet 3 o' ''w'' = (v, o'')"
    by fastforce
  have vs: "vs = []" using r(1) by (auto simp: lruGet_def)
  have "lru_ok 3 [''x'', ''y'']" by (simp add: lru_ok_def)
  from lruGets_recent [OF this r] have "o' = [''x'', ''y'', ''z'']" "o'' = [''w'', ''x'', ''y'']" "v = Some ''z''"
    by (simp_all add: Let_def eval_nat_numeral)
  with r vs show ?thesis by simp
qed

section \<open>A caller that waits for itself\<close>

lemma lruGet_moves:
  assumes "lru_ok cap order" and "order = pre @ a # post" and "i \<noteq> a" and "lruGet cap order i = (v, order')"
  shows "v = Some a \<or> (\<exists>pre' post'. order' = pre' @ a # post' \<and> set pre' = insert i (set pre))"
proof -
  have d: "distinct (pre @ a # post)" using assms(1,2) by (simp add: lru_ok_def)
  consider (pre) "i \<in> set pre" | (post) "i \<in> set post" | (full) "i \<notin> set order" "int (length order) \<ge> cap"
    | (room) "i \<notin> set order" "int (length order) < cap" using assms(2,3) by fastforce
  then show ?thesis
  proof cases
    case pre
    with assms d have "order' = (i # remove1 i pre) @ a # post" by (auto simp: lruGet_def remove1_append)
    with pre d show ?thesis by (intro disjI2 exI [of _ "i # remove1 i pre"] exI [of _ post]) auto
  next
    case post
    with assms d have "order' = (i # pre) @ a # remove1 i post" by (auto simp: lruGet_def remove1_append)
    then show ?thesis by (intro disjI2 exI [of _ "i # pre"] exI [of _ "remove1 i post"]) auto
  next
    case full
    with assms have v: "v = Some (last order)" "order' = i # butlast order" by (auto simp: lruGet_def)
    show ?thesis
    proof (cases "post = []")
      case True
      with v assms(2) show ?thesis by simp
    next
      case False
      with v assms(2) have "order' = (i # pre) @ a # butlast post" by (simp add: butlast_append)
      then show ?thesis by (intro disjI2 exI [of _ "i # pre"] exI [of _ "butlast post"]) auto
    qed
  next
    case room
    with assms have "order' = (i # pre) @ a # post" by (auto simp: lruGet_def)
    then show ?thesis by (intro disjI2 exI [of _ "i # pre"] exI [of _ post]) auto
  qed
qed

lemma lruGets_evicts:
  assumes "lru_ok cap order" and "order = pre @ a # post" and "a \<notin> set ids"
    and "max 1 cap \<le> int (card (set pre \<union> set ids))"
  shows "a \<in> set (fst (lruGets cap order ids))"
  using assms
proof (induction ids arbitrary: order pre post)
  case Nil
  have "card (set pre) \<le> length pre" by (rule card_length)
  with Nil show ?case by (auto simp: lru_ok_def)
next
  case (Cons i ids)
  obtain v order' where g: "lruGet cap order i = (v, order')" by fastforce
  from Cons.prems have ne: "i \<noteq> a" by auto
  show ?case
  proof (cases "v = Some a")
    case True
    with g show ?thesis by (simp split: prod.split)
  next
    case False
    with lruGet_moves [OF Cons.prems(1,2) ne g] obtain pre' post' where
      o': "order' = pre' @ a # post'" "set pre' = insert i (set pre)" by blast
    have "a \<in> set (fst (lruGets cap order' ids))"
      using Cons.prems(3,4) o' by (intro Cons.IH [OF lru_ok_get [OF Cons.prems(1) g]]) (auto simp: insert_commute)
    with g show ?thesis by (auto split: prod.split option.split)
  qed
qed

text \<open>A caller that keeps a bucket open while it asks for others waits for itself:
  once it has asked for as many different buckets as the cache holds, the database it still reads is the
  one to be evicted, and the eviction waits for its readers. \<open>Delete\<close> does this when it looks for other
  references to a data file: with as many other buckets on the location as the cache holds, it never
  returns.\<close>

theorem lruGets_evicts_own:
  assumes "lru_ok cap order" and "held \<in> set order" and "held \<notin> set others"
    and "max 1 cap \<le> int (card (set others))"
  shows "held \<in> set (fst (lruGets cap order others))"
proof -
  obtain pre post where o': "order = pre @ held # post" using assms(2) by (meson split_list)
  have "card (set others) \<le> card (set pre \<union> set others)" by (rule card_mono) auto
  with assms o' show ?thesis by (intro lruGets_evicts) auto
qed

theorem lruGets_evicts_own_witness:
  "''A'' \<in> set (fst (lruGets 2 [''A''] [''B'', ''C'']))"
  by (rule lruGets_evicts_own) (simp_all add: lru_ok_def)

end
