(* ===== verification/Repair.thy ===== *)
theory Repair
  imports Prelude
begin

text \<open>
  \<open>internal/repair/manager.go\<close>: the gate that refuses writes to a bucket whose metadata is being
  repaired or is beyond repair. Every method holds the manager's mutex from start to end, so a
  method is one step on the two maps.
\<close>

datatype Status = Healthy | Repairing | Degraded

fun statusText :: "Status \<Rightarrow> string" where
  "statusText Healthy = ''healthy''"
| "statusText Repairing = ''repairing''"
| "statusText Degraded = ''degraded''"

record Manager =
  statuses :: "string \<rightharpoonup> Status"
  reasons :: "string \<rightharpoonup> string"

definition NewManager :: Manager where
  "NewManager = \<lparr>statuses = Map.empty, reasons = Map.empty\<rparr>"

definition statusLocked :: "Manager \<Rightarrow> string \<Rightarrow> Status" where
  "statusLocked m bucketID = (case statuses m bucketID of None \<Rightarrow> Healthy | Some s \<Rightarrow> s)"

definition CheckWrite :: "Manager \<Rightarrow> string \<Rightarrow> gerr + unit" where
  "CheckWrite m bucketID =
     (let status = statusLocked m bucketID in
      if status = Healthy then Inr ()
      else (let r = (case reasons m bucketID of None \<Rightarrow> [] | Some r \<Rightarrow> r);
                reason = (if r = [] then statusText status else r) in
            Inl (EWrap [] (ESent ErrUnavailable)
              ('': bucket '' @ bucketID @ '' metadata is '' @ statusText status @ '': '' @ reason))))"

definition MarkRepairing :: "Manager \<Rightarrow> string \<Rightarrow> string \<Rightarrow> bool \<times> Manager" where
  "MarkRepairing m bucketID reason =
     (if statusLocked m bucketID = Repairing then (False, m)
      else (True, \<lparr>statuses = (statuses m)(bucketID \<mapsto> Repairing),
                   reasons = (reasons m)(bucketID \<mapsto> reason)\<rparr>))"

definition MarkDegraded :: "Manager \<Rightarrow> string \<Rightarrow> string \<Rightarrow> Manager" where
  "MarkDegraded m bucketID reason =
     \<lparr>statuses = (statuses m)(bucketID \<mapsto> Degraded), reasons = (reasons m)(bucketID \<mapsto> reason)\<rparr>"

definition MarkHealthy :: "Manager \<Rightarrow> string \<Rightarrow> Manager" where
  "MarkHealthy m bucketID =
     \<lparr>statuses = (statuses m)(bucketID := None), reasons = (reasons m)(bucketID := None)\<rparr>"

section \<open>Steps and the invariant\<close>

datatype repairEvent =
    RRepairing string string
  | RDegraded string string
  | RHealthy string

fun repairApply :: "Manager \<Rightarrow> repairEvent \<Rightarrow> Manager" where
  "repairApply m (RRepairing b r) = snd (MarkRepairing m b r)"
| "repairApply m (RDegraded b r) = MarkDegraded m b r"
| "repairApply m (RHealthy b) = MarkHealthy m b"

fun repairBucket :: "repairEvent \<Rightarrow> string" where
  "repairBucket (RRepairing b r) = b"
| "repairBucket (RDegraded b r) = b"
| "repairBucket (RHealthy b) = b"

fun repairTarget :: "repairEvent \<Rightarrow> Status" where
  "repairTarget (RRepairing b r) = Repairing"
| "repairTarget (RDegraded b r) = Degraded"
| "repairTarget (RHealthy b) = Healthy"

definition repair_wf :: "Manager \<Rightarrow> bool" where
  "repair_wf m \<longleftrightarrow> dom (statuses m) = dom (reasons m) \<and> Healthy \<notin> ran (statuses m)"

lemma repair_wf_New [simp]: "repair_wf NewManager"
  by (simp add: repair_wf_def NewManager_def)

lemma ran_upd: "z \<in> ran (f(x \<mapsto> y)) \<Longrightarrow> z = y \<or> z \<in> ran f" "z \<in> ran (f(x := None)) \<Longrightarrow> z \<in> ran f"
  by (auto simp: ran_def split: if_splits)

lemma repair_wf_apply: "repair_wf m \<Longrightarrow> repair_wf (repairApply m ev)"
  by (cases ev) (auto simp: repair_wf_def MarkRepairing_def MarkDegraded_def MarkHealthy_def
      dest: ran_upd)

lemma statusLocked_apply:
  "statusLocked (repairApply m ev) b
     = (if repairBucket ev = b then repairTarget ev else statusLocked m b)"
  by (cases ev) (auto simp: MarkRepairing_def MarkDegraded_def MarkHealthy_def statusLocked_def)

section \<open>The contract of a write gate\<close>

text \<open>
  What the object and multipart services rely on: a blocked bucket refuses writes with
  \<open>ErrUnavailable\<close> until it is opened again, and blocking one bucket does not block another.
\<close>

locale write_gate =
  fixes admits :: "'m \<Rightarrow> string \<Rightarrow> gerr + unit"
    and block :: "'m \<Rightarrow> string \<Rightarrow> 'm"
    and open_gate :: "'m \<Rightarrow> string \<Rightarrow> 'm"
  assumes blocked: "\<exists>e. admits (block m b) b = Inl e \<and> errIs ErrUnavailable e"
    and opened: "admits (open_gate m b) b = Inr ()"
    and block_other: "c \<noteq> b \<Longrightarrow> admits (block m b) c = admits m c"
    and open_other: "c \<noteq> b \<Longrightarrow> admits (open_gate m b) c = admits m c"
begin

lemma stays_blocked: "c \<noteq> b \<Longrightarrow> \<exists>e. admits (open_gate (block m b) c) b = Inl e \<and> errIs ErrUnavailable e"
  using blocked open_other [of b c] by metis

lemma reopened: "admits (open_gate (block m b) b) c = admits (open_gate m b) c"
  using opened block_other [of c b] open_other [of c b] by (cases "c = b") simp_all

end

interpretation repairing: write_gate CheckWrite "\<lambda>m b. snd (MarkRepairing m b reason)" MarkHealthy
  for reason
  by unfold_locales
    (auto simp: CheckWrite_def MarkRepairing_def MarkHealthy_def statusLocked_def Let_def split: option.splits)

interpretation degraded: write_gate CheckWrite "\<lambda>m b. MarkDegraded m b reason" MarkHealthy
  for reason
  by unfold_locales
    (auto simp: CheckWrite_def MarkDegraded_def MarkHealthy_def statusLocked_def Let_def split: option.splits)

section \<open>Properties\<close>

definition lastMark :: "repairEvent list \<Rightarrow> string \<Rightarrow> Status" where
  "lastMark evs b =
     (case find (\<lambda>ev. repairBucket ev = b) (rev evs) of None \<Rightarrow> Healthy | Some ev \<Rightarrow> repairTarget ev)"

text \<open>After any history of marks, a bucket's status is the one the last mark for that bucket
  asked for (healthy if there is none), and writes to it are refused, always with
  \<open>ErrUnavailable\<close>, exactly when that is not healthy. A later mark wins in either direction: a
  repair mark also replaces a degraded one.\<close>

theorem repair_last_mark_wins:
  "statusLocked (foldl repairApply NewManager evs) b = lastMark evs b
   \<and> (CheckWrite (foldl repairApply NewManager evs) b = Inr () \<longleftrightarrow> lastMark evs b = Healthy)
   \<and> (\<forall>e. CheckWrite (foldl repairApply NewManager evs) b = Inl e \<longrightarrow> errIs ErrUnavailable e)"
proof -
  have st: "statusLocked (foldl repairApply NewManager evs) b = lastMark evs b"
  proof (induction evs rule: rev_induct)
    case Nil
    then show ?case by (simp add: statusLocked_def NewManager_def lastMark_def)
  next
    case (snoc ev evs)
    then show ?case by (simp add: statusLocked_apply lastMark_def)
  qed
  then show ?thesis by (simp add: CheckWrite_def Let_def)
qed

theorem repair_last_mark_wins_witness:
  "\<exists>e. CheckWrite (foldl repairApply NewManager [RDegraded ''b'' ''x'', RHealthy ''c'']) ''b'' = Inl e
     \<and> errIs ErrUnavailable e"
  using repair_last_mark_wins [of "[RDegraded ''b'' ''x'', RHealthy ''c'']" "''b''"]
  by (cases "CheckWrite (foldl repairApply NewManager [RDegraded ''b'' ''x'', RHealthy ''c'']) ''b''")
    (simp_all add: lastMark_def)

end
