(* ===== verification/Quota.thy ===== *)
theory Quota
  imports Structure Stats
begin

text \<open>
  \<open>internal/quota/quota.go\<close>: the check made before a write. The usage comes from the ledger of
  \<open>Stats\<close>, the limit from the location row; the sum is a Go \<open>int64\<close> expression and wraps.
\<close>

definition Check :: "structureDB \<Rightarrow> usageDB \<Rightarrow> string \<Rightarrow> int \<Rightarrow> gerr + unit" where
  "Check structure stats locationID additionalBytes =
     (case GetLocation structure locationID of
        Inl e \<Rightarrow> Inl (wrapAs (''get location '' @ locationID) e)
      | Inr loc \<Rightarrow>
          if loc_QuotaBytes loc = 0 then Inr ()
          else case GetTotalUsage stats locationID of
                 Inl e \<Rightarrow> Inl (wrapAs (''get usage for '' @ locationID) e)
               | Inr current \<Rightarrow>
                   if i64 (current + additionalBytes) > loc_QuotaBytes loc
                   then Inl (EQuota locationID current additionalBytes (loc_QuotaBytes loc))
                   else Inr ())"

definition IsExceeded :: "gerr \<Rightarrow> bool" where
  "IsExceeded e = errIsQuota e"

context usage_ledger
begin

text \<open>A write that was within the limit when it was checked is within it after it is recorded.\<close>

lemma record_within:
  assumes "record_delta db l b = Inr db'" "total db l = Inr n" "is_i64 (n + b)" "n + b \<le> limit"
  shows "\<exists>n'. total db' l = Inr n' \<and> n' \<le> limit"
  using total_record [OF assms(1,2,3)] assms(4) by blast

end

lemma Check_Inr:
  assumes "Check structure stats l b = Inr ()"
  obtains loc where "GetLocation structure l = Inr loc"
    "loc_QuotaBytes loc = 0 \<or> (\<exists>n. GetTotalUsage stats l = Inr n \<and> i64 (n + b) \<le> loc_QuotaBytes loc)"
  using assms by (auto simp: Check_def split: sum.splits if_splits)

section \<open>Properties\<close>

text \<open>The check admits a write exactly when the location exists and has no quota, or its usage
  is known and usage plus the new bytes, as a 64-bit sum, is at most the quota; it reports the
  quota error exactly when that sum is greater, and any other error otherwise.\<close>

theorem Check_iff:
  "(Check structure stats l b = Inr () \<longleftrightarrow>
     (\<exists>loc. GetLocation structure l = Inr loc \<and>
        (loc_QuotaBytes loc = 0 \<or> (\<exists>n. GetTotalUsage stats l = Inr n \<and> i64 (n + b) \<le> loc_QuotaBytes loc))))
   \<and> ((\<exists>e. Check structure stats l b = Inl e \<and> (\<exists>c a q. e = EQuota l c a q)) \<longleftrightarrow>
     (\<exists>loc n. GetLocation structure l = Inr loc \<and> loc_QuotaBytes loc \<noteq> 0
        \<and> GetTotalUsage stats l = Inr n \<and> i64 (n + b) > loc_QuotaBytes loc))"
  by (auto simp: Check_def split: sum.splits)

text \<open>C11: quota safety. If the check admits a write to a location with a quota, the sum does not
  leave the 64-bit range and the bytes are then recorded, the location's total is still at most
  its quota.\<close>

theorem Check_enforces_quota:
  assumes "GetLocation structure l = Inr loc" and "loc_QuotaBytes loc \<noteq> 0"
    and "Check structure stats l b = Inr ()"
    and "GetTotalUsage stats l = Inr n" and "is_i64 (n + b)"
    and "AddDelta stats now l user bucket b objs = Inr stats'"
  shows "\<exists>n'. GetTotalUsage stats' l = Inr n' \<and> n' \<le> loc_QuotaBytes loc"
proof (rule ledger.record_within [OF assms(6,4,5)])
  show "n + b \<le> loc_QuotaBytes loc"
    using assms by (auto simp: i64_id elim!: Check_Inr)
qed

definition demoStructure :: structureDB where
  "demoStructure = \<lparr>webdav_locations = [\<lparr>loc_ID = ''l'', loc_URL = ''http://h'',
       loc_Username = ''u'', loc_PasswordEnc = ''p'', loc_DisplayName = ''n'', loc_QuotaBytes = 100, loc_BaseDir = ''/'',
       loc_CreatedAt = 0\<rparr>], users = [], buckets = []\<rparr>"

lemma demoStructure_location:
  "\<exists>loc. GetLocation demoStructure ''l'' = Inr loc \<and> loc_QuotaBytes loc = 100"
  by (simp add: demoStructure_def GetLocation_def selectOne_def scanLocation_def)

theorem Check_enforces_quota_witness:
  "\<exists>stats' n'. AddDelta emptyUsageDB 0 ''l'' ''u'' ''b'' 60 1 = Inr stats'
     \<and> GetTotalUsage stats' ''l'' = Inr n' \<and> n' \<le> 100"
proof -
  obtain loc where loc: "GetLocation demoStructure ''l'' = Inr loc" "loc_QuotaBytes loc = 100"
    using demoStructure_location by blast
  have t: "GetTotalUsage emptyUsageDB ''l'' = Inr 0"
    by (simp add: GetTotalUsage_def emptyUsageDB_def deltasOf_def)
  have r: "is_i64 (0 + 60)" by (simp add: is_i64_def)
  have c: "Check demoStructure emptyUsageDB ''l'' 60 = Inr ()"
    by (simp add: Check_def loc t i64_id r [simplified])
  have "\<exists>stats'. AddDelta emptyUsageDB 0 ''l'' ''u'' ''b'' 60 1 = Inr stats'"
    by (simp add: AddDelta_def insertDelta_def emptyUsageDB_def)
  then obtain stats' where a: "AddDelta emptyUsageDB 0 ''l'' ''u'' ''b'' 60 1 = Inr stats'" by blast
  have "loc_QuotaBytes loc \<noteq> 0" by (simp add: loc)
  from Check_enforces_quota [OF loc(1) this c t r a] a show ?thesis by (auto simp: loc)
qed

text \<open>A write so large that usage plus its size passes the largest \<open>int64\<close> is admitted: the
  wrapped sum is negative and below any quota.\<close>

theorem Check_overflow_admits:
  assumes "GetLocation structure l = Inr loc" and "0 \<le> loc_QuotaBytes loc"
    and "GetTotalUsage stats l = Inr n" and "is_i64 b" and "n + b \<ge> 2 ^ 63"
  shows "Check structure stats l b = Inr ()"
proof -
  have "is_i64 n" using assms(3) by (rule GetTotalUsage_i64)
  then have lt: "n + b < 2 ^ 64" using assms(4) by (simp add: is_i64_def)
  then have "i64 (n + b) = n + b - 2 ^ 64" using assms(5) by (intro i64_over) simp_all
  with lt have "i64 (n + b) < 0" by simp
  with assms(2) have "\<not> i64 (n + b) > loc_QuotaBytes loc" by linarith
  then show ?thesis by (simp add: Check_def assms)
qed

theorem Check_overflow_admits_witness:
  "\<exists>stats. GetTotalUsage stats ''l'' = Inr 1 \<and> Check demoStructure stats ''l'' (2 ^ 63 - 1) = Inr ()"
proof -
  obtain loc where loc: "GetLocation demoStructure ''l'' = Inr loc" "loc_QuotaBytes loc = 100"
    using demoStructure_location by blast
  let ?s = "\<lparr>usage_delta = [\<lparr>ud_id = 1, ud_webdav_location_id = ''l'', ud_user_id = ''u'',
     ud_bucket_id = ''b'', ud_bytes_delta = 1, ud_object_count_delta = 1, ud_ts = 9,
     ud_source_file = [], ud_source_row_id = 0\<rparr>], usage_seq = 1\<rparr>"
  have t: "GetTotalUsage ?s ''l'' = Inr 1" by (simp add: GetTotalUsage_def deltasOf_def is_i64_def)
  have "is_i64 (2 ^ 63 - 1)" by (simp add: is_i64_def)
  from Check_overflow_admits [OF loc(1) _ t this] loc(2) t show ?thesis by (intro exI [of _ ?s]) simp
qed

end
