(* ===== verification/Daemon.thy ===== *)
theory Daemon
  imports WebDAV LRU Repair Quota
begin

text \<open>
  The state the services of the daemon share, and the pieces of \<open>internal/object\<close> both of its
  services use: opening a bucket database through the cache, uploading it after a change
  (\<open>syncBucketDB\<close>), the write gate, and fresh identifiers.

  A daemon has the world outside, the two databases it keeps open, the local file of each
  bucket database, the order of the cache, and the repair manager. The local file of a bucket is
  missing, or does not open, or holds a database. With no \<open>LocalCacheDir\<close> a bucket database is
  \<open>:memory:\<close>: opening it gives an empty one, so what the cache closes is gone.
\<close>

record 'w daemon =
  d_world :: 'w
  d_structure :: structureDB
  d_stats :: usageDB
  d_bdb :: "string \<Rightarrow> (gerr + bucketDB) option"
  d_cache :: "string list"
  d_repair :: Manager

text \<open>The fields of \<open>objectService\<close> and \<open>multipartService\<close> that do not change.\<close>

record 'w svc =
  svc_env :: "'w env"
  svc_wdc :: "'w Client"
  svc_cacheDir :: string
  svc_cap :: int
  svc_mp :: bool
  svc_chunkThresholdBytes :: int
  svc_chunkSizeBytes :: int
  svc_repair :: bool

definition onWorld :: "('w, 'a) act \<Rightarrow> ('w daemon, 'a) act" where
  "onWorld m s = (case m (d_world s) of (r, w') \<Rightarrow> (r, s\<lparr>d_world := w'\<rparr>))"

definition os :: "'w svc \<Rightarrow> string \<Rightarrow> ('w daemon, unit) act" where
  "os S label = onWorld (env_os (svc_env S) label)"

definition wdc :: "'w svc \<Rightarrow> ('w Client \<Rightarrow> ('w, 'a) act) \<Rightarrow> ('w daemon, 'a) act" where
  "wdc S m = onWorld (m (svc_wdc S))"

definition timeNow :: "'w svc \<Rightarrow> ('w daemon, gotime) act" where
  "timeNow S = onWorld (env_now (svc_env S))"

section \<open>The databases\<close>

text \<open>
  A method of \<open>StructureDB\<close>, \<open>StatsDB\<close> or \<open>BucketDB\<close>: the driver may fail (\<open>os\<close>), then nothing
  has changed; else it has the effect modelled in the theory of the database.
\<close>

definition askStructure :: "'w svc \<Rightarrow> string \<Rightarrow> (structureDB \<Rightarrow> gerr + 'a) \<Rightarrow> ('w daemon, 'a) act" where
  "askStructure S label f = thn (os S label) (\<lambda>s. (f (d_structure s), s))"

definition changeStructure :: "'w svc \<Rightarrow> string \<Rightarrow> (structureDB \<Rightarrow> gerr + structureDB) \<Rightarrow> ('w daemon, unit) act" where
  "changeStructure S label f = thn (os S label)
     (\<lambda>s. case f (d_structure s) of Inl e \<Rightarrow> (Inl e, s) | Inr db \<Rightarrow> (Inr (), s\<lparr>d_structure := db\<rparr>))"

definition addDelta :: "'w svc \<Rightarrow> string \<Rightarrow> string \<Rightarrow> string \<Rightarrow> int \<Rightarrow> int \<Rightarrow> ('w daemon, unit) act" where
  "addDelta S locationID userID bucketID nbytes objs =
     bnd (timeNow S) (\<lambda>now. thn (os S ''stats.AddDelta'')
       (\<lambda>s. case AddDelta (d_stats s) now locationID userID bucketID nbytes objs of
              Inl e \<Rightarrow> (Inl e, s)
            | Inr db \<Rightarrow> (Inr (), s\<lparr>d_stats := db\<rparr>)))"

definition bdbOf :: "'w daemon \<Rightarrow> string \<Rightarrow> bucketDB" where
  "bdbOf s ident = (case d_bdb s ident of Some (Inr b) \<Rightarrow> b | _ \<Rightarrow> emptyBucketDB)"

definition setBdb :: "'w daemon \<Rightarrow> string \<Rightarrow> bucketDB \<Rightarrow> 'w daemon" where
  "setBdb s ident b = s\<lparr>d_bdb := (d_bdb s)(ident \<mapsto> Inr b)\<rparr>"

definition askBucket :: "'w svc \<Rightarrow> string \<Rightarrow> string \<Rightarrow> (bucketDB \<Rightarrow> gerr + 'a) \<Rightarrow> ('w daemon, 'a) act" where
  "askBucket S ident label f = thn (os S label) (\<lambda>s. (f (bdbOf s ident), s))"

definition changeBucket ::
  "'w svc \<Rightarrow> string \<Rightarrow> string \<Rightarrow> (bucketDB \<Rightarrow> gerr + bucketDB) \<Rightarrow> ('w daemon, unit) act" where
  "changeBucket S ident label f = thn (os S label)
     (\<lambda>s. case f (bdbOf s ident) of Inl e \<Rightarrow> (Inl e, s) | Inr b \<Rightarrow> (Inr (), setBdb s ident b))"

section \<open>The cache\<close>

text \<open>
  The factory \<open>main.go\<close> gives the cache: \<open>OpenBucketDB\<close> of the local file, which makes it if it
  is missing, or of \<open>:memory:\<close>.
\<close>

definition openBucket :: "'w svc \<Rightarrow> string \<Rightarrow> ('w daemon, unit) act" where
  "openBucket S ident =
     thn (os S ''OpenBucketDB'')
       (\<lambda>s. if svc_cacheDir S = [] then (Inr (), setBdb s ident emptyBucketDB)
            else case d_bdb s ident of
                   None \<Rightarrow> (Inr (), setBdb s ident emptyBucketDB)
                 | Some (Inl e) \<Rightarrow> (Inl e, s)
                 | Some (Inr b) \<Rightarrow> (Inr (), s))"

definition cacheGet :: "'w svc \<Rightarrow> string \<Rightarrow> ('w daemon, unit) act" where
  "cacheGet S ident =
     bnd (gets (\<lambda>s. ident \<in> set (d_cache s))) (\<lambda>cached.
     thn (if cached then ret () else openBucket S ident)
       (modify (\<lambda>s. s\<lparr>d_cache := snd (lruGet (svc_cap S) (d_cache s) ident)\<rparr>)))"

definition cacheRemove :: "string \<Rightarrow> ('w daemon, unit) act" where
  "cacheRemove ident = modify (\<lambda>s. s\<lparr>d_cache := lruRemove (d_cache s) ident\<rparr>)"

section \<open>Shared by the services\<close>

definition metaPath :: "string \<Rightarrow> string \<Rightarrow> string" where
  "metaPath baseDir bucketID = baseDir @ ''_meta/'' @ bucketID @ ''.db''"

definition syncBucketDB :: "'w svc \<Rightarrow> string \<Rightarrow> string \<Rightarrow> ('w daemon, unit) act" where
  "syncBucketDB S bucketID baseDir =
     thn (wrapE (wrapAs ''create temp for sync'') (os S ''CreateTemp''))
    (thn (wrapE (wrapAs ''save bucket db'') (os S ''bdb.SaveToFile''))
    (bnd (gets (\<lambda>s. env_saveBucket (svc_env S) (bdbOf s bucketID))) (\<lambda>file.
       wdc S (\<lambda>c. cl_UploadFromFile c (metaPath baseDir bucketID) file))))"

definition markRepairing :: "'w svc \<Rightarrow> string \<Rightarrow> string \<Rightarrow> ('w daemon, unit) act" where
  "markRepairing S bucketID reason =
     (if svc_repair S then modify (\<lambda>s. s\<lparr>d_repair := snd (MarkRepairing (d_repair s) bucketID reason)\<rparr>)
      else ret ())"

text \<open>The branch every writer takes when the upload of the changed database fails.\<close>

definition syncOrRepair :: "'w svc \<Rightarrow> string \<Rightarrow> string \<Rightarrow> (gerr \<Rightarrow> gerr) \<Rightarrow> ('w daemon, unit) act" where
  "syncOrRepair S bucketID baseDir g =
     orElse (syncBucketDB S bucketID baseDir)
       (\<lambda>e. thn (markRepairing S bucketID (errText e)) (fail (g e)))"

definition checkWriteAllowed :: "'w svc \<Rightarrow> string \<Rightarrow> ('w daemon, unit) act" where
  "checkWriteAllowed S bucketID =
     (if svc_repair S then (\<lambda>s. (CheckWrite (d_repair s) bucketID, s)) else ret ())"

text \<open>\<open>newUUID\<close> of \<open>object/service.go\<close> and \<open>bucket/service.go\<close>; a failing random source panics.\<close>

definition uuidText :: "bytes \<Rightarrow> string" where
  "uuidText buf =
     (let b = buf[6 := char_of ((of_char (buf ! 6) :: nat) mod 16 + 64),
                  8 := char_of ((of_char (buf ! 8) :: nat) mod 64 + 128)] in
      hexEncode (take 4 b) @ ''-'' @ hexEncode (take 2 (drop 4 b)) @ ''-'' @ hexEncode (take 2 (drop 6 b))
      @ ''-'' @ hexEncode (take 2 (drop 8 b)) @ ''-'' @ hexEncode (take 6 (drop 10 b)))"

definition newUUID :: "'w svc \<Rightarrow> ('w daemon, string) act" where
  "newUUID S =
     bnd (orElse (onWorld (env_rand (svc_env S) 16)) (\<lambda>e. fail (EAbort (''newUUID: '' @ errText e))))
       (\<lambda>buf. ret (uuidText buf))"

end
