(* ===== verification/Multipart.thy ===== *)
theory Multipart
  imports Daemon
begin

text \<open>
  \<open>internal/object/multipart.go\<close>: the life cycle of a multipart upload. Every operation is the
  whole method, with its guards in the order of the source; an error the source ignores with
  \<open>_ =\<close> is ignored here by \<open>attempt\<close>.
\<close>

record CompletePart =
  cp_PartNumber :: int
  cp_ETag :: string

definition quoted :: "string \<Rightarrow> string" where
  "quoted x = [CHR 0x22] @ x @ [CHR 0x22]"

definition bucketByName :: "'w svc \<Rightarrow> string \<Rightarrow> ('w daemon, Bucket) act" where
  "bucketByName S bucketName =
     wrapE (wrapAs (''bucket '' @ fmtQ bucketName @ '' not found''))
       (askStructure S ''structure.GetBucket'' (\<lambda>d. GetBucket d bucketName))"

definition locationOf :: "'w svc \<Rightarrow> Bucket \<Rightarrow> ('w daemon, Location) act" where
  "locationOf S bkt =
     wrapE (wrapAs ''get location'')
       (askStructure S ''structure.GetLocation'' (\<lambda>d. GetLocation d (bkt_WebDAVLocationID bkt)))"

definition openCached :: "'w svc \<Rightarrow> string \<Rightarrow> ('w daemon, unit) act" where
  "openCached S bucketID = wrapE (wrapAs ''open bucket db'') (cacheGet S bucketID)"

definition Create :: "'w svc \<Rightarrow> string \<Rightarrow> string \<Rightarrow> string \<Rightarrow> ('w daemon, string) act" where
  "Create S bucketName key contentType =
     bnd (bucketByName S bucketName) (\<lambda>bkt.
     thn (checkWriteAllowed S (bkt_ID bkt))
    (thn (openCached S (bkt_ID bkt))
    (bnd (newUUID S) (\<lambda>uploadID.
     bnd (timeNow S) (\<lambda>now.
     thn (wrapE (wrapAs ''create multipart upload record'')
           (changeBucket S (bkt_ID bkt) ''bdb.CreateMultipartUpload'' (\<lambda>b. CreateMultipartUpload b
              \<lparr>mpu_ID = uploadID, mpu_Key = key, mpu_ContentType = contentType, mpu_Initiated = now\<rparr>)))
    (bnd (locationOf S bkt) (\<lambda>loc.
     thn (syncOrRepair S (bkt_ID bkt) (loc_BaseDir loc) (wrapAs ''sync bucket db''))
         (ret uploadID))))))))"

text \<open>
  \<open>uploadPartDirect\<close>: the body goes through a pipe to the upload and is hashed on the way. When
  the body breaks off, the upload sees the error, the file is deleted and the error of the body
  is reported; when the upload fails, its error is (the copy loop may see the closed pipe first
  and report that instead, with the same effect).
\<close>

definition uploadPartDirect :: "'w svc \<Rightarrow> stream \<Rightarrow> int \<Rightarrow> string \<Rightarrow> ('w daemon, string \<times> int) act" where
  "uploadPartDirect S body sz destPath =
     bnd (attempt (wdc S (\<lambda>c. cl_Upload c destPath body sz))) (\<lambda>up.
       case snd body of
         Some e \<Rightarrow>
           if aborts e then fail e
           else thn (attempt (wdc S (\<lambda>c. cl_Delete c destPath))) (fail (wrapAs ''stream part body'' e))
       | None \<Rightarrow>
           (case up of
              Inl ue \<Rightarrow> thn (attempt (wdc S (\<lambda>c. cl_Delete c destPath)))
                          (fail (wrapAs ''upload part to webdav'' ue))
            | Inr _ \<Rightarrow> ret (hexEncode (env_md5 (svc_env S) (fst body)), int (length (fst body)))))"

definition UploadPart ::
  "'w svc \<Rightarrow> string \<Rightarrow> string \<Rightarrow> string \<Rightarrow> int \<Rightarrow> int \<Rightarrow> stream \<Rightarrow> ('w daemon, string) act" where
  "UploadPart S bucketName key uploadID partNum sz body =
     bnd (bucketByName S bucketName) (\<lambda>bkt.
     thn (checkWriteAllowed S (bkt_ID bkt))
    (thn (openCached S (bkt_ID bkt))
    (thn (orElse (askBucket S (bkt_ID bkt) ''bdb.GetMultipartUpload'' (\<lambda>b. GetMultipartUpload b uploadID))
           (\<lambda>_. fail (EWrap [] (ESent ErrUploadNotFound) ('': '' @ uploadID))))
    (bnd (locationOf S bkt) (\<lambda>loc.
     let dirPath = loc_BaseDir loc @ ''_parts/'' @ uploadID;
         partPath = dirPath @ ''/'' @ fmtD partNum in
     thn (wrapE (wrapAs (''mkdir '' @ dirPath)) (wdc S (\<lambda>c. cl_MkdirAll c dirPath)))
    (bnd (wrapE (wrapAs (''upload part '' @ fmtD partNum)) (uploadPartDirect S body sz partPath)) (\<lambda>(md5Hex, written).
     let etag = quoted md5Hex in
     thn (wrapE (wrapAs ''add part record'')
           (changeBucket S (bkt_ID bkt) ''bdb.AddPart'' (\<lambda>b. Inr (AddPart b
              \<lparr>mpp_UploadID = uploadID, mpp_PartNumber = partNum, mpp_HashPath = partPath,
               mpp_SizeBytes = written, mpp_ETag = etag\<rparr>))))
    (thn (syncOrRepair S (bkt_ID bkt) (loc_BaseDir loc) (wrapAs ''sync bucket db''))
         (ret etag)))))))))"

section \<open>Completion\<close>

fun rawDigests :: "CompletePart list \<Rightarrow> (int \<rightharpoonup> string) \<Rightarrow> gerr + bytes" where
  "rawDigests [] m = Inr []"
| "rawDigests (cp # cps) m =
     (let raw = trimSet (case m (cp_PartNumber cp) of None \<Rightarrow> [] | Some t \<Rightarrow> t) [CHR 0x22] in
      case hexDecode raw of
        None \<Rightarrow> Inl (wrapAs (''decode part '' @ fmtD (cp_PartNumber cp) @ '' etag'')
                      (EExt None ''encoding/hex: invalid input''))
      | Some b \<Rightarrow> (case rawDigests cps m of Inl e \<Rightarrow> Inl e | Inr bs \<Rightarrow> Inr (b @ bs)))"

definition multipartETag :: "(bytes \<Rightarrow> bytes) \<Rightarrow> CompletePart list \<Rightarrow> (int \<rightharpoonup> string) \<Rightarrow> gerr + string" where
  "multipartETag md5 parts partETagMap =
     (case rawDigests parts partETagMap of
        Inl e \<Rightarrow> Inl e
      | Inr bs \<Rightarrow> Inr (quoted (hexEncode (md5 bs) @ ''-'' @ fmtD (int (length parts)))))"

definition storedMap :: "MultipartPart list \<Rightarrow> int \<rightharpoonup> MultipartPart" where
  "storedMap ps = map_of (rev (map (\<lambda>p. (mpp_PartNumber p, p)) ps))"

text \<open>The validation loop: the etags so far, the chunk manifest, and the total size (an \<open>int64\<close>).\<close>

fun checkParts ::
  "(int \<rightharpoonup> MultipartPart) \<Rightarrow> CompletePart list \<Rightarrow> (int \<rightharpoonup> string) \<Rightarrow> ChunkRef list \<Rightarrow> int
     \<Rightarrow> gerr + ((int \<rightharpoonup> string) \<times> ChunkRef list \<times> int)" where
  "checkParts stored [] etags chunks tot = Inr (etags, chunks, tot)"
| "checkParts stored (cp # cps) etags chunks tot =
     (case stored (cp_PartNumber cp) of
        None \<Rightarrow> Inl (wrapAs (''part '' @ fmtD (cp_PartNumber cp)) (ESent ErrPartNotFound))
      | Some sp \<Rightarrow>
          if cp_ETag cp \<noteq> mpp_ETag sp
          then Inl (wrapAs (''part '' @ fmtD (cp_PartNumber cp)) (ESent ErrPartETagMismatch))
          else checkParts stored cps (etags(cp_PartNumber cp \<mapsto> mpp_ETag sp))
                 (chunks @ [\<lparr>chk_PartNumber = cp_PartNumber cp, chk_Path = mpp_HashPath sp,
                             chk_Size = mpp_SizeBytes sp, chk_MD5Hex = trimSet (mpp_ETag sp) [CHR 0x22]\<rparr>])
                 (i64 (tot + mpp_SizeBytes sp)))"

definition Complete ::
  "'w svc \<Rightarrow> string \<Rightarrow> string \<Rightarrow> string \<Rightarrow> CompletePart list \<Rightarrow> ('w daemon, Object) act" where
  "Complete S bucketName key uploadID parts =
     bnd (bucketByName S bucketName) (\<lambda>bkt.
     thn (checkWriteAllowed S (bkt_ID bkt))
    (thn (openCached S (bkt_ID bkt))
    (bnd (orElse (askBucket S (bkt_ID bkt) ''bdb.GetMultipartUpload'' (\<lambda>b. GetMultipartUpload b uploadID))
           (\<lambda>_. fail (EWrap [] (ESent ErrUploadNotFound) ('': '' @ uploadID)))) (\<lambda>upload.
     let inOrder = sort_key cp_PartNumber parts in
     bnd (wrapE (wrapAs ''list parts'')
           (askBucket S (bkt_ID bkt) ''bdb.ListParts'' (\<lambda>b. Inr (ListParts b uploadID)))) (\<lambda>storedParts.
     bnd (liftE (checkParts (storedMap storedParts) inOrder Map.empty [] 0)) (\<lambda>(etagMap, chunks, totalSize).
     bnd (wrapE (wrapAs ''compute etag'') (liftE (multipartETag (env_md5 (svc_env S)) inOrder etagMap))) (\<lambda>etag.
     let contentType = (if mpu_ContentType upload = [] then ''application/octet-stream''
                        else mpu_ContentType upload) in
     bnd (newUUID S) (\<lambda>oid.
     bnd (timeNow S) (\<lambda>now.
     let obj = \<lparr>obj_ID = oid, obj_Key = key, obj_HashPath = [], obj_SizeBytes = totalSize,
                obj_ETag = etag, obj_ContentType = contentType, obj_LastModified = now,
                obj_UploadComplete = True, obj_Chunks = chunks\<rparr> in
     thn (wrapE (wrapAs ''complete multipart record'')
           (changeBucket S (bkt_ID bkt) ''bdb.CompleteMultipartUpload''
              (\<lambda>b. CompleteMultipartUpload b uploadID obj)))
    (bnd (locationOf S bkt) (\<lambda>loc.
     thn (syncOrRepair S (bkt_ID bkt) (loc_BaseDir loc) (wrapAs ''sync bucket db''))
    (thn (attempt (addDelta S (bkt_WebDAVLocationID bkt) (bkt_OwnerUserID bkt) (bkt_ID bkt) totalSize 1))
         (ret obj)))))))))))))"

fun deletePaths :: "'w svc \<Rightarrow> string list \<Rightarrow> ('w daemon, unit) act" where
  "deletePaths S [] = ret ()"
| "deletePaths S (p # ps) = thn (attempt (wdc S (\<lambda>c. cl_Delete c p))) (deletePaths S ps)"

definition Abort :: "'w svc \<Rightarrow> string \<Rightarrow> string \<Rightarrow> ('w daemon, unit) act" where
  "Abort S bucketName uploadID =
     bnd (bucketByName S bucketName) (\<lambda>bkt.
     thn (checkWriteAllowed S (bkt_ID bkt))
    (thn (openCached S (bkt_ID bkt))
    (thn (orElse (askBucket S (bkt_ID bkt) ''bdb.GetMultipartUpload'' (\<lambda>b. GetMultipartUpload b uploadID))
           (\<lambda>_. fail (EWrap [] (ESent ErrUploadNotFound) ('': '' @ uploadID))))
    (bnd (attempt (askBucket S (bkt_ID bkt) ''bdb.ListParts'' (\<lambda>b. Inr (ListParts b uploadID)))) (\<lambda>parts.
     thn (deletePaths S (map mpp_HashPath (case parts of Inl _ \<Rightarrow> [] | Inr ps \<Rightarrow> ps)))
    (thn (wrapE (wrapAs ''abort multipart record'')
           (changeBucket S (bkt_ID bkt) ''bdb.AbortMultipartUpload'' (\<lambda>b. Inr (AbortMultipartUpload b uploadID))))
    (bnd (locationOf S bkt) (\<lambda>loc.
       syncOrRepair S (bkt_ID bkt) (loc_BaseDir loc) (\<lambda>e. e)))))))))"

definition ListUploads :: "'w svc \<Rightarrow> string \<Rightarrow> ('w daemon, MultipartUpload list) act" where
  "ListUploads S bucketName =
     bnd (bucketByName S bucketName) (\<lambda>bkt.
     thn (openCached S (bkt_ID bkt))
         (askBucket S (bkt_ID bkt) ''bdb.ListMultipartUploads'' (\<lambda>b. Inr (ListMultipartUploads b))))"

definition mpListParts :: "'w svc \<Rightarrow> string \<Rightarrow> string \<Rightarrow> ('w daemon, MultipartPart list) act" where
  "mpListParts S bucketName uploadID =
     bnd (bucketByName S bucketName) (\<lambda>bkt.
     thn (openCached S (bkt_ID bkt))
         (askBucket S (bkt_ID bkt) ''bdb.ListParts'' (\<lambda>b. Inr (ListParts b uploadID))))"

end
