(* ===== verification/Base64.thy ===== *)
theory Base64
  imports Prelude
begin

text \<open>
  \<open>base64.StdEncoding\<close> of the Go standard library: what the listing's continuation tokens and the
  encryption key use. \<open>DecodeString\<close> skips line breaks and refuses anything else that is not a
  sequence of padded groups of four; it does not look at the bits a padded group leaves over.
\<close>

definition b64Alphabet :: string where
  "b64Alphabet = ''ABCDEFGHIJKLMNOPQRSTUVWXYZabcdefghijklmnopqrstuvwxyz0123456789+/''"

definition b64Char :: "nat \<Rightarrow> char" where
  "b64Char n = b64Alphabet ! n"

fun base64Encode :: "bytes \<Rightarrow> string" where
  "base64Encode [] = []"
| "base64Encode [x] =
     (let a = of_char x :: nat in [b64Char (a div 4), b64Char (a mod 4 * 16), CHR ''='', CHR ''=''])"
| "base64Encode [x, y] =
     (let a = of_char x :: nat; b = of_char y in
      [b64Char (a div 4), b64Char (a mod 4 * 16 + b div 16), b64Char (b mod 16 * 4), CHR ''=''])"
| "base64Encode (x # y # z # r) =
     (let a = of_char x :: nat; b = of_char y; c = of_char z in
      [b64Char (a div 4), b64Char (a mod 4 * 16 + b div 16), b64Char (b mod 16 * 4 + c div 64),
       b64Char (c mod 64)] @ base64Encode r)"

definition b64Val :: "char \<Rightarrow> nat option" where
  "b64Val c =
     (let n = of_char c :: nat in
      if 65 \<le> n \<and> n \<le> 90 then Some (n - 65)
      else if 97 \<le> n \<and> n \<le> 122 then Some (n - 71)
      else if 48 \<le> n \<and> n \<le> 57 then Some (n + 4)
      else if n = 43 then Some 62 else if n = 47 then Some 63 else None)"

fun b64Groups :: "string \<Rightarrow> bytes option" where
  "b64Groups [] = Some []"
| "b64Groups (p # q # r # s # rest) =
     (case (b64Val p, b64Val q) of
        (Some a, Some b) \<Rightarrow>
          if r = CHR ''='' then
            (if s = CHR ''='' \<and> rest = [] then Some [char_of (a * 4 + b div 16)] else None)
          else (case b64Val r of
                  None \<Rightarrow> None
                | Some c \<Rightarrow>
                    if s = CHR ''='' then
                      (if rest = [] then Some [char_of (a * 4 + b div 16), char_of (b mod 16 * 16 + c div 4)]
                       else None)
                    else (case (b64Val s, b64Groups rest) of
                            (Some d, Some bs) \<Rightarrow>
                              Some (char_of (a * 4 + b div 16) # char_of (b mod 16 * 16 + c div 4)
                                    # char_of (c mod 4 * 64 + d) # bs)
                          | _ \<Rightarrow> None))
      | _ \<Rightarrow> None)"
| "b64Groups _ = None"

definition base64Decode :: "string \<Rightarrow> bytes option" where
  "base64Decode s = b64Groups (filter (\<lambda>c. c \<noteq> CHR 0x0A \<and> c \<noteq> CHR 0x0D) s)"

lemma b64_table: "map b64Val b64Alphabet = map Some [0..<64]"
  by (simp add: b64Alphabet_def b64Val_def Let_def upt_rec)

lemma b64_clean: "CHR ''='' \<notin> set b64Alphabet" "CHR 0x0A \<notin> set b64Alphabet" "CHR 0x0D \<notin> set b64Alphabet"
  by (simp_all add: b64Alphabet_def)

lemma length_b64Alphabet: "length b64Alphabet = 64"
  by (simp add: b64Alphabet_def)

lemma b64Char_facts:
  assumes "n < 64"
  shows "b64Val (b64Char n) = Some n" "b64Char n \<noteq> CHR ''=''" "b64Char n \<noteq> CHR 0x0A" "b64Char n \<noteq> CHR 0x0D"
proof -
  have "map b64Val b64Alphabet ! n = Some n" using assms by (simp add: b64_table)
  then show "b64Val (b64Char n) = Some n" using assms by (simp add: b64Char_def length_b64Alphabet)
  have "b64Char n \<in> set b64Alphabet" using assms by (simp add: b64Char_def length_b64Alphabet)
  with b64_clean show "b64Char n \<noteq> CHR ''=''" "b64Char n \<noteq> CHR 0x0A" "b64Char n \<noteq> CHR 0x0D" by metis+
qed

lemma byte_bounds:
  "(of_char (x :: char) :: nat) div 4 < 64" "(of_char (x :: char) :: nat) div 16 < 16"
  "(of_char (x :: char) :: nat) div 64 < 4"
  using nat_of_char_less_256 [of x] by (simp_all add: less_mult_imp_div_less del: nat_of_char_less_256)

lemma group_bounds:
  "a mod 4 * 16 < (64 :: nat)" "b < 16 \<Longrightarrow> a mod 4 * 16 + b < (64 :: nat)"
  "b mod 16 * 4 < (64 :: nat)" "c < 4 \<Longrightarrow> b mod 16 * 4 + c < (64 :: nat)" "c' mod 64 < (64 :: nat)"
  using mod_less_divisor [of 4 a] mod_less_divisor [of 16 b] by simp_all

lemma base64Encode_clean:
  "filter (\<lambda>c. c \<noteq> CHR 0x0A \<and> c \<noteq> CHR 0x0D) (base64Encode bs) = base64Encode bs"
  by (induction bs rule: base64Encode.induct)
    (simp_all add: Let_def b64Char_facts byte_bounds group_bounds)

lemma char_of_of_char: "n = of_char c \<Longrightarrow> char_of (n :: nat) = c"
  by simp

lemma base64Groups_encode: "b64Groups (base64Encode bs) = Some bs"
proof (induction bs rule: base64Encode.induct)
  case 1
  then show ?case by simp
next
  case (2 x)
  have "of_char x div 4 * 4 + of_char x mod 4 * 16 div 16 = (of_char x :: nat)" by simp
  then show ?case by (simp add: Let_def b64Char_facts byte_bounds group_bounds)
next
  case (3 x y)
  then show ?case by (simp add: Let_def b64Char_facts byte_bounds group_bounds)
next
  case (4 x y z r)
  then show ?case by (simp add: Let_def b64Char_facts byte_bounds group_bounds)
qed

theorem base64_roundtrip: "base64Decode (base64Encode bs) = Some bs"
  by (simp add: base64Decode_def base64Encode_clean base64Groups_encode)

end
