(* ===== verification/Object.thy ===== *)
theory Object
  imports Multipart Base64
begin

text \<open>
  \<open>internal/object/service.go\<close>: objects in a bucket, with their contents on the WebDAV server. A
  small object is one content-addressed file under \<open>_data/\<close>; a large one is split and goes
  through the multipart service, its chunks staying under \<open>_parts/\<close>.
\<close>

section \<open>Start-up\<close>

text \<open>
  \<open>cleanupStaleTempFiles\<close>: the files it removes, given what the cache directory lists (an error,
  or names with their modification times where those are known) and the time.
\<close>

definition tempFileCleanupAge :: int where
  "tempFileCleanupAge = 5 * 60 * 1000000000"

definition cleanupStaleTempFiles ::
  "string \<Rightarrow> gerr + (string \<times> (gerr + gotime)) list \<Rightarrow> gotime \<Rightarrow> string list" where
  "cleanupStaleTempFiles cacheDir listing now =
     (if cacheDir = [] then []
      else case listing of
             Inl e \<Rightarrow> []
           | Inr entries \<Rightarrow>
               (let cutoff = now - tempFileCleanupAge in
                map fst (filter (\<lambda>(name, info). hasPrefix name ''put-'' \<and> hasSuffix name ''.bin''
                    \<and> (case info of Inl e \<Rightarrow> False | Inr modTime \<Rightarrow> modTime < cutoff)) entries)))"

section \<open>Writing\<close>

text \<open>
  The part loop of \<open>putChunked\<close>: \<open>data\<close> is what remains of the temporary file, \<open>remaining\<close> its
  length. A failing read of the file shows up inside the part upload.
\<close>

function putParts ::
  "'w svc \<Rightarrow> string \<Rightarrow> string \<Rightarrow> string \<Rightarrow> nat \<Rightarrow> int \<Rightarrow> bytes \<Rightarrow> CompletePart list
     \<Rightarrow> ('w daemon, CompletePart list) act" where
  "putParts S bucketName key uploadID chunkSize partNum data done =
     (if data = [] \<or> chunkSize = 0 then ret done
      else (let part = take chunkSize data in
        bnd (attempt (os S ''read temp'')) (\<lambda>rd.
        bnd (orElse (UploadPart S bucketName key uploadID partNum (int (length part))
                       (part, case rd of Inl e \<Rightarrow> Some e | Inr _ \<Rightarrow> None))
               (\<lambda>e. thn (attempt (Abort S bucketName uploadID))
                        (fail (wrapAs (''upload part '' @ fmtD partNum) e)))) (\<lambda>etag.
        putParts S bucketName key uploadID chunkSize (partNum + 1) (drop chunkSize data)
          (done @ [\<lparr>cp_PartNumber = partNum, cp_ETag = etag\<rparr>])))))"
  by pat_completeness auto
termination
  by (relation "measure (\<lambda>(S, b, k, u, c, p, data, done). length data)") auto

declare putParts.simps [simp del]

definition defaultChunkSize :: int where
  "defaultChunkSize = 100 * 1024 * 1024"

definition putChunked ::
  "'w svc \<Rightarrow> string \<Rightarrow> string \<Rightarrow> string \<Rightarrow> bytes \<Rightarrow> ('w daemon, Object) act" where
  "putChunked S bucketName key contentType data =
     bnd (wrapE (wrapAs ''create multipart upload'') (Create S bucketName key contentType)) (\<lambda>uploadID.
     thn (orElse (os S ''open temp'')
           (\<lambda>e. thn (attempt (Abort S bucketName uploadID)) (fail (wrapAs ''open temp for chunked put'' e))))
    (let chunkSize = (if svc_chunkSizeBytes S \<le> 0 then defaultChunkSize else svc_chunkSizeBytes S) in
     bnd (putParts S bucketName key uploadID (nat chunkSize) 1 data []) (\<lambda>completeParts.
       orElse (Complete S bucketName key uploadID completeParts)
         (\<lambda>e. thn (attempt (Abort S bucketName uploadID))
                  (fail (wrapAs ''complete multipart upload'' e))))))"

definition dataPath :: "string \<Rightarrow> string \<Rightarrow> string" where
  "dataPath baseDir sha256Hex = baseDir @ ''_data/'' @ take 2 sha256Hex @ ''/'' @ sha256Hex"

definition findBucket :: "'w svc \<Rightarrow> string \<Rightarrow> ('w daemon, Bucket) act" where
  "findBucket S bucketName =
     orElse (askStructure S ''structure.GetBucket'' (\<lambda>d. GetBucket d bucketName))
       (\<lambda>_. fail (EWrap [] (ESent ErrBucketNotFound) ('': '' @ bucketName)))"

definition Put :: "'w svc \<Rightarrow> string \<Rightarrow> string \<Rightarrow> string \<Rightarrow> stream \<Rightarrow> ('w daemon, Object) act" where
  "Put S bucketName key contentType body =
     bnd (findBucket S bucketName) (\<lambda>bkt.
     thn (checkWriteAllowed S (bkt_ID bkt))
    (thn (wrapE (wrapAs ''create temp file'') (os S ''CreateTemp''))
    (thn (wrapE (wrapAs ''stream to temp'')
           (thn (os S ''write temp'') (case snd body of None \<Rightarrow> ret () | Some e \<Rightarrow> fail e)))
    (let data = fst body; written = int (length data) in
     if svc_chunkThresholdBytes S > 0 \<and> written > svc_chunkThresholdBytes S \<and> svc_mp S
     then putChunked S bucketName key contentType data
     else
       bnd (locationOf S bkt) (\<lambda>loc.
       let sha256Hex = hexEncode (env_sha256 (svc_env S) data);
           etag = quoted (hexEncode (env_md5 (svc_env S) data));
           hashPath = dataPath (loc_BaseDir loc) sha256Hex;
           dirPath = loc_BaseDir loc @ ''_data/'' @ take 2 sha256Hex in
       thn (wrapE (wrapAs (''mkdir '' @ dirPath)) (wdc S (\<lambda>c. cl_MkdirAll c dirPath)))
      (thn (wrapE (wrapAs ''upload to WebDAV'') (wdc S (\<lambda>c. cl_UploadFromFile c hashPath data)))
      (bnd (newUUID S) (\<lambda>oid.
       bnd (timeNow S) (\<lambda>now.
       let obj = \<lparr>obj_ID = oid, obj_Key = key, obj_HashPath = hashPath, obj_SizeBytes = written,
                  obj_ETag = etag, obj_ContentType = contentType, obj_LastModified = now,
                  obj_UploadComplete = True, obj_Chunks = []\<rparr> in
       thn (openCached S (bkt_ID bkt))
      (thn (wrapE (wrapAs ''put object record'')
             (changeBucket S (bkt_ID bkt) ''bdb.PutObject'' (\<lambda>b. PutObject b obj)))
      (thn (syncOrRepair S (bkt_ID bkt) (loc_BaseDir loc) (wrapAs ''sync bucket db''))
      (thn (attempt (addDelta S (bkt_WebDAVLocationID bkt) (bkt_OwnerUserID bkt) (bkt_ID bkt) written 1))
           (ret obj)))))))))))))"

section \<open>Reading\<close>

definition lookupObject :: "'w svc \<Rightarrow> string \<Rightarrow> string \<Rightarrow> ('w daemon, Object \<times> Bucket) act" where
  "lookupObject S bucketName key =
     bnd (findBucket S bucketName) (\<lambda>bkt.
     thn (openCached S (bkt_ID bkt))
    (bnd (orElse (askBucket S (bkt_ID bkt) ''bdb.GetObject'' (\<lambda>b. GetObject b key))
            (\<lambda>_. fail (EWrap [] (ESent ErrObjectNotFound) ('': '' @ key))))
       (\<lambda>obj. ret (obj, bkt))))"

text \<open>\<open>getChunked\<close>: one download per chunk, in order; the reader delivers them one after the other.\<close>

fun downloadChunks :: "'w svc \<Rightarrow> ChunkRef list \<Rightarrow> ('w daemon, bytes) act" where
  "downloadChunks S [] = ret []"
| "downloadChunks S (c # cs) =
     bnd (wrapE (wrapAs (''download chunk '' @ fmtD (chk_PartNumber c) @ '' ('' @ chk_Path c @ '')''))
            (wdc S (\<lambda>cl. cl_Download cl (chk_Path c)))) (\<lambda>d.
     bnd (downloadChunks S cs) (\<lambda>ds. ret (d @ ds)))"

definition getChunked :: "'w svc \<Rightarrow> Object \<Rightarrow> ('w daemon, Object \<times> bytes) act" where
  "getChunked S obj = bnd (downloadChunks S (obj_Chunks obj)) (\<lambda>data. ret (obj, data))"

definition Get :: "'w svc \<Rightarrow> string \<Rightarrow> string \<Rightarrow> ('w daemon, Object \<times> bytes) act" where
  "Get S bucketName key =
     bnd (lookupObject S bucketName key) (\<lambda>(obj, bkt).
       if obj_Chunks obj \<noteq> [] then getChunked S obj
       else bnd (wrapE (wrapAs (''download '' @ obj_HashPath obj))
                   (wdc S (\<lambda>c. cl_Download c (obj_HashPath obj)))) (\<lambda>data. ret (obj, data)))"

definition Head :: "'w svc \<Rightarrow> string \<Rightarrow> string \<Rightarrow> ('w daemon, Object) act" where
  "Head S bucketName key = bnd (lookupObject S bucketName key) (\<lambda>(obj, bkt). ret obj)"

section \<open>Deleting\<close>

text \<open>The loop over the other buckets of the location: true when one still refers to the file.\<close>

fun referencedElsewhere :: "'w svc \<Rightarrow> string \<Rightarrow> Bucket \<Rightarrow> Bucket list \<Rightarrow> ('w daemon, bool) act" where
  "referencedElsewhere S hashPath bkt [] = ret False"
| "referencedElsewhere S hashPath bkt (b # bs) =
     (if bkt_ID b = bkt_ID bkt \<or> bkt_WebDAVLocationID b \<noteq> bkt_WebDAVLocationID bkt
      then referencedElsewhere S hashPath bkt bs
      else thn (wrapE (wrapAs (''open bucket db '' @ bkt_ID b)) (cacheGet S (bkt_ID b)))
          (bnd (wrapE (wrapAs (''count refs in bucket '' @ bkt_ID b))
                  (askBucket S (bkt_ID b) ''bdb.CountByHashPath'' (\<lambda>d. Inr (CountByHashPath d hashPath)))) (\<lambda>n.
             if n > 0 then ret True else referencedElsewhere S hashPath bkt bs)))"

definition maybeDeleteDataFile :: "'w svc \<Rightarrow> string \<Rightarrow> Bucket \<Rightarrow> ('w daemon, unit) act" where
  "maybeDeleteDataFile S hashPath bkt =
     bnd (wrapE (wrapAs ''count refs in current bucket'')
            (askBucket S (bkt_ID bkt) ''bdb.CountByHashPath'' (\<lambda>d. Inr (CountByHashPath d hashPath)))) (\<lambda>count.
       if count > 0 then ret ()
       else bnd (wrapE (wrapAs ''list buckets'')
                   (askStructure S ''structure.ListBuckets'' (\<lambda>d. Inr (ListBuckets d)))) (\<lambda>allBuckets.
            bnd (referencedElsewhere S hashPath bkt allBuckets) (\<lambda>found.
              if found then ret ()
              else wrapE (wrapAs (''delete data file '' @ hashPath)) (wdc S (\<lambda>c. cl_Delete c hashPath)))))"

definition Delete :: "'w svc \<Rightarrow> string \<Rightarrow> string \<Rightarrow> ('w daemon, unit) act" where
  "Delete S bucketName key =
     bnd (lookupObject S bucketName key) (\<lambda>(obj, bkt).
     bnd (locationOf S bkt) (\<lambda>loc.
     thn (openCached S (bkt_ID bkt))
    (thn (wrapE (wrapAs ''delete object record'')
           (changeBucket S (bkt_ID bkt) ''bdb.DeleteObject'' (\<lambda>b. DeleteObject b key)))
    (thn (wrapE (wrapAs ''sync bucket db'') (syncBucketDB S (bkt_ID bkt) (loc_BaseDir loc)))
    (thn (attempt (addDelta S (bkt_WebDAVLocationID bkt) (bkt_OwnerUserID bkt) (bkt_ID bkt)
                     (i64 (- obj_SizeBytes obj)) (- 1)))
    (if obj_Chunks obj \<noteq> [] then deletePaths S (map chk_Path (obj_Chunks obj))
     else if obj_HashPath obj \<noteq> [] then
       thn (attempt (maybeDeleteDataFile S (obj_HashPath obj) bkt)) (ret ())
     else ret ()))))))"

section \<open>Listing\<close>

record ListResult =
  lr_Objects :: "Object list"
  lr_CommonPrefixes :: "string list"
  lr_IsTruncated :: bool
  lr_NextContinuationToken :: string

text \<open>The page made of what the database returned for one entry more than asked.\<close>

definition listPage :: "int \<Rightarrow> Object list \<Rightarrow> string list \<Rightarrow> ListResult" where
  "listPage maxKeys found cps =
     (let maxKeys = (if maxKeys \<le> 0 then 1000 else maxKeys) in
      if int (length found) + int (length cps) > maxKeys then
        (let (ro, rc) = (if int (length found) > maxKeys then (take (nat maxKeys) found, [])
                         else (found, take (nat (maxKeys - int (length found))) cps)) in
         \<lparr>lr_Objects = ro, lr_CommonPrefixes = rc, lr_IsTruncated = True,
          lr_NextContinuationToken =
            (if ro \<noteq> [] then base64Encode (obj_Key (last ro))
             else if rc \<noteq> [] then base64Encode (last rc) else [])\<rparr>)
      else \<lparr>lr_Objects = found, lr_CommonPrefixes = cps, lr_IsTruncated = False,
            lr_NextContinuationToken = []\<rparr>)"

definition startAfterOf :: "string \<Rightarrow> gerr + string" where
  "startAfterOf token =
     (if token = [] then Inr []
      else case base64Decode token of
             None \<Rightarrow> Inl (wrapAs ''invalid continuation token'' (EExt None ''illegal base64 data''))
           | Some k \<Rightarrow> Inr k)"

definition objectList ::
  "'w svc \<Rightarrow> string \<Rightarrow> string \<Rightarrow> string \<Rightarrow> string \<Rightarrow> int \<Rightarrow> ('w daemon, ListResult) act" where
  "objectList S bucketName pref delimiter continuationToken maxKeys =
     bnd (bucketByName S bucketName) (\<lambda>bkt.
     thn (openCached S (bkt_ID bkt))
    (bnd (liftE (startAfterOf continuationToken)) (\<lambda>startAfter.
     let fetchMax = i64 ((if maxKeys \<le> 0 then 1000 else maxKeys) + 1) in
     bnd (wrapE (wrapAs ''list objects'')
            (askBucket S (bkt_ID bkt) ''bdb.ListObjects'' (\<lambda>b. ListObjects b pref delimiter startAfter fetchMax)))
       (\<lambda>(found, cps). ret (listPage maxKeys found cps)))))"

end
