(* ===== verification/Server.thy ===== *)
theory Server
  imports WebDAV
begin

text \<open>
  The contract of a WebDAV server as a client sees it: a file store. What a call does to the file
  it names depends on its result; files whose path does not start with the named path are left
  alone, whatever the result (a collection is removed with what is in it, and an upload may go
  through a temporary name next to the file). The retrying client keeps the contract, so the
  services may rely on it whichever of the two they are given.
\<close>

definition quiet :: "('w \<Rightarrow> string \<rightharpoonup> bytes) \<Rightarrow> ('w, 'a) act \<Rightarrow> bool" where
  "quiet content m \<longleftrightarrow> (\<forall>w. content (snd (m w)) = content w)"

definition touches :: "('w \<Rightarrow> string \<rightharpoonup> bytes) \<Rightarrow> string \<Rightarrow> ('w, 'a) act \<Rightarrow> bool" where
  "touches content p m \<longleftrightarrow> (\<forall>w q. \<not> hasPrefix q p \<longrightarrow> content (snd (m w)) q = content w q)"

text \<open>A path is under another if it is that path or, when that is a collection, inside it.\<close>

definition atOrUnder :: "string \<Rightarrow> string \<Rightarrow> bool" where
  "atOrUnder q p \<longleftrightarrow> q = p \<or> hasPrefix q (trimSuffix p ''/'' @ ''/'')"

lemma under_hasPrefix: "atOrUnder q p \<Longrightarrow> hasPrefix q p"
  by (auto simp: atOrUnder_def trimSuffix_def hasPrefix_iff hasSuffix_iff split: if_splits)

locale webdav_server =
  fixes C :: "'w Client" and E :: "'w env" and content :: "'w \<Rightarrow> string \<rightharpoonup> bytes"
  assumes upload_file: "cl_UploadFromFile C p d w = (Inr (), w') \<Longrightarrow> content w' p = Some d"
    and upload_file_touches: "touches content p (cl_UploadFromFile C p d)"
    and upload: "cl_Upload C p (d, None) n w = (Inr (), w') \<Longrightarrow> content w' p = Some d"
    and upload_touches: "touches content p (cl_Upload C p body n)"
    and download: "cl_Download C p w = (Inr d, w') \<Longrightarrow> content w p = Some d"
    and download_file: "cl_DownloadToFile C p w = (Inr d, w') \<Longrightarrow> content w p = Some d"
    and delete_under: "\<not> atOrUnder q p \<Longrightarrow> content (snd (cl_Delete C p w)) q = content w q"
    and readdir_names: "cl_ReadDir C p w = (Inr ns, w') \<Longrightarrow> x \<in> set ns \<Longrightarrow> x \<noteq> [] \<and> CHR ''/'' \<notin> set x"
    and reads_quiet: "quiet content (cl_Download C p)" "quiet content (cl_DownloadToFile C p)"
      "quiet content (cl_Stat C p)" "quiet content (cl_ReadDir C p)" "quiet content (cl_MkdirAll C p)"
    and env_quiet: "quiet content (env_os E l)" "quiet content (env_now E)" "quiet content (env_rand E k)"
      "quiet content (env_sleep E i)"

context webdav_server
begin

lemma delete_touches: "touches content p (cl_Delete C p)"
  unfolding touches_def using delete_under under_hasPrefix by blast

end

text \<open>A server that can also move a file onto another, which the retrying client needs.\<close>

locale webdav_store = webdav_server +
  assumes rename: "cl_Rename C p q True w = (Inr (), w') \<Longrightarrow> content w' q = content w p"
    and rename_touches: "touches content p (cl_Rename C (p @ x) p True)"

lemma quietD: "quiet content m \<Longrightarrow> m w = (r, w') \<Longrightarrow> content w' = content w"
  unfolding quiet_def by (metis snd_conv)

lemma touchesD: "touches content p m \<Longrightarrow> m w = (r, w') \<Longrightarrow> \<not> hasPrefix q p \<Longrightarrow> content w' q = content w q"
  unfolding touches_def by (metis snd_conv)

lemma kept_quiet: "quiet content m \<Longrightarrow> kept (\<lambda>w. content w q = v) m"
  by (simp add: quiet_def kept_def)

lemma kept_touches: "touches content p m \<Longrightarrow> \<not> hasPrefix q p \<Longrightarrow> kept (\<lambda>w. content w q = v) m"
  by (simp add: touches_def kept_def)

lemma touchesI: "(\<And>q v. \<not> hasPrefix q p \<Longrightarrow> kept (\<lambda>w. content w q = v) m) \<Longrightarrow> touches content p m"
  by (auto simp: touches_def kept_def)

lemma touches_longer: "touches content (p @ x) m \<Longrightarrow> touches content p m"
  unfolding touches_def hasPrefix_iff by (metis append_assoc)

lemma uploadAttempts_Inr_upload:
  assumes "uploadAttempts E inner base p src n i le w = (Inr (), w')" and "n > 0 \<or> le \<noteq> None"
  shows "\<exists>w0 w1 info. cl_UploadFromFile inner p src w0 = (Inr (), w1) \<and> cl_Stat inner p w1 = (Inr info, w')"
  using assms
proof (induction n arbitrary: i le w)
  case 0
  then show ?case by (auto simp: fail_def)
next
  case (Suc n)
  let ?rest = "\<lambda>st. case st of
               Inl e \<Rightarrow> uploadAttempts E inner base p src n (Suc i) (Some (wrapAs ''stat after upload'' e))
             | Inr info \<Rightarrow>
                 if fi_Size info \<noteq> int (length src)
                 then uploadAttempts E inner base p src n (Suc i)
                        (Some (ENew (''upload size mismatch: expected '' @ fmtD (int (length src))
                          @ '' got '' @ fmtD (fi_Size info))))
                 else ret ()"
  from Suc.prems(1) show ?case unfolding uploadAttempts.simps
  proof (elim bnd_InrE)
    fix u w2 r w3
    assume up: "attempt (cl_UploadFromFile inner p src) w2 = (Inr r, w3)"
      and rest: "(case r of
         Inl e \<Rightarrow> uploadAttempts E inner base p src n (Suc i) (Some e)
       | Inr _ \<Rightarrow> bnd (attempt (cl_Stat inner p)) ?rest) w3 = (Inr (), w')"
    show ?thesis
    proof (cases r)
      case (Inl e)
      with rest Suc.IH [of "Suc i" "Some e" w3] show ?thesis by simp
    next
      case (Inr v)
      with attempt_InrD [OF up] have up': "cl_UploadFromFile inner p src w2 = (Inr (), w3)" by simp
      from rest show ?thesis unfolding Inr sum.case
      proof (elim bnd_InrE)
        fix st w4
        assume st: "attempt (cl_Stat inner p) w3 = (Inr st, w4)" and "?rest st w4 = (Inr (), w')"
        then show ?thesis using Suc.IH up' attempt_InrD [OF st]
          by (cases st) (auto simp: ret_def split: if_splits)
      qed
    qed
  qed
qed

context webdav_store
begin

lemma verified_touches: "touches content p (uploadFromFileVerified E C retries base p src)"
  by (intro touchesI kept_uploadFromFileVerified)
    (auto intro: kept_quiet kept_touches env_quiet reads_quiet upload_file_touches)

lemma verified_content:
  assumes "uploadFromFileVerified E C retries base p src w = (Inr (), w')" "retries > 0"
  shows "content w' p = Some src"
proof -
  from assms obtain w0 w1 info where u: "cl_UploadFromFile C p src w0 = (Inr (), w1)"
    and st: "cl_Stat C p w1 = (Inr info, w')"
    unfolding uploadFromFileVerified_def
    by (auto elim!: thn_InrE dest!: uploadAttempts_Inr_upload)
  from upload_file [OF u] quietD [OF reads_quiet(3) st] show ?thesis by simp
qed

lemma retry_touches: "touches content p (retryUploadFromFile E C retries base p src)"
proof (rule touchesI)
  fix q v
  assume q: "\<not> hasPrefix q p"
  let ?I = "\<lambda>w. content w q = v"
  have q': "\<not> hasPrefix q (p @ x)" for x using q by (auto simp: hasPrefix_iff)
  have 1: "kept ?I (uploadFromFileVerified E C retries base (p @ x) src)" for x
    by (rule kept_touches [OF verified_touches q'])
  have 2: "kept ?I (cl_Delete C (p @ x))" for x by (rule kept_touches [OF delete_touches q'])
  have 3: "kept ?I (cl_Rename C (p @ x) p True)" for x by (rule kept_touches [OF rename_touches q])
  show "kept ?I (retryUploadFromFile E C retries base p src)"
    unfolding retryUploadFromFile_def uploadFromFileAtomic_def Let_def
    by (intro keeps 1 2 3 kept_quiet [OF env_quiet(2)] kept_touches [OF verified_touches q])
qed

lemma retry_content:
  assumes "retryUploadFromFile E C retries base p src w = (Inr (), w')" "retries > 0"
  shows "content w' p = Some src"
proof (cases "shouldUploadAtomically p")
  case True
  with assms(1) have "uploadFromFileAtomic E C retries base p src w = (Inr (), w')"
    by (simp add: retryUploadFromFile_def)
  from uploadFromFileAtomic_Inr [OF this] obtain tmp w1 w2 where
    "uploadFromFileVerified E C retries base tmp src w1 = (Inr (), w2)"
    and r: "cl_Rename C tmp p True w2 = (Inr (), w')" by blast
  then have "content w2 tmp = Some src" using verified_content assms(2) by blast
  with rename [OF r] show ?thesis by simp
next
  case False
  with assms show ?thesis by (auto simp: retryUploadFromFile_def intro: verified_content)
qed

end

text \<open>The client \<open>main.go\<close> builds: three attempts, one second apart at first.\<close>

sublocale webdav_store \<subseteq> retrying: webdav_server "RetryClient E C 3 1000000000" E content
proof unfold_locales
  fix p d w w' and n :: int
  show "cl_UploadFromFile (RetryClient E C 3 1000000000) p d w = (Inr (), w') \<Longrightarrow> content w' p = Some d"
    unfolding RetryClient_def by (auto dest: retry_content)
  show "touches content p (cl_UploadFromFile (RetryClient E C 3 1000000000) p d)"
    unfolding RetryClient_def by (simp add: retry_touches)
  show "cl_Upload (RetryClient E C 3 1000000000) p (d, None) n w = (Inr (), w') \<Longrightarrow> content w' p = Some d"
    by (simp add: RetryClient_def upload)
  show "cl_Download (RetryClient E C 3 1000000000) p w = (Inr d, w') \<Longrightarrow> content w p = Some d"
    by (simp add: RetryClient_def download)
  show "cl_DownloadToFile (RetryClient E C 3 1000000000) p w = (Inr d, w') \<Longrightarrow> content w p = Some d"
    by (simp add: RetryClient_def download_file)
  show "cl_ReadDir (RetryClient E C 3 1000000000) p w = (Inr ns, w') \<Longrightarrow> x \<in> set ns \<Longrightarrow> x \<noteq> [] \<and> CHR ''/'' \<notin> set x" for ns x
    unfolding RetryClient_def by (auto dest: readdir_names)
qed (simp_all add: RetryClient_def upload_touches delete_under reads_quiet env_quiet)

text \<open>
  The documented behaviour of the library below the client, and that \<open>client.go\<close> passes it on.
\<close>

locale gowebdav_library =
  fixes g :: "'w gowebdav" and E :: "'w env" and content :: "'w \<Rightarrow> string \<rightharpoonup> bytes"
  assumes stream_written: "gw_WriteStream g p (d, None) w = (Inr (), w') \<Longrightarrow> content w' p = Some d"
    and write_touches: "touches content p (gw_WriteStream g p body)"
    and stream_read: "gw_ReadStream g p w = (Inr d, w') \<Longrightarrow> content w p = Some d"
    and move: "gw_Rename g p q True w = (Inr (), w') \<Longrightarrow> content w' q = content w p"
    and move_touches: "touches content p (gw_Rename g (p @ x) p True)"
    and remove_under: "\<not> atOrUnder q p \<Longrightarrow> content (snd (gw_Remove g p w)) q = content w q"
    and dir_names: "gw_ReadDir g p w = (Inr infos, w') \<Longrightarrow> y \<in> fi_Name ` set infos \<Longrightarrow> y \<noteq> [] \<and> CHR ''/'' \<notin> set y"
    and looks_quiet: "quiet content (gw_ReadStream g p)" "quiet content (gw_Stat g p)"
      "quiet content (gw_ReadDir g p)" "quiet content (gw_MkdirAll g p)"
    and os_quiet: "quiet content (env_os E l)" "quiet content (env_now E)" "quiet content (env_rand E k)"
      "quiet content (env_sleep E i)"

lemma quietI: "(\<And>q v. kept (\<lambda>w. content w q = v) m) \<Longrightarrow> quiet content m"
  by (auto simp: quiet_def kept_def intro!: ext)

context gowebdav_library
begin

lemma impl_upload_touches: "touches content p (clientUploadFromFile (env_os E) g p d)"
  unfolding clientUploadFromFile_def
  by (intro touchesI keeps kept_quiet [OF os_quiet(1)] kept_touches [OF write_touches])

lemma impl_upload:
  "clientUploadFromFile (env_os E) g p d w = (Inr (), w') \<Longrightarrow> content w' p = Some d"
  unfolding clientUploadFromFile_def by (auto elim!: thn_InrE intro: stream_written)

lemma impl_download_quiet: "quiet content (clientDownloadToFile (env_os E) g p)"
  unfolding clientDownloadToFile_def by (intro quietI keeps kept_quiet [OF os_quiet(1)] kept_quiet [OF looks_quiet(1)])

lemma impl_download:
  assumes "clientDownloadToFile (env_os E) g p w = (Inr d, w')"
  shows "content w p = Some d"
  using assms unfolding clientDownloadToFile_def
  by (auto elim!: act_elims simp: ret_def dest!: wrapE_InrD intro: stream_read)

lemma impl_readdir_quiet: "quiet content (clientReadDir g p)"
  unfolding clientReadDir_def by (intro quietI keeps kept_quiet [OF looks_quiet(3)])

end

sublocale gowebdav_library \<subseteq> client: webdav_store "ClientImpl (env_os E) g" E content
proof unfold_locales
  fix p d w w' and n :: int
  show "cl_UploadFromFile (ClientImpl (env_os E) g) p d w = (Inr (), w') \<Longrightarrow> content w' p = Some d"
    by (simp add: ClientImpl_def impl_upload)
  show "cl_Upload (ClientImpl (env_os E) g) p (d, None) n w = (Inr (), w') \<Longrightarrow> content w' p = Some d"
    by (simp add: ClientImpl_def stream_written)
  show "cl_Download (ClientImpl (env_os E) g) p w = (Inr d, w') \<Longrightarrow> content w p = Some d"
    by (simp add: ClientImpl_def stream_read)
  show "cl_DownloadToFile (ClientImpl (env_os E) g) p w = (Inr d, w') \<Longrightarrow> content w p = Some d"
    by (simp add: ClientImpl_def impl_download)
  show "cl_Rename (ClientImpl (env_os E) g) p q True w = (Inr (), w') \<Longrightarrow> content w' q = content w p" for q
    by (simp add: ClientImpl_def move)
  show "cl_ReadDir (ClientImpl (env_os E) g) p w = (Inr ns, w') \<Longrightarrow> x \<in> set ns \<Longrightarrow> x \<noteq> [] \<and> CHR ''/'' \<notin> set x" for ns x
  proof -
    assume "cl_ReadDir (ClientImpl (env_os E) g) p w = (Inr ns, w')" and "x \<in> set ns"
    then obtain infos where "gw_ReadDir g p w = (Inr infos, w')" "x \<in> fi_Name ` set infos"
      by (auto simp: ClientImpl_def clientReadDir_def ret_def elim!: bnd_InrE)
    then show ?thesis by (rule dir_names)
  qed
qed (simp_all add: ClientImpl_def impl_upload_touches write_touches remove_under move_touches
  looks_quiet os_quiet impl_download_quiet impl_readdir_quiet)

text \<open>The demonstration server meets the contract; with the retrying client in front it does too.\<close>

lemma map_of_filter_fst: "map_of (filter (\<lambda>(r, _). P r) w) q = (if P q then map_of w q else None)"
  by (induction w) auto

lemma trimSuffix_slash_prefix: "hasPrefix q (p @ ''/'') \<Longrightarrow> hasPrefix q (trimSuffix p ''/'' @ ''/'')"
  by (auto simp: trimSuffix_def hasPrefix_iff hasSuffix_iff)

interpretation demo: webdav_store demoClient demoEnv map_of
proof unfold_locales
  fix p q x :: string and d :: bytes and w w' :: demoWorld and n :: int and body :: stream
  have hp: "q \<noteq> p" if "\<not> hasPrefix q p" for q using that by (auto simp: hasPrefix_iff)
  have hp': "\<not> hasPrefix q (p @ y)" if "\<not> hasPrefix q p" for q y using that by (auto simp: hasPrefix_iff)
  show "cl_UploadFromFile demoClient p d w = (Inr (), w') \<Longrightarrow> map_of w' p = Some d"
    by (auto simp: demo_defs)
  show "touches map_of p (cl_UploadFromFile demoClient p d)"
    using hp by (auto simp: touches_def demo_defs map_of_filter_fst)
  show "cl_Upload demoClient p (d, None) n w = (Inr (), w') \<Longrightarrow> map_of w' p = Some d"
    by (auto simp: demo_defs)
  show "touches map_of p (cl_Upload demoClient p body n)"
    using hp by (auto simp: touches_def demo_defs map_of_filter_fst split: option.split)
  show "cl_Download demoClient p w = (Inr d, w') \<Longrightarrow> map_of w p = Some d"
    by (auto simp: demo_defs split: option.splits)
  show "cl_DownloadToFile demoClient p w = (Inr d, w') \<Longrightarrow> map_of w p = Some d"
    by (auto simp: demo_defs split: option.splits)
  show "map_of (snd (cl_Delete demoClient p w)) q = map_of w q" if "\<not> atOrUnder q p"
  proof -
    from that have "q \<noteq> p" "\<not> hasPrefix q (p @ ''/'')"
      using trimSuffix_slash_prefix [of q p] by (auto simp: atOrUnder_def)
    then show ?thesis by (simp add: demo_defs map_of_filter_fst)
  qed
  show "cl_ReadDir demoClient p w = (Inr ns, w') \<Longrightarrow> y \<in> set ns \<Longrightarrow> y \<noteq> [] \<and> CHR ''/'' \<notin> set y" for ns y
    by (auto simp: demo_defs demoChildren_def Let_def dest: set_takeWhileD)
  show "cl_Rename demoClient p q True w = (Inr (), w') \<Longrightarrow> map_of w' q = map_of w p"
    by (auto simp: demo_defs split: option.splits)
  show "touches map_of p (cl_Rename demoClient (p @ x) p True)"
    using hp hp' by (auto simp: touches_def demo_defs map_of_filter_fst filter_filter [symmetric]
        simp del: filter_filter split: option.split)
qed (auto simp: quiet_def demo_defs split: option.split)

end
