(* ===== verification/DaemonFacts.thy ===== *)
theory DaemonFacts
  imports Daemon Server
begin

text \<open>
  Frame rules for the calls of \<open>Daemon\<close>, for a daemon with a local cache directory whose WebDAV
  client meets the contract of \<open>Server\<close>: how far a call can reach. \<open>within content T B s t\<close>
  says that going from state \<open>s\<close> to \<open>t\<close> the structure database did not change, only bucket
  databases in \<open>B\<close> did, and of the remote files only those whose path starts with one in \<open>T\<close>.
  It is transitive, so \<open>kept (within content T B s)\<close> follows call by call from the rules of
  \<open>Prelude\<close>.
\<close>

definition within ::
  "('w \<Rightarrow> string \<rightharpoonup> bytes) \<Rightarrow> string set \<Rightarrow> string set \<Rightarrow> 'w daemon \<Rightarrow> 'w daemon \<Rightarrow> bool" where
  "within content T B s t \<longleftrightarrow> d_structure t = d_structure s
     \<and> (\<forall>i. i \<notin> B \<longrightarrow> bdbOf t i = bdbOf s i)
     \<and> (\<forall>q. (\<forall>p \<in> T. \<not> hasPrefix q p) \<longrightarrow> content (d_world t) q = content (d_world s) q)"

lemma within_refl [simp]: "within content T B s s"
  by (simp add: within_def)

lemma within_trans: "within content T B s t \<Longrightarrow> within content T B t u \<Longrightarrow> within content T B s u"
  by (simp add: within_def)

lemma within_mono: "within content T B s t \<Longrightarrow> T \<subseteq> T' \<Longrightarrow> B \<subseteq> B' \<Longrightarrow> within content T' B' s t"
  by (auto simp: within_def subset_iff)

lemma withinD:
  assumes "within content T B s t"
  shows "d_structure t = d_structure s" "i \<notin> B \<Longrightarrow> bdbOf t i = bdbOf s i"
    "\<forall>p \<in> T. \<not> hasPrefix q p \<Longrightarrow> content (d_world t) q = content (d_world s) q"
  using assms by (simp_all add: within_def)

lemma kept_within:
  assumes "\<And>t. within content T B t (snd (m t))"
  shows "kept (within content T B s) m"
  using assms within_trans by (blast intro: keptI)

lemma bdbOf_updates [simp]:
  "bdbOf (s\<lparr>d_world := w\<rparr>) = bdbOf s" "bdbOf (s\<lparr>d_structure := x\<rparr>) = bdbOf s"
  "bdbOf (s\<lparr>d_stats := y\<rparr>) = bdbOf s" "bdbOf (s\<lparr>d_cache := z\<rparr>) = bdbOf s"
  "bdbOf (s\<lparr>d_repair := m\<rparr>) = bdbOf s" "bdbOf (setBdb s i b) = (bdbOf s)(i := b)"
  by (auto simp: bdbOf_def fun_eq_iff setBdb_def)

lemma bdbOf_None: "d_bdb s i = None \<Longrightarrow> bdbOf s i = emptyBucketDB"
  by (simp add: bdbOf_def)

lemma setBdb_fields [simp]:
  "d_structure (setBdb s i b) = d_structure s" "d_world (setBdb s i b) = d_world s"
  "d_stats (setBdb s i b) = d_stats s" "d_repair (setBdb s i b) = d_repair s"
  "d_cache (setBdb s i b) = d_cache s"
  by (simp_all add: setBdb_def)

lemma within_modify: "(\<And>t. within content T B t (f t)) \<Longrightarrow> kept (within content T B s) (modify f)"
  by (intro kept_within) (simp add: modify_def)

lemma kept_onWorld_quiet: "quiet content m \<Longrightarrow> kept (within content T B s) (onWorld m)"
  by (intro kept_within) (auto simp: within_def onWorld_def quiet_def split: prod.split, metis snd_conv)

lemma kept_onWorld_touches:
  "touches content p m \<Longrightarrow> p \<in> T \<Longrightarrow> kept (within content T B s) (onWorld m)"
  by (intro kept_within) (auto simp: within_def onWorld_def touches_def split: prod.split, metis snd_conv)

lemma onWorld_InrD: "onWorld m s = (Inr a, t) \<Longrightarrow> \<exists>w'. m (d_world s) = (Inr a, w') \<and> t = s\<lparr>d_world := w'\<rparr>"
  by (auto simp: onWorld_def split: prod.splits)

locale daemon_server = webdav_server "svc_wdc S" "svc_env S" content
  for S :: "'w svc" and content +
  assumes disk: "svc_cacheDir S \<noteq> []"
begin

abbreviation "reach T B s \<equiv> within content T B s"

lemma kept_os [keeps]: "kept (reach T B s) (os S l)"
  unfolding os_def by (rule kept_onWorld_quiet [OF env_quiet(1)])

lemma kept_now [keeps]: "kept (reach T B s) (timeNow S)"
  unfolding timeNow_def by (rule kept_onWorld_quiet [OF env_quiet(2)])

lemma kept_uuid [keeps]: "kept (reach T B s) (newUUID S)"
  unfolding newUUID_def by (intro keeps kept_onWorld_quiet [OF env_quiet(3)])

lemma kept_askStructure [keeps]: "kept (reach T B s) (askStructure S l f)"
  unfolding askStructure_def by (intro keeps) (simp add: kept_def)

lemma kept_askBucket [keeps]: "kept (reach T B s) (askBucket S i l f)"
  unfolding askBucket_def by (intro keeps) (simp add: kept_def)

lemma kept_changeBucket: "i \<in> B \<Longrightarrow> kept (reach T B s) (changeBucket S i l f)"
  unfolding changeBucket_def
  by (intro keeps kept_within) (auto simp: within_def split: sum.split)

lemma kept_addDelta [keeps]: "kept (reach T B s) (addDelta S l u b n k)"
  unfolding addDelta_def
  by (intro keeps kept_within) (auto simp: within_def split: sum.split)

lemma kept_openBucket [keeps]: "kept (reach T B s) (openBucket S i)"
  unfolding openBucket_def using disk
  by (intro keeps kept_within)
    (auto simp: within_def bdbOf_None split: option.split sum.split)

lemma kept_cacheGet [keeps]: "kept (reach T B s) (cacheGet S i)"
  unfolding cacheGet_def by (intro keeps within_modify) (simp add: within_def)

lemma kept_checkWrite [keeps]: "kept (reach T B s) (checkWriteAllowed S i)"
  unfolding checkWriteAllowed_def by (intro keeps) (simp add: kept_def)

lemma kept_markRepairing [keeps]: "kept (reach T B s) (markRepairing S i r)"
  unfolding markRepairing_def by (intro keeps within_modify) (simp add: within_def)

lemma kept_wdc_uploadFile: "p \<in> T \<Longrightarrow> kept (reach T B s) (wdc S (\<lambda>c. cl_UploadFromFile c p d))"
  unfolding wdc_def by (rule kept_onWorld_touches [OF upload_file_touches])

lemma kept_wdc_upload: "p \<in> T \<Longrightarrow> kept (reach T B s) (wdc S (\<lambda>c. cl_Upload c p body n))"
  unfolding wdc_def by (rule kept_onWorld_touches [OF upload_touches])

lemma kept_wdc_delete: "p \<in> T \<Longrightarrow> kept (reach T B s) (wdc S (\<lambda>c. cl_Delete c p))"
  unfolding wdc_def by (rule kept_onWorld_touches [OF delete_touches])

lemma kept_wdc_reads [keeps]:
  "kept (reach T B s) (wdc S (\<lambda>c. cl_Download c p))" "kept (reach T B s) (wdc S (\<lambda>c. cl_MkdirAll c p))"
  "kept (reach T B s) (wdc S (\<lambda>c. cl_ReadDir c p))" "kept (reach T B s) (wdc S (\<lambda>c. cl_Stat c p))"
  unfolding wdc_def by (intro kept_onWorld_quiet reads_quiet)+

lemma kept_sync: "metaPath base i \<in> T \<Longrightarrow> kept (reach T B s) (syncBucketDB S i base)"
  unfolding syncBucketDB_def by (intro keeps kept_wdc_uploadFile)

lemma kept_syncOrRepair: "metaPath base i \<in> T \<Longrightarrow> kept (reach T B s) (syncOrRepair S i base g)"
  unfolding syncOrRepair_def by (intro keeps kept_sync)

text \<open>A call that keeps the frame and whose result, if it returns one, satisfies \<open>F\<close>.\<close>

lemma hoare_frame:
  assumes "kept (reach T B s) m" and "\<And>t a t'. reach T B s t \<Longrightarrow> m t = (Inr a, t') \<Longrightarrow> F a"
  shows "hoare (reach T B s) m (\<lambda>a t. reach T B s t \<and> F a) (\<lambda>_. reach T B s)"
  using assms by (intro hoareI) (blast dest: keptD')+

end

section \<open>The structure database\<close>

text \<open>Calls that leave the structure database alone, whatever the world does.\<close>

lemma kept_structure_world: "kept (\<lambda>s. d_structure s = d) (onWorld m)"
  by (simp add: kept_def onWorld_def split: prod.split)

lemma kept_structure:
  "kept (\<lambda>s. d_structure s = d) (os S l)" "kept (\<lambda>s. d_structure s = d) (timeNow S)"
  "kept (\<lambda>s. d_structure s = d) (newUUID S)" "kept (\<lambda>s. d_structure s = d) (wdc S c)"
  unfolding os_def timeNow_def newUUID_def wdc_def by (intro keeps kept_structure_world)+

lemma kept_structure_ask: "kept (\<lambda>s. d_structure s = d) (askStructure S l f)"
  unfolding askStructure_def by (intro keeps kept_structure) (simp add: kept_def)

lemma changeStructure_Inr: "changeStructure S l f s = (Inr u, t) \<Longrightarrow> f (d_structure s) = Inr (d_structure t)"
  by (auto simp: changeStructure_def os_def elim!: thn_InrE dest!: onWorld_InrD split: sum.splits)

lemma changeStructure_Inl: "changeStructure S l f s = (Inl e, t) \<Longrightarrow> d_structure t = d_structure s"
  by (auto simp: changeStructure_def os_def thn_def bnd_def onWorld_def split: prod.splits sum.splits)

lemma structureD: "(\<And>d. kept (\<lambda>s. d_structure s = d) m) \<Longrightarrow> m s = (r, t) \<Longrightarrow> d_structure t = d_structure s"
  by (metis (mono_tags, lifting) keptD')

end
