(* ===== verification/ObjectFacts.thy ===== *)
theory ObjectFacts
  imports Object DaemonFacts
begin

text \<open>
  What the operations of \<open>Object\<close> do to the databases and to the files of the server, under the
  contract of \<open>Server\<close>, and the properties of the object service that follow.
\<close>

definition chunked :: "'w svc \<Rightarrow> bytes \<Rightarrow> bool" where
  "chunked S data \<longleftrightarrow> svc_chunkThresholdBytes S > 0 \<and> int (length data) > svc_chunkThresholdBytes S \<and> svc_mp S"

lemma reachD: "(\<And>s. kept (within content T B s) m) \<Longrightarrow> m s = (r, t) \<Longrightarrow> within content T B s t"
  by (metis keptD' within_refl)

lemma askStructure_InrD: "askStructure S l f s = (Inr a, t) \<Longrightarrow> \<exists>w. f (d_structure (s\<lparr>d_world := w\<rparr>)) = Inr a"
  by (auto simp: askStructure_def os_def elim!: thn_InrE dest!: onWorld_InrD)

lemma askStructure_Inr: "askStructure S l f s = (Inr a, t) \<Longrightarrow> f (d_structure s) = Inr a"
  by (auto dest!: askStructure_InrD)

lemma askBucket_Inr: "askBucket S i l f s = (Inr a, t) \<Longrightarrow> f (bdbOf s i) = Inr a"
  by (auto simp: askBucket_def os_def elim!: thn_InrE dest!: onWorld_InrD)

lemma changeBucket_Inr: "changeBucket S i l f s = (Inr u, t) \<Longrightarrow> f (bdbOf s i) = Inr (bdbOf t i)"
  by (auto simp: changeBucket_def os_def elim!: thn_InrE dest!: onWorld_InrD split: sum.splits)

lemma fail_Inr [simp]: "fail e s \<noteq> (Inr a, t)"
  by (simp add: fail_def)

lemma ret_Inr [simp]: "ret a s = (Inr b, t) \<longleftrightarrow> b = a \<and> t = s"
  by (auto simp: ret_def)

lemma findBucket_Inr: "findBucket S bn s = (Inr bkt, t) \<Longrightarrow> GetBucket (d_structure s) bn = Inr bkt"
  unfolding findBucket_def by (auto elim!: orElse_InrE dest: askStructure_Inr)

lemma bucketByName_Inr: "bucketByName S bn s = (Inr bkt, t) \<Longrightarrow> GetBucket (d_structure s) bn = Inr bkt"
  unfolding bucketByName_def by (auto dest!: wrapE_InrD askStructure_Inr)

lemma locationOf_Inr:
  "locationOf S bkt s = (Inr loc, t) \<Longrightarrow> GetLocation (d_structure s) (bkt_WebDAVLocationID bkt) = Inr loc"
  unfolding locationOf_def by (auto dest!: wrapE_InrD askStructure_Inr)

lemma syncOrRepair_Inr: "syncOrRepair S i base g s = (Inr u, t) \<Longrightarrow> syncBucketDB S i base s = (Inr (), t)"
  unfolding syncOrRepair_def by (auto elim!: act_elims)

context daemon_server
begin

lemma kept_findBucket [keeps]: "kept (reach T B s) (findBucket S bn)"
  unfolding findBucket_def by (intro keeps)

lemma kept_bucketByName [keeps]: "kept (reach T B s) (bucketByName S bn)"
  unfolding bucketByName_def by (intro keeps)

lemma kept_locationOf [keeps]: "kept (reach T B s) (locationOf S bkt)"
  unfolding locationOf_def by (intro keeps)

lemma kept_openCached [keeps]: "kept (reach T B s) (openCached S i)"
  unfolding openCached_def by (intro keeps)

lemma kept_lookupObject [keeps]: "kept (reach T B s) (lookupObject S bn key)"
  unfolding lookupObject_def by (intro keeps)

lemma kept_downloadChunks [keeps]: "kept (reach T B s) (downloadChunks S cs)"
  by (induction cs) (auto intro!: keeps)

lemma kept_Get [keeps]: "kept (reach T B s) (Get S bn key)"
  unfolding Get_def getChunked_def by (intro keeps)

lemma lookupObject_Inr:
  assumes "lookupObject S bn key s = (Inr (obj, bkt), t)"
  shows "GetBucket (d_structure s) bn = Inr bkt" "GetObject (bdbOf s (bkt_ID bkt)) key = Inr obj"
proof -
  from assms obtain t1 t2 u v where 1: "findBucket S bn s = (Inr bkt, t1)"
    and 2: "openCached S (bkt_ID bkt) t1 = (Inr u, t2)"
    and 3: "askBucket S (bkt_ID bkt) ''bdb.GetObject'' (\<lambda>b. GetObject b key) t2 = (Inr obj, v)"
    unfolding lookupObject_def by (auto elim!: act_elims)
  show "GetBucket (d_structure s) bn = Inr bkt" by (rule findBucket_Inr [OF 1])
  have "within content {} {} s t1" by (rule reachD [OF kept_findBucket 1])
  moreover have "within content {} {} t1 t2" by (rule reachD [OF kept_openCached 2])
  ultimately have "within content {} {} s t2" by (rule within_trans)
  from withinD(2) [OF this] askBucket_Inr [OF 3]
  show "GetObject (bdbOf s (bkt_ID bkt)) key = Inr obj" by simp
qed

text \<open>Downloading: what a chunked read returns is the contents of its chunks, one after the other.\<close>

lemma wdc_download:
  assumes "wdc S (\<lambda>c. cl_Download c p) s = (Inr d, t)"
  shows "content (d_world s) p = Some d"
  using assms unfolding wdc_def by (auto dest!: onWorld_InrD intro: download)

lemma downloadChunks_Inr:
  "downloadChunks S cs s = (Inr d, t) \<Longrightarrow>
     \<exists>ds. map (\<lambda>c. content (d_world s) (chk_Path c)) cs = map Some ds \<and> d = concat ds"
proof (induction cs arbitrary: s d)
  case Nil
  then show ?case by (simp add: ret_def)
next
  case (Cons c cs)
  from Cons.prems obtain d1 s1 d2 where 1: "wdc S (\<lambda>cl. cl_Download cl (chk_Path c)) s = (Inr d1, s1)"
    and 2: "downloadChunks S cs s1 = (Inr d2, t)" and d: "d = d1 @ d2"
    by (auto elim!: act_elims dest!: wrapE_InrD)
  have same: "content (d_world s1) q = content (d_world s) q" for q
    using withinD(3) [OF reachD [OF kept_wdc_reads(1) 1, where T = "{}" and B = "{}"]] by simp
  from Cons.IH [OF 2] obtain ds where "map (\<lambda>c. content (d_world s) (chk_Path c)) cs = map Some ds" "d2 = concat ds"
    by (auto simp: same)
  with wdc_download [OF 1] d show ?case by (intro exI [of _ "d1 # ds"]) simp
qed

lemma Get_Inr:
  assumes "Get S bn key s = (Inr (obj, data), t)"
  shows "\<exists>bkt. GetBucket (d_structure s) bn = Inr bkt \<and> GetObject (bdbOf s (bkt_ID bkt)) key = Inr obj
     \<and> (if obj_Chunks obj = [] then content (d_world s) (obj_HashPath obj) = Some data
        else \<exists>ds. map (\<lambda>c. content (d_world s) (chk_Path c)) (obj_Chunks obj) = map Some ds \<and> data = concat ds)"
proof -
  from assms obtain o1 bkt t1 where 1: "lookupObject S bn key s = (Inr (o1, bkt), t1)"
    and 2: "(if obj_Chunks o1 \<noteq> [] then getChunked S o1
       else bnd (wrapE (wrapAs (''download '' @ obj_HashPath o1))
                   (wdc S (\<lambda>c. cl_Download c (obj_HashPath o1)))) (\<lambda>data. ret (o1, data))) t1 = (Inr (obj, data), t)"
    unfolding Get_def by (auto elim!: bnd_InrE split: prod.splits)
  have same: "content (d_world t1) q = content (d_world s) q" for q
    using withinD(3) [OF reachD [OF kept_lookupObject 1, where T = "{}" and B = "{}"]] by simp
  note l = lookupObject_Inr [OF 1]
  show ?thesis
  proof (cases "obj_Chunks o1 = []")
    case True
    with 2 have "o1 = obj" "wdc S (\<lambda>c. cl_Download c (obj_HashPath o1)) t1 = (Inr data, t)"
      by (auto elim!: bnd_InrE dest!: wrapE_InrD)
    with l wdc_download [of "obj_HashPath o1" t1 data t] True show ?thesis by (auto simp: same)
  next
    case False
    with 2 have o: "o1 = obj" and d: "downloadChunks S (obj_Chunks obj) t1 = (Inr data, t)"
      by (auto simp: getChunked_def elim!: bnd_InrE)
    from l downloadChunks_Inr [OF d] False o show ?thesis by (auto simp: same)
  qed
qed

end

section \<open>Put\<close>

lemma hashPath_not_meta: "\<not> hasPrefix (dataPath base h) (metaPath base i)"
proof
  assume "hasPrefix (dataPath base h) (metaPath base i)"
  then obtain t where "base @ ''_data/'' @ take 2 h @ ''/'' @ h = base @ ''_meta/'' @ i @ ''.db'' @ t"
    by (auto simp: hasPrefix_iff dataPath_def metaPath_def)
  then show False by simp
qed

context daemon_server
begin

lemma wdc_uploadFile:
  assumes "wdc S (\<lambda>c. cl_UploadFromFile c p d) s = (Inr u, t)"
  shows "content (d_world t) p = Some d"
  using assms unfolding wdc_def by (auto dest!: onWorld_InrD intro: upload_file)

text \<open>The effect of a successful \<open>Put\<close> of a small object.\<close>

lemma Put_Inr:
  assumes "Put S bn key ct (data, None) s = (Inr obj, t)" and "\<not> chunked S data"
  shows "\<exists>bkt loc. GetBucket (d_structure s) bn = Inr bkt
     \<and> GetLocation (d_structure s) (bkt_WebDAVLocationID bkt) = Inr loc
     \<and> PutObject (bdbOf s (bkt_ID bkt)) obj = Inr (bdbOf t (bkt_ID bkt))
     \<and> obj_Key obj = key \<and> obj_Chunks obj = [] \<and> obj_SizeBytes obj = int (length data)
     \<and> obj_ContentType obj = ct \<and> obj_ETag obj = quoted (hexEncode (env_md5 (svc_env S) data))
     \<and> obj_HashPath obj = dataPath (loc_BaseDir loc) (hexEncode (env_sha256 (svc_env S) data))
     \<and> content (d_world t) (obj_HashPath obj) = Some data
     \<and> reach {obj_HashPath obj, metaPath (loc_BaseDir loc) (bkt_ID bkt)} {bkt_ID bkt} s t"
proof -
  let ?hx = "hexEncode (env_sha256 (svc_env S) data)"
  from assms obtain bkt loc oid now t1 t2 t3 t4 t5 t6 t7 t8 t9 t10 t11 t12 u2 u3 u4 u6 u7 u10 u11 u12 u13 where
    1: "findBucket S bn s = (Inr bkt, t1)" and 2: "checkWriteAllowed S (bkt_ID bkt) t1 = (Inr u2, t2)"
    and 3: "os S ''CreateTemp'' t2 = (Inr u3, t3)" and 4: "os S ''write temp'' t3 = (Inr u4, t4)"
    and 5: "locationOf S bkt t4 = (Inr loc, t5)"
    and 6: "wdc S (\<lambda>c. cl_MkdirAll c (loc_BaseDir loc @ ''_data/'' @ take 2 ?hx)) t5 = (Inr u6, t6)"
    and 7: "wdc S (\<lambda>c. cl_UploadFromFile c (dataPath (loc_BaseDir loc) ?hx) data) t6 = (Inr u7, t7)"
    and 8: "newUUID S t7 = (Inr oid, t8)" and 9: "timeNow S t8 = (Inr now, t9)"
    and 10: "openCached S (bkt_ID bkt) t9 = (Inr u10, t10)"
    and obj: "obj = \<lparr>obj_ID = oid, obj_Key = key, obj_HashPath = dataPath (loc_BaseDir loc) ?hx,
        obj_SizeBytes = int (length data), obj_ETag = quoted (hexEncode (env_md5 (svc_env S) data)),
        obj_ContentType = ct, obj_LastModified = now, obj_UploadComplete = True, obj_Chunks = []\<rparr>"
    and 11: "changeBucket S (bkt_ID bkt) ''bdb.PutObject'' (\<lambda>b. PutObject b obj) t10 = (Inr u11, t11)"
    and 12: "syncOrRepair S (bkt_ID bkt) (loc_BaseDir loc) (wrapAs ''sync bucket db'') t11 = (Inr u12, t12)"
    and 13: "attempt (addDelta S (bkt_WebDAVLocationID bkt) (bkt_OwnerUserID bkt) (bkt_ID bkt)
               (int (length data)) 1) t12 = (Inr u13, t)"
    unfolding Put_def Let_def by (auto simp: chunked_def elim!: act_elims dest!: wrapE_InrD)
  let ?T = "{obj_HashPath obj, metaPath (loc_BaseDir loc) (bkt_ID bkt)}" and ?B = "{bkt_ID bkt}"
  have hp: "obj_HashPath obj = dataPath (loc_BaseDir loc) ?hx" by (simp add: obj)
  have r4: "reach {} {} s t4" if "True"
    by (rule within_trans [OF within_trans [OF within_trans [OF reachD [OF kept_findBucket 1]
          reachD [OF kept_checkWrite 2]] reachD [OF kept_os 3]] reachD [OF kept_os 4]])
  have r6: "reach {} {} s t6"
    by (rule within_trans [OF within_trans [OF r4 [OF TrueI] reachD [OF kept_locationOf 5]] reachD [OF kept_wdc_reads(2) 6]])
  have r7: "reach ?T {} t6 t7" by (rule reachD [OF kept_wdc_uploadFile 7]) (simp add: hp)
  have r10: "reach {} {} t7 t10"
    by (rule within_trans [OF within_trans [OF reachD [OF kept_uuid 8] reachD [OF kept_now 9]]
          reachD [OF kept_openCached 10]])
  have r11: "reach {} ?B t10 t11" by (rule reachD [OF kept_changeBucket 11]) simp
  have r12: "reach {metaPath (loc_BaseDir loc) (bkt_ID bkt)} {} t11 t12"
    by (rule reachD [OF kept_syncOrRepair 12]) simp
  have r13: "reach {} {} t12 t" by (rule reachD [OF kept_attempt [OF kept_addDelta] 13])
  have c: "content (d_world t) (obj_HashPath obj) = Some data"
    using wdc_uploadFile [OF 7] withinD(3) [OF r10, of "obj_HashPath obj"]
      withinD(3) [OF r11, of "obj_HashPath obj"] withinD(3) [OF r12, of "obj_HashPath obj"]
      withinD(3) [OF r13, of "obj_HashPath obj"] hashPath_not_meta
    by (simp add: hp)
  have b10: "bdbOf t10 i = bdbOf s i" for i
    using withinD(2) [OF r6, of i] withinD(2) [OF r7, of i] withinD(2) [OF r10, of i] by simp
  have bt: "bdbOf t i = bdbOf t11 i" for i
    using withinD(2) [OF r12, of i] withinD(2) [OF r13, of i] by simp
  have "reach ?T ?B s t"
    by (rule within_trans [OF within_trans [OF within_trans [OF within_trans [OF within_trans
          [OF within_mono [OF r6] within_mono [OF r7]] within_mono [OF r10]] within_mono [OF r11]]
          within_mono [OF r12]] within_mono [OF r13]]) auto
  moreover have "d_structure t4 = d_structure s" using withinD(1) [OF r4] by simp
  ultimately show ?thesis
    using findBucket_Inr [OF 1] locationOf_Inr [OF 5] changeBucket_Inr [OF 11] c hp
    by (intro exI [of _ bkt] exI [of _ loc]) (simp add: b10 bt, simp add: obj)
qed

end

section \<open>A daemon to try things on\<close>

text \<open>
  One location at the root of the demonstration server, one user, two buckets, an empty cache, and a
  cache directory; objects of more than 6 bytes are uploaded in chunks of 4.
\<close>

definition demoSvc :: "demoWorld svc" where
  "demoSvc = \<lparr>svc_env = demoEnv, svc_wdc = demoClient, svc_cacheDir = ''/cache'', svc_cap = 50, svc_mp = True,
     svc_chunkThresholdBytes = 6, svc_chunkSizeBytes = 4, svc_repair = True\<rparr>"

definition demoState :: "demoWorld daemon" where
  "demoState = \<lparr>d_world = [],
     d_structure = demoStructure\<lparr>buckets :=
       [\<lparr>bkt_ID = ''b1'', bkt_Name = ''first'', bkt_OwnerUserID = ''u'', bkt_WebDAVLocationID = ''l'', bkt_CreatedAt = 1\<rparr>,
        \<lparr>bkt_ID = ''b2'', bkt_Name = ''second'', bkt_OwnerUserID = ''u'', bkt_WebDAVLocationID = ''l'', bkt_CreatedAt = 2\<rparr>]\<rparr>,
     d_stats = emptyUsageDB, d_bdb = (\<lambda>_. None), d_cache = [], d_repair = NewManager\<rparr>"

interpretation demoDaemon: daemon_server demoSvc map_of
  by unfold_locales (simp_all add: demoSvc_def demo.upload_file demo.upload_file_touches demo.upload
    demo.upload_touches demo.download demo.download_file demo.delete_under demo.readdir_names demo.reads_quiet demo.env_quiet)

lemma demoDaemon_server [simp]: "daemon_server demoSvc map_of"
  by (rule demoDaemon.daemon_server_axioms)

text \<open>The definitions that evaluate a run of the daemon on concrete values.\<close>

lemmas run_defs = act_defs onWorld_def os_def wdc_def timeNow_def askStructure_def askBucket_def
  changeBucket_def changeStructure_def addDelta_def setBdb_def openBucket_def cacheGet_def lruGet_def
  metaPath_def syncBucketDB_def syncOrRepair_def markRepairing_def checkWriteAllowed_def CheckWrite_def
  statusLocked_def NewManager_def newUUID_def findBucket_def bucketByName_def locationOf_def
  openCached_def GetBucket_def GetLocation_def selectOne_def scanBucket_def scanLocation_def
  AddDelta_def insertDelta_def emptyUsageDB_def demoSvc_def demoState_def demoStructure_def demo_defs
  bdbOf_def emptyBucketDB_def Let_def dataPath_def

lemmas put_defs = Put_def PutObject_def writeObject_def upsertObject_def objectRow_def deleteRows_def
lemmas get_defs = Get_def lookupObject_def GetObject_def loadChunks_def scanObject_def

text \<open>The read may come later, as long as nothing it depends on changed in between.\<close>

lemma Put_Get:
  assumes "daemon_server S content" and "\<not> chunked S data"
    and "Put S bn key ct (data, None) s = (Inr obj, s1)"
    and "within content {} {} s1 s1'" and "Get S bn key s1' = (Inr (obj', data'), s2)"
  shows "data' = data \<and> obj' = storedObject obj \<and> obj_SizeBytes obj = int (length data)
     \<and> obj_ETag obj = quoted (hexEncode (env_md5 (svc_env S) data))"
proof -
  note srv = assms(1)
  from daemon_server.Put_Inr [OF srv assms(3,2)] obtain bkt and loc :: Location where
    b: "GetBucket (d_structure s) bn = Inr bkt"
    and p: "PutObject (bdbOf s (bkt_ID bkt)) obj = Inr (bdbOf s1 (bkt_ID bkt))"
    and o: "obj_Key obj = key" "obj_Chunks obj = []" "obj_SizeBytes obj = int (length data)"
      "obj_ETag obj = quoted (hexEncode (env_md5 (svc_env S) data))"
    and c: "content (d_world s1) (obj_HashPath obj) = Some data"
    and r: "within content {obj_HashPath obj, metaPath (loc_BaseDir loc) (bkt_ID bkt)} {bkt_ID bkt} s s1"
    by fast
  from daemon_server.Get_Inr [OF srv assms(5)] obtain bkt' where
    b': "GetBucket (d_structure s1') bn = Inr bkt'"
    and g: "GetObject (bdbOf s1' (bkt_ID bkt')) key = Inr obj'"
    and d: "if obj_Chunks obj' = [] then content (d_world s1') (obj_HashPath obj') = Some data'
        else \<exists>ds. map (\<lambda>c. content (d_world s1') (chk_Path c)) (obj_Chunks obj') = map Some ds \<and> data' = concat ds"
    by fast
  note w = withinD [OF assms(4)]
  from b b' withinD(1) [OF r] w(1) have "bkt' = bkt" by simp
  with g [unfolded w(2) [of "bkt_ID bkt'", simplified]] GetObject_write [OF p [unfolded PutObject_def], of key] o have obj': "obj' = storedObject obj" by simp
  then have "obj_Chunks obj' = []" "obj_HashPath obj' = obj_HashPath obj"
    by (simp_all add: storedObject_def objectRow_def scanObject_def o)
  with d c obj' o w(3) [of "obj_HashPath obj"] show ?thesis by simp
qed

text \<open>C1: what was put can be got. If a \<open>Put\<close> of an object below the chunking threshold succeeds and
  the next \<open>Get\<close> of the key does, the bytes are the ones that were put, and the metadata is what
  \<open>Put\<close> returned (time to the second): size and etag of those bytes, stored under their hash.\<close>

theorem Put_Get_roundtrip:
  assumes "daemon_server S content" and "\<not> chunked S data"
    and "Put S bn key ct (data, None) s = (Inr obj, s1)"
    and "Get S bn key s1 = (Inr (obj', data'), s2)"
  shows "data' = data \<and> obj' = storedObject obj \<and> obj_SizeBytes obj = int (length data)
     \<and> obj_ETag obj = quoted (hexEncode (env_md5 (svc_env S) data))"
  using assms Put_Get within_refl by blast

theorem Put_Get_roundtrip_witness:
  "\<exists>obj t obj' u. Put demoSvc ''first'' ''k'' ''ct'' (''abc'', None) demoState = (Inr obj, t)
     \<and> Get demoSvc ''first'' ''k'' t = (Inr (obj', ''abc''), u)"
proof -
  have "\<exists>obj t obj' d u. Put demoSvc ''first'' ''k'' ''ct'' (''abc'', None) demoState = (Inr obj, t)
      \<and> Get demoSvc ''first'' ''k'' t = (Inr (obj', d), u)"
    by (simp add: put_defs get_defs run_defs)
  then obtain obj t obj' d u where
    p: "Put demoSvc ''first'' ''k'' ''ct'' (''abc'', None) demoState = (Inr obj, t)"
    and g: "Get demoSvc ''first'' ''k'' t = (Inr (obj', d), u)" by blast
  have "\<not> chunked demoSvc ''abc''" by (simp add: chunked_def demoSvc_def)
  from Put_Get_roundtrip [OF demoDaemon_server this p g] p g show ?thesis by blast
qed

section \<open>Delete\<close>

text \<open>Some object in a bucket of the location has its contents in the file \<open>q\<close>.\<close>

definition referenced :: "'w daemon \<Rightarrow> string \<Rightarrow> string \<Rightarrow> bool" where
  "referenced s locationID q \<longleftrightarrow> (\<exists>b \<in> set (ListBuckets (d_structure s)).
     bkt_WebDAVLocationID b = locationID \<and> (\<exists>r \<in> set (objects (bdbOf s (bkt_ID b))). obj_HashPath r = q))"

lemma CountByHashPath_0: "CountByHashPath b q > 0 \<longleftrightarrow> (\<exists>r \<in> set (objects b). obj_HashPath r = q)"
  by (auto simp: CountByHashPath_def filter_empty_conv)

context daemon_server
begin

lemma hoare_reach: "(\<And>s. kept (reach T B s) m) \<Longrightarrow> hoare (reach T B s) m (\<lambda>_. reach T B s) (\<lambda>_. reach T B s)"
  by (rule hoare_kept)

lemma count_hoare:
  "hoare (reach {} {} s) (askBucket S i l (\<lambda>d. Inr (CountByHashPath d q)))
     (\<lambda>n t. reach {} {} s t \<and> n = CountByHashPath (bdbOf s i) q) (\<lambda>_. reach {} {} s)"
proof (rule hoare_frame [OF kept_askBucket])
  fix t n t'
  assume t: "reach {} {} s t" and ask: "askBucket S i l (\<lambda>d. Inr (CountByHashPath d q)) t = (Inr n, t')"
  from askBucket_Inr [OF ask] withinD(2) [OF t, of i] show "n = CountByHashPath (bdbOf s i) q" by simp
qed

lemma buckets_hoare:
  "hoare (reach {} {} s) (askStructure S l (\<lambda>d. Inr (ListBuckets d)))
     (\<lambda>bs t. reach {} {} s t \<and> bs = ListBuckets (d_structure s)) (\<lambda>_. reach {} {} s)"
proof (rule hoare_frame [OF kept_askStructure])
  fix t bs t'
  assume t: "reach {} {} s t" and ask: "askStructure S l (\<lambda>d. Inr (ListBuckets d)) t = (Inr bs, t')"
  from askStructure_Inr [OF ask] withinD(1) [OF t] show "bs = ListBuckets (d_structure s)" by simp
qed

lemma wrapE_hoare: "hoare P m Q (\<lambda>_. R) \<Longrightarrow> hoare P (wrapE g m) Q (\<lambda>_. R)"
  by (rule hoare_wrapE) (simp add: hoare_def)

lemma referencedElsewhere_hoare:
  "hoare (reach {} {} s) (referencedElsewhere S q bkt bs)
     (\<lambda>found t. reach {} {} s t \<and> (\<not> found \<longrightarrow> (\<forall>b \<in> set bs. bkt_ID b \<noteq> bkt_ID bkt
        \<longrightarrow> bkt_WebDAVLocationID b = bkt_WebDAVLocationID bkt
        \<longrightarrow> \<not> (\<exists>r \<in> set (objects (bdbOf s (bkt_ID b))). obj_HashPath r = q))))
     (\<lambda>_. reach {} {} s)"
proof (induction bs)
  case Nil
  then show ?case by (simp add: hoare_def ret_def)
next
  case (Cons b bs)
  show ?case
  proof (cases "bkt_ID b = bkt_ID bkt \<or> bkt_WebDAVLocationID b \<noteq> bkt_WebDAVLocationID bkt")
    case True
    then show ?thesis by (auto intro: hoare_post [OF Cons.IH])
  next
    case False
    show ?thesis unfolding referencedElsewhere.simps if_not_P [OF False]
    proof (intro hoare_thn hoare_bnd)
      show "hoare (reach {} {} s) (wrapE (wrapAs (''open bucket db '' @ bkt_ID b)) (cacheGet S (bkt_ID b)))
          (\<lambda>_. reach {} {} s) (\<lambda>_. reach {} {} s)"
        by (intro hoare_kept keeps)
      show "hoare (reach {} {} s) (wrapE (wrapAs (''count refs in bucket '' @ bkt_ID b))
            (askBucket S (bkt_ID b) ''bdb.CountByHashPath'' (\<lambda>d. Inr (CountByHashPath d q))))
          (\<lambda>n t. reach {} {} s t \<and> n = CountByHashPath (bdbOf s (bkt_ID b)) q) (\<lambda>_. reach {} {} s)"
        by (rule wrapE_hoare [OF count_hoare])
    next
      fix n
      show "hoare (\<lambda>t. reach {} {} s t \<and> n = CountByHashPath (bdbOf s (bkt_ID b)) q)
          (if n > 0 then ret True else referencedElsewhere S q bkt bs)
          (\<lambda>found t. reach {} {} s t \<and> (\<not> found \<longrightarrow> (\<forall>c \<in> set (b # bs). bkt_ID c \<noteq> bkt_ID bkt
             \<longrightarrow> bkt_WebDAVLocationID c = bkt_WebDAVLocationID bkt
             \<longrightarrow> \<not> (\<exists>r \<in> set (objects (bdbOf s (bkt_ID c))). obj_HashPath r = q))))
          (\<lambda>_. reach {} {} s)"
      proof (cases "n > 0")
        case True
        then show ?thesis by (simp add: hoare_def ret_def)
      next
        case no: False
        have "hoare (\<lambda>t. reach {} {} s t \<and> n = CountByHashPath (bdbOf s (bkt_ID b)) q) (referencedElsewhere S q bkt bs)
          (\<lambda>found t. reach {} {} s t \<and> (\<not> found \<longrightarrow> (\<forall>c \<in> set bs. bkt_ID c \<noteq> bkt_ID bkt
             \<longrightarrow> bkt_WebDAVLocationID c = bkt_WebDAVLocationID bkt
             \<longrightarrow> \<not> (\<exists>r \<in> set (objects (bdbOf s (bkt_ID c))). obj_HashPath r = q))))
          (\<lambda>_. reach {} {} s)"
          by (rule hoare_pre [OF Cons.IH]) simp
        with no CountByHashPath_0 [of "bdbOf s (bkt_ID b)" q] show ?thesis
          by (auto simp: hoare_def split: prod.splits sum.splits) (metis no)+
      qed
    qed
  qed
qed

end

lemma not_referencedI:
  "\<not> (\<exists>r \<in> set (objects (bdbOf t (bkt_ID bkt))). obj_HashPath r = q) \<Longrightarrow>
   \<forall>b \<in> set (ListBuckets (d_structure t)). bkt_ID b \<noteq> bkt_ID bkt \<longrightarrow>
     bkt_WebDAVLocationID b = bkt_WebDAVLocationID bkt \<longrightarrow>
     \<not> (\<exists>r \<in> set (objects (bdbOf t (bkt_ID b))). obj_HashPath r = q) \<Longrightarrow>
   \<not> referenced t (bkt_WebDAVLocationID bkt) q"
  unfolding referenced_def by metis

context daemon_server
begin

text \<open>A data file goes only when nothing on the location refers to it.\<close>

lemma delete_hoare:
  "hoare (\<lambda>u. reach {} {} t u \<and> F) (wrapE g (wdc S (\<lambda>c. cl_Delete c q)))
     (\<lambda>_ u. reach {q} {} t u \<and> F) (\<lambda>_ u. reach {q} {} t u \<and> F)"
proof (rule hoare_fact)
  assume F
  then show "hoare (reach {} {} t) (wrapE g (wdc S (\<lambda>c. cl_Delete c q))) (\<lambda>_ u. reach {q} {} t u \<and> F) (\<lambda>_ u. reach {q} {} t u \<and> F)"
    by (intro hoare_pre [OF hoare_post [OF hoare_kept [OF kept_wrapE [OF kept_wdc_delete [where T = "{q}"]]]]])
      (auto intro: within_mono)
qed

lemma unreferenced_hoare:
  assumes "n = CountByHashPath (bdbOf t (bkt_ID bkt)) q" and "n \<le> 0"
  shows "hoare (reach {} {} t) (referencedElsewhere S q bkt (ListBuckets (d_structure t)))
     (\<lambda>found u. reach {} {} t u \<and> (\<not> found \<longrightarrow> \<not> referenced t (bkt_WebDAVLocationID bkt) q)) (\<lambda>_. reach {} {} t)"
proof (rule hoare_post [OF referencedElsewhere_hoare])
  fix found u
  assume "reach {} {} t u \<and> (\<not> found \<longrightarrow> (\<forall>b \<in> set (ListBuckets (d_structure t)). bkt_ID b \<noteq> bkt_ID bkt
    \<longrightarrow> bkt_WebDAVLocationID b = bkt_WebDAVLocationID bkt
    \<longrightarrow> \<not> (\<exists>r \<in> set (objects (bdbOf t (bkt_ID b))). obj_HashPath r = q)))"
  then show "reach {} {} t u \<and> (\<not> found \<longrightarrow> \<not> referenced t (bkt_WebDAVLocationID bkt) q)"
    using assms CountByHashPath_0 [of "bdbOf t (bkt_ID bkt)" q] not_referencedI [of t bkt q] by (metis not_less)
qed simp

lemma maybeDeleteDataFile_hoare:
  "hoare (reach {} {} t) (maybeDeleteDataFile S q bkt)
     (\<lambda>_ u. reach {} {} t u \<or> reach {q} {} t u \<and> \<not> referenced t (bkt_WebDAVLocationID bkt) q)
     (\<lambda>_ u. reach {} {} t u \<or> reach {q} {} t u \<and> \<not> referenced t (bkt_WebDAVLocationID bkt) q)"
    (is "hoare _ _ (\<lambda>_. ?Q) _")
proof -
  have stop: "hoare (reach {} {} t) (ret ()) (\<lambda>_. ?Q) (\<lambda>_. ?Q)" by (simp add: hoare_def ret_def)
  have clean: "hoare (\<lambda>u. reach {} {} t u \<and> (\<not> found \<longrightarrow> \<not> referenced t (bkt_WebDAVLocationID bkt) q))
      (if found then ret () else wrapE g (wdc S (\<lambda>c. cl_Delete c q))) (\<lambda>_. ?Q) (\<lambda>_. ?Q)" for found g
    using hoare_pre [OF stop] hoare_post [OF delete_hoare [where F = "\<not> referenced t (bkt_WebDAVLocationID bkt) q"]] by (cases found) auto
  have search: "hoare (\<lambda>u. reach {} {} t u \<and> bs = ListBuckets (d_structure t))
      (bnd (referencedElsewhere S q bkt bs) (\<lambda>found. if found then ret () else wrapE g (wdc S (\<lambda>c. cl_Delete c q)))) (\<lambda>_. ?Q) (\<lambda>_. ?Q)"
    if n: "n = CountByHashPath (bdbOf t (bkt_ID bkt)) q" "n \<le> 0" for bs n g
    by (rule hoare_fact, hypsubst, rule hoare_bnd [OF clean hoare_post [OF unreferenced_hoare [OF n]]]) auto
  have counted: "hoare (\<lambda>u. reach {} {} t u \<and> n = CountByHashPath (bdbOf t (bkt_ID bkt)) q)
      (if n > 0 then ret () else bnd (wrapE h (askStructure S l (\<lambda>d. Inr (ListBuckets d)))) (\<lambda>bs.
         bnd (referencedElsewhere S q bkt bs) (\<lambda>found. if found then ret () else wrapE g (wdc S (\<lambda>c. cl_Delete c q)))))
      (\<lambda>_. ?Q) (\<lambda>_. ?Q)" for n g h l
  proof (rule hoare_fact)
    assume n: "n = CountByHashPath (bdbOf t (bkt_ID bkt)) q"
    have "hoare (reach {} {} t) (wrapE h (askStructure S l (\<lambda>d. Inr (ListBuckets d))))
        (\<lambda>bs u. reach {} {} t u \<and> bs = ListBuckets (d_structure t)) (\<lambda>_. ?Q)"
      by (rule wrapE_hoare [OF hoare_post [OF buckets_hoare]]) auto
    then show "hoare (reach {} {} t) (if n > 0 then ret () else bnd (wrapE h (askStructure S l (\<lambda>d. Inr (ListBuckets d)))) (\<lambda>bs.
         bnd (referencedElsewhere S q bkt bs) (\<lambda>found. if found then ret () else wrapE g (wdc S (\<lambda>c. cl_Delete c q)))))
      (\<lambda>_. ?Q) (\<lambda>_. ?Q)"
      using stop hoare_bnd [OF search [OF n]] by auto
  qed
  have "hoare (reach {} {} t) (wrapE h (askBucket S (bkt_ID bkt) l (\<lambda>d. Inr (CountByHashPath d q))))
      (\<lambda>n u. reach {} {} t u \<and> n = CountByHashPath (bdbOf t (bkt_ID bkt)) q) (\<lambda>_. ?Q)" for h l
    by (rule wrapE_hoare [OF hoare_post [OF count_hoare]]) auto
  then show ?thesis unfolding maybeDeleteDataFile_def by (rule hoare_bnd [OF counted])
qed

end

lemma referenced_within: "within content {} {} s t \<Longrightarrow> referenced t l q = referenced s l q"
  by (simp add: referenced_def within_def)

lemma referenced_within': "within content T {} s t \<Longrightarrow> referenced t l q = referenced s l q"
  by (simp add: referenced_def within_def)

text \<open>
  The files a \<open>Delete\<close> may change whatever is referenced: the bucket's own metadata file and the
  chunks of the object.
\<close>

definition deleteSafe :: "'w daemon \<Rightarrow> Bucket \<Rightarrow> string \<Rightarrow> string \<Rightarrow> bool" where
  "deleteSafe s bkt key q \<longleftrightarrow>
     (\<forall>loc. GetLocation (d_structure s) (bkt_WebDAVLocationID bkt) = Inr loc
        \<longrightarrow> \<not> hasPrefix q (metaPath (loc_BaseDir loc) (bkt_ID bkt)))
     \<and> (\<forall>obj. GetObject (bdbOf s (bkt_ID bkt)) key = Inr obj
        \<longrightarrow> (\<forall>c \<in> set (obj_Chunks obj). \<not> hasPrefix q (chk_Path c))
          \<and> (hasPrefix q (obj_HashPath obj) \<longrightarrow> q = obj_HashPath obj))"

context daemon_server
begin

lemma kept_deletePaths: "set ps \<subseteq> T \<Longrightarrow> kept (reach T B s) (deletePaths S ps)"
  by (induction ps) (auto intro!: keeps kept_wdc_delete)

text \<open>Nothing has happened to a file some other object refers to.\<close>

abbreviation intact :: "'w daemon \<Rightarrow> string \<Rightarrow> string \<Rightarrow> 'w daemon \<Rightarrow> bool" where
  "intact s L q \<equiv> \<lambda>t. referenced t L q \<longrightarrow> content (d_world t) q = content (d_world s) q"

abbreviation spares :: "'w daemon \<Rightarrow> string \<Rightarrow> string \<Rightarrow> ('w daemon \<Rightarrow> bool) \<Rightarrow> ('w daemon, 'b) act \<Rightarrow> bool" where
  "spares s L q P m \<equiv> hoare P m (\<lambda>_. intact s L q) (\<lambda>_. intact s L q)"

lemma intact_reach: "reach T B s t \<Longrightarrow> \<forall>p \<in> T. \<not> hasPrefix q p \<Longrightarrow> intact s L q t"
  by (simp add: withinD(3))

lemma spares_kept:
  assumes "kept (reach T B s) m" and "\<forall>p \<in> T. \<not> hasPrefix q p"
  shows "spares s L q (reach T B s) m"
  by (rule hoare_post [OF hoare_kept [OF assms(1)]]) (use intact_reach [OF _ assms(2)] in auto)

lemma spares_thn:
  assumes "\<forall>p \<in> T. \<not> hasPrefix q p" and "kept (reach T B s) c" and "spares s L q (reach T B s) m"
  shows "spares s L q (reach T B s) (thn c m)"
  by (rule hoare_thn [OF assms(3) hoare_post [OF hoare_kept [OF assms(2)]]]) (use intact_reach [OF _ assms(1)] in auto)

text \<open>The steps of a deletion: the object and the location are found, the record goes, then the data.\<close>

lemma delete_looks:
  assumes "GetBucket (d_structure s) bn = Inr bkt"
  shows "hoare (\<lambda>t. t = s) (lookupObject S bn key)
      (\<lambda>(obj, b) t. reach {} {} s t \<and> b = bkt \<and> GetObject (bdbOf s (bkt_ID bkt)) key = Inr obj) (\<lambda>_. intact s L q)"
proof (rule hoareI)
  fix t ob t'
  assume t: "t = s" and l: "lookupObject S bn key t = (Inr ob, t')"
  obtain obj b where ob: "ob = (obj, b)" by (cases ob)
  from lookupObject_Inr [OF l [unfolded ob]] assms t reachD [OF kept_lookupObject l]
  show "(case ob of (obj, b) \<Rightarrow> \<lambda>t. reach {} {} s t \<and> b = bkt \<and> GetObject (bdbOf s (bkt_ID bkt)) key = Inr obj) t'"
    by (auto simp: ob)
next
  fix t e t'
  assume "t = s" and "lookupObject S bn key t = (Inl e, t')"
  then have "reach {} {} s t'" using reachD [OF kept_lookupObject] by blast
  then show "intact s L q t'" by (rule intact_reach) simp
qed

lemma delete_locates:
  "hoare (reach {} {} s) (locationOf S bkt)
     (\<lambda>loc t. reach {} {} s t \<and> GetLocation (d_structure s) (bkt_WebDAVLocationID bkt) = Inr loc) (\<lambda>_. intact s L q)"
proof (rule hoareI)
  fix t loc t'
  assume t: "reach {} {} s t" and l: "locationOf S bkt t = (Inr loc, t')"
  from locationOf_Inr [OF l] withinD(1) [OF t] within_trans [OF t reachD [OF kept_locationOf l]]
  show "reach {} {} s t' \<and> GetLocation (d_structure s) (bkt_WebDAVLocationID bkt) = Inr loc" by simp
next
  fix t e t'
  assume t: "reach {} {} s t" and l: "locationOf S bkt t = (Inl e, t')"
  show "intact s L q t'" by (rule intact_reach [OF within_trans [OF t reachD [OF kept_locationOf l]]]) simp
qed

lemma delete_records:
  assumes T: "\<forall>p \<in> {metaPath base i}. \<not> hasPrefix q p" and m: "spares s L q (reach {metaPath base i} {i} s) m"
  shows "spares s L q (reach {} {} s) (thn (openCached S i)
      (thn (wrapE g (changeBucket S i ''bdb.DeleteObject'' (\<lambda>b. DeleteObject b key)))
      (thn (wrapE h (syncBucketDB S i base))
      (thn (attempt (addDelta S l u i n (- 1))) m))))"
  by (rule hoare_pre [where P' = "reach {metaPath base i} {i} s"])
    ((rule spares_thn [OF T] m | intro keeps kept_changeBucket kept_sync | simp)+, auto intro: within_mono)

lemma delete_chunks:
  assumes T: "\<forall>p \<in> T \<union> set ps. \<not> hasPrefix q p"
  shows "spares s L q (reach T B s) (deletePaths S ps)"
  by (rule hoare_pre [OF spares_kept [OF kept_deletePaths T]]) (auto intro: within_mono)

lemma delete_data:
  assumes T: "\<forall>p \<in> T. \<not> hasPrefix q p" and hp: "hasPrefix q p \<longrightarrow> q = p"
  shows "spares s (bkt_WebDAVLocationID bkt) q (reach T B s) (maybeDeleteDataFile S p bkt)"
proof -
  let ?L = "bkt_WebDAVLocationID bkt"
  have fin: "intact s ?L q u" if t: "reach T B s t" and u: "reach {} {} t u \<or> reach {p} {} t u \<and> \<not> referenced t ?L p" for t u
  proof
    assume ref: "referenced u ?L q"
    have t': "content (d_world t) q = content (d_world s) q" using withinD(3) [OF t T] .
    from u show "content (d_world u) q = content (d_world s) q"
    proof
      assume "reach {} {} t u"
      from withinD(3) [OF this] t' show ?thesis by simp
    next
      assume u: "reach {p} {} t u \<and> \<not> referenced t ?L p"
      with referenced_within' ref have "q \<noteq> p" by metis
      with hp have "\<forall>x \<in> {p}. \<not> hasPrefix q x" by auto
      from withinD(3) [OF conjunct1 [OF u] this] t' show ?thesis by simp
    qed
  qed
  show ?thesis
  proof (rule hoareI)
    fix t a u
    assume "reach T B s t" "maybeDeleteDataFile S p bkt t = (Inr a, u)"
    then show "intact s ?L q u" by (rule fin [OF _ hoareD_Inr [OF maybeDeleteDataFile_hoare within_refl]])
  next
    fix t e u
    assume "reach T B s t" "maybeDeleteDataFile S p bkt t = (Inl e, u)"
    then show "intact s ?L q u" by (rule fin [OF _ hoareD_Inl [OF maybeDeleteDataFile_hoare within_refl]])
  qed
qed

lemma delete_content:
  assumes T: "\<forall>p \<in> T \<union> set (map chk_Path (obj_Chunks obj)). \<not> hasPrefix q p"
    and hp: "hasPrefix q (obj_HashPath obj) \<longrightarrow> q = obj_HashPath obj"
  shows "spares s (bkt_WebDAVLocationID bkt) q (reach T B s)
      (if obj_Chunks obj \<noteq> [] then deletePaths S (map chk_Path (obj_Chunks obj))
       else if obj_HashPath obj \<noteq> [] then thn (attempt (maybeDeleteDataFile S (obj_HashPath obj) bkt)) (ret ())
       else ret ())"
proof -
  have t: "\<forall>p \<in> T. \<not> hasPrefix q p" using T by blast
  have "spares s (bkt_WebDAVLocationID bkt) q (reach T B s) (attempt (maybeDeleteDataFile S (obj_HashPath obj) bkt))"
    by (rule hoare_attempt) (use delete_data [OF t hp] in simp)
  then have "spares s (bkt_WebDAVLocationID bkt) q (reach T B s) (thn (attempt (maybeDeleteDataFile S (obj_HashPath obj) bkt)) (ret ()))"
    by (rule hoare_thn [OF hoare_ret])
  with delete_chunks [OF T, where s = s and B = B] spares_kept [OF kept_ret t, where s = s and B = B] show ?thesis by auto
qed

lemma Delete_safe:
  assumes bkt: "GetBucket (d_structure s) bn = Inr bkt" and safe: "deleteSafe s bkt key q"
  shows "spares s (bkt_WebDAVLocationID bkt) q (\<lambda>t. t = s) (Delete S bn key)"
proof -
  have found: "spares s (bkt_WebDAVLocationID bkt) q (reach {} {} s) (thn (openCached S (bkt_ID bkt))
      (thn (wrapE g (changeBucket S (bkt_ID bkt) ''bdb.DeleteObject'' (\<lambda>b. DeleteObject b key)))
      (thn (wrapE h (syncBucketDB S (bkt_ID bkt) (loc_BaseDir loc)))
      (thn (attempt (addDelta S l u (bkt_ID bkt) n (- 1)))
      (if obj_Chunks obj \<noteq> [] then deletePaths S (map chk_Path (obj_Chunks obj))
       else if obj_HashPath obj \<noteq> [] then thn (attempt (maybeDeleteDataFile S (obj_HashPath obj) bkt)) (ret ())
       else ret ())))))"
    if "GetObject (bdbOf s (bkt_ID bkt)) key = Inr obj" and "GetLocation (d_structure s) (bkt_WebDAVLocationID bkt) = Inr loc"
    for obj loc g h l u n
    by (rule delete_records [OF _ delete_content]) (use safe that in \<open>auto simp: deleteSafe_def\<close>)
  show ?thesis
    unfolding Delete_def
    by (rule hoare_bnd [OF _ delete_looks [OF bkt]], case_tac a, simp only: prod.case, rule hoare_fact, elim conjE, hypsubst,
      rule hoare_bnd [OF _ delete_locates], rule hoare_fact, rule found; assumption)
qed

end

text \<open>C2: deleting an object never removes a data file that is still needed on its location. Whatever
  \<open>Delete\<close> returns, if afterwards an object in some bucket of the location has its contents in the
  file \<open>q\<close> (and \<open>q\<close> is not the bucket's metadata or a chunk of the deleted object), then \<open>q\<close> is
  as it was.\<close>

theorem Delete_keeps_shared:
  assumes "daemon_server S content" and "GetBucket (d_structure s) bn = Inr bkt"
    and "deleteSafe s bkt key q" and "Delete S bn key s = (r, t)"
    and "referenced t (bkt_WebDAVLocationID bkt) q"
  shows "content (d_world t) q = content (d_world s) q"
proof -
  note h = daemon_server.Delete_safe [OF assms(1,2,3)]
  from hoareD_Inr [OF h refl] hoareD_Inl [OF h refl] assms(4,5) show ?thesis by (cases r) auto
qed

definition demoRow :: "string \<Rightarrow> string \<Rightarrow> Object" where
  "demoRow ident key = \<lparr>obj_ID = ident, obj_Key = key, obj_HashPath = ''/_data/ab/abc'', obj_SizeBytes = 3,
     obj_ETag = ''e'', obj_ContentType = ''t'', obj_LastModified = 1, obj_UploadComplete = True, obj_Chunks = []\<rparr>"

definition demoShared :: "demoWorld daemon" where
  "demoShared = demoState\<lparr>d_world := [(''/_data/ab/abc'', ''xyz'')],
     d_bdb := [''b1'' \<mapsto> Inr (emptyBucketDB\<lparr>objects := [demoRow ''i1'' ''k1'', demoRow ''i2'' ''k2'']\<rparr>)]\<rparr>"

lemmas delete_defs = Delete_def maybeDeleteDataFile_def lookupObject_def GetObject_def loadChunks_def
  scanObject_def DeleteObject_def deleteRows_def CountByHashPath_def ListBuckets_def

theorem Delete_keeps_shared_witness:
  "\<exists>t. Delete demoSvc ''first'' ''k1'' demoShared = (Inr (), t) \<and> map_of (d_world t) ''/_data/ab/abc'' = Some ''xyz''"
proof -
  have "\<exists>t. Delete demoSvc ''first'' ''k1'' demoShared = (Inr (), t) \<and> referenced t ''l'' ''/_data/ab/abc''"
    by (simp add: delete_defs demoShared_def demoRow_def referenced_def run_defs)
  then obtain t where t: "Delete demoSvc ''first'' ''k1'' demoShared = (Inr (), t)"
    "referenced t ''l'' ''/_data/ab/abc''" by blast
  obtain bkt where bkt: "GetBucket (d_structure demoShared) ''first'' = Inr bkt" "bkt_WebDAVLocationID bkt = ''l''"
    "bkt_ID bkt = ''b1''"
    by (simp add: demoShared_def run_defs)
  have "deleteSafe demoShared bkt ''k1'' ''/_data/ab/abc''"
    by (simp add: deleteSafe_def bkt demoShared_def demoRow_def GetObject_def loadChunks_def scanObject_def
        hasPrefix_def run_defs)
  from Delete_keeps_shared [OF demoDaemon_server bkt(1) this t(1)] t bkt show ?thesis
    by (simp add: demoShared_def)
qed

definition demoTwoLocations :: "demoWorld daemon" where
  "demoTwoLocations = demoState\<lparr>d_world := [(''/_data/ab/abc'', ''xyz'')],
     d_structure := (d_structure demoState)\<lparr>webdav_locations := webdav_locations demoStructure @
         [\<lparr>loc_ID = ''m'', loc_URL = ''http://other'', loc_Username = ''u'', loc_PasswordEnc = ''p'',
           loc_DisplayName = ''o'', loc_QuotaBytes = 0, loc_BaseDir = ''/'', loc_CreatedAt = 1\<rparr>],
       buckets := [\<lparr>bkt_ID = ''b1'', bkt_Name = ''first'', bkt_OwnerUserID = ''u'', bkt_WebDAVLocationID = ''l'', bkt_CreatedAt = 1\<rparr>,
        \<lparr>bkt_ID = ''b2'', bkt_Name = ''second'', bkt_OwnerUserID = ''u'', bkt_WebDAVLocationID = ''m'', bkt_CreatedAt = 2\<rparr>]\<rparr>,
     d_bdb := [''b1'' \<mapsto> Inr (emptyBucketDB\<lparr>objects := [demoRow ''i1'' ''k1'']\<rparr>),
               ''b2'' \<mapsto> Inr (emptyBucketDB\<lparr>objects := [demoRow ''i2'' ''k2'']\<rparr>)]\<rparr>"

text \<open>The guard counts references by location id, but all objects go through one client and a path
  that holds no location id: with a second location on the same base directory, deleting an object
  of the first removes the file that an object of the second has its contents in.\<close>

theorem Delete_other_location_loses_data:
  "\<exists>t. Delete demoSvc ''first'' ''k1'' demoTwoLocations = (Inr (), t)
     \<and> referenced t ''m'' ''/_data/ab/abc'' \<and> map_of (d_world t) ''/_data/ab/abc'' = None
     \<and> (\<exists>e. fst (Get demoSvc ''second'' ''k2'' t) = Inl e)"
  by (simp add: delete_defs get_defs demoTwoLocations_def demoRow_def referenced_def hasPrefix_def
      map_of_filter_fst run_defs)

end
