(* ===== verification/BucketService.thy ===== *)
theory BucketService
  imports ObjectFacts
begin

text \<open>
  \<open>internal/bucket/service.go\<close>: creating, deleting and listing buckets. A bucket is a row of the
  structure database and a metadata file on its location. The callback \<open>flushStructure\<close> (a Go
  \<open>func()\<close>, \<open>None\<close> for \<open>nil\<close>) is a state transformer: what it fails at, it keeps to itself.
\<close>

section \<open>The service\<close>

definition nameChar :: "char \<Rightarrow> bool" where
  "nameChar c = (let n = of_char c :: nat in 97 \<le> n \<and> n \<le> 122 \<or> 48 \<le> n \<and> n \<le> 57)"

text \<open>\<open>^[a-z0-9][a-z0-9\-]{1,61}[a-z0-9]$\<close>; the dollar sign only matches at the end.\<close>

definition bucketNameRE :: "string \<Rightarrow> bool" where
  "bucketNameRE s \<longleftrightarrow> 3 \<le> length s \<and> length s \<le> 63 \<and> nameChar (hd s) \<and> nameChar (last s)
     \<and> list_all (\<lambda>c. nameChar c \<or> c = CHR ''-'') (butlast (tl s))"

definition validateBucketName :: "string \<Rightarrow> gerr + unit" where
  "validateBucketName name =
     (if length name < 3 \<or> length name > 63
      then Inl (ENew (''bucket name '' @ fmtQ name @ '' must be 3-63 characters''))
      else if \<not> bucketNameRE name
      then Inl (ENew (''bucket name '' @ fmtQ name @ '' is invalid: must be lowercase, start/end with letter or digit, no consecutive dots or hyphens at edges''))
      else if containsStr name ''..''
      then Inl (ENew (''bucket name '' @ fmtQ name @ '' must not contain consecutive dots''))
      else Inr ())"

definition runFlush :: "('w daemon \<Rightarrow> 'w daemon) option \<Rightarrow> ('w daemon, unit) act" where
  "runFlush flushStructure = (case flushStructure of None \<Rightarrow> ret () | Some f \<Rightarrow> modify f)"

definition CreateBucket ::
  "'w svc \<Rightarrow> ('w daemon \<Rightarrow> 'w daemon) option \<Rightarrow> string \<Rightarrow> string \<Rightarrow> string \<Rightarrow> ('w daemon, unit) act" where
  "CreateBucket S flushStructure name ownerUserID locationID =
     thn (liftE (validateBucketName name))
    (thn (if trimSpace locationID = [] then fail (ENew ''no webdav location configured'') else ret ())
    (bnd (wrapE (wrapAs ''get location'')
            (askStructure S ''structure.GetLocation'' (\<lambda>d. GetLocation d locationID))) (\<lambda>loc.
     bnd (attempt (askStructure S ''structure.GetBucket'' (\<lambda>d. GetBucket d name))) (\<lambda>dup.
     thn (case dup of Inr _ \<Rightarrow> fail (ENew (''bucket '' @ fmtQ name @ '' already exists'')) | Inl _ \<Rightarrow> ret ())
    (bnd (newUUID S) (\<lambda>bucketID.
     let metaDir = loc_BaseDir loc @ ''_meta''; remotePath = metaPath (loc_BaseDir loc) bucketID in
     thn (wrapE (wrapAs (''mkdir '' @ metaDir)) (wdc S (\<lambda>c. cl_MkdirAll c metaDir)))
    (thn (wrapE (wrapAs ''create temp bucket db'') (os S ''CreateTemp''))
    (thn (wrapE (wrapAs ''open bucket db'') (os S ''OpenBucketDB''))
    (thn (wrapE (wrapAs ''upload bucket db to WebDAV'')
           (wdc S (\<lambda>c. cl_UploadFromFile c remotePath (env_saveBucket (svc_env S) emptyBucketDB))))
    (bnd (timeNow S) (\<lambda>now.
     thn (wrapE (wrapAs ''record bucket in structure db'')
           (changeStructure S ''structure.AddBucket'' (\<lambda>d. AddBucket d
              \<lparr>bkt_ID = bucketID, bkt_Name = name, bkt_OwnerUserID = ownerUserID,
               bkt_WebDAVLocationID = locationID, bkt_CreatedAt = now\<rparr>)))
         (runFlush flushStructure))))))))))))"

definition DeleteBucket :: "'w svc \<Rightarrow> ('w daemon \<Rightarrow> 'w daemon) option \<Rightarrow> string \<Rightarrow> ('w daemon, unit) act" where
  "DeleteBucket S flushStructure name =
     bnd (wrapE (wrapAs (''get bucket '' @ fmtQ name))
            (askStructure S ''structure.GetBucket'' (\<lambda>d. GetBucket d name))) (\<lambda>b.
     bnd (locationOf S b) (\<lambda>loc.
     thn (attempt (wdc S (\<lambda>c. cl_Delete c (metaPath (loc_BaseDir loc) (bkt_ID b)))))
    (thn (changeStructure S ''structure.DeleteBucket'' (\<lambda>d. DeleteBucketRow d name))
         (runFlush flushStructure))))"

definition svcListBuckets :: "'w svc \<Rightarrow> string \<Rightarrow> ('w daemon, Bucket list) act" where
  "svcListBuckets S ownerUserID =
     (if ownerUserID = [] then askStructure S ''structure.ListBuckets'' (\<lambda>d. Inr (ListBuckets d))
      else askStructure S ''structure.ListBucketsByUser'' (\<lambda>d. Inr (ListBucketsByUser d ownerUserID)))"

section \<open>Bucket names\<close>

lemma nameChar_plain: "nameChar c \<Longrightarrow> c \<noteq> CHR ''/'' \<and> c \<noteq> CHR ''.''"
  by (auto simp: nameChar_def Let_def)

lemma bucketNameRE_chars:
  assumes "bucketNameRE s" and "c \<in> set s"
  shows "nameChar c \<or> c = CHR ''-''"
proof -
  from assms(1) have "3 \<le> length s" by (simp add: bucketNameRE_def)
  then have "s \<noteq> []" "tl s \<noteq> []" by (cases s; cases "tl s"; simp)+
  then have "s = hd s # butlast (tl s) @ [last s]"
    by (metis append_butlast_last_id last_tl list.exhaust_sel)
  with assms(2) have "c \<in> set (hd s # butlast (tl s) @ [last s])" by metis
  with assms(1) show ?thesis by (auto simp: bucketNameRE_def list_all_iff)
qed

lemma containsStr_chars: "containsStr s (x # xs) \<Longrightarrow> x \<in> set s"
proof (induction s)
  case Nil
  then show ?case by (simp add: containsStr_def indexOf.simps)
next
  case (Cons c s)
  then show ?case by (cases "hasPrefix (c # s) (x # xs)") (auto simp: containsStr_def indexOf.simps)
qed

lemma validateBucketName_iff: "validateBucketName name = Inr () \<longleftrightarrow> bucketNameRE name"
proof
  assume re: "bucketNameRE name"
  then have "\<not> containsStr name ''..''"
    using bucketNameRE_chars nameChar_plain containsStr_chars [of name "CHR ''.''" "''.''"] by fastforce
  with re show "validateBucketName name = Inr ()" by (simp add: validateBucketName_def bucketNameRE_def)
qed (auto simp: validateBucketName_def split: if_splits)

section \<open>What the operations do to the structure database\<close>

text \<open>
  Everything \<open>CreateBucket\<close> does before it records the bucket: it gives the bucket an id on the
  location and leaves the structure database alone.
\<close>

lemma CreateBucket_Inr:
  assumes "CreateBucket S fl name owner l s = (Inr (), t)"
  shows "\<exists>b u. AddBucket (d_structure s) b = Inr (d_structure u) \<and> bkt_Name b = name \<and> bkt_OwnerUserID b = owner
     \<and> bkt_WebDAVLocationID b = l \<and> (\<exists>loc. GetLocation (d_structure s) l = Inr loc)
     \<and> bucketNameRE name \<and> trimSpace l \<noteq> [] \<and> runFlush fl u = (Inr (), t)"
proof -
  from assms obtain loc dup oid now s1 s2 s3 s4 s5 s6 s7 s8 u where
    v: "validateBucketName name = Inr ()" "trimSpace l \<noteq> []"
    and 1: "askStructure S ''structure.GetLocation'' (\<lambda>d. GetLocation d l) s = (Inr loc, s1)"
    and 2: "attempt (askStructure S ''structure.GetBucket'' (\<lambda>d. GetBucket d name)) s1 = (Inr dup, s2)"
    and 3: "newUUID S s2 = (Inr oid, s3)"
    and 4: "wdc S (\<lambda>c. cl_MkdirAll c (loc_BaseDir loc @ ''_meta'')) s3 = (Inr (), s4)"
    and 5: "os S ''CreateTemp'' s4 = (Inr (), s5)" and 6: "os S ''OpenBucketDB'' s5 = (Inr (), s6)"
    and 7: "wdc S (\<lambda>c. cl_UploadFromFile c (metaPath (loc_BaseDir loc) oid)
         (env_saveBucket (svc_env S) emptyBucketDB)) s6 = (Inr (), s7)"
    and 8: "timeNow S s7 = (Inr now, s8)"
    and 9: "changeStructure S ''structure.AddBucket'' (\<lambda>d. AddBucket d \<lparr>bkt_ID = oid, bkt_Name = name,
         bkt_OwnerUserID = owner, bkt_WebDAVLocationID = l, bkt_CreatedAt = now\<rparr>) s8 = (Inr (), u)"
    and 10: "runFlush fl u = (Inr (), t)"
    unfolding CreateBucket_def Let_def
    by (auto simp: liftE_def elim!: act_elims dest!: wrapE_InrD split: if_splits sum.splits)
  have "d_structure s8 = d_structure s"
    using structureD [OF kept_structure_ask 1] structureD [OF kept_attempt [OF kept_structure_ask] 2]
      structureD [OF kept_structure(3) 3] structureD [OF kept_structure(4) 4] structureD [OF kept_structure(1) 5]
      structureD [OF kept_structure(1) 6] structureD [OF kept_structure(4) 7] structureD [OF kept_structure(2) 8]
    by simp
  with changeStructure_Inr [OF 9] askStructure_Inr [OF 1] v 10 show ?thesis
    by (intro exI [of _ "\<lparr>bkt_ID = oid, bkt_Name = name, bkt_OwnerUserID = owner, bkt_WebDAVLocationID = l,
        bkt_CreatedAt = now\<rparr>"] exI [of _ u]) (simp add: validateBucketName_iff)
qed

lemma CreateBucket_fails:
  "hoare (\<lambda>s. d_structure s = d) (CreateBucket S fl name owner l) (\<lambda>_ _. True) (\<lambda>_ s. d_structure s = d)"
proof -
  have add: "hoare (\<lambda>s. d_structure s = d) (thn (wrapE g (changeStructure S lb f)) (runFlush fl))
      (\<lambda>_ _. True) (\<lambda>_ s. d_structure s = d)" for g lb f
  proof (rule hoare_thn [where R = "\<lambda>_. True"])
    show "hoare (\<lambda>_. True) (runFlush fl) (\<lambda>_ _. True) (\<lambda>_ s. d_structure s = d)"
      by (auto simp: hoare_def runFlush_def ret_def modify_def split: option.split)
    show "hoare (\<lambda>s. d_structure s = d) (wrapE g (changeStructure S lb f)) (\<lambda>_ _. True) (\<lambda>_ s. d_structure s = d)"
      by (rule hoare_wrapE) (auto intro!: hoareI dest: changeStructure_Inl)
  qed
  show ?thesis unfolding CreateBucket_def Let_def
    by (intro hoare_kept_thn hoare_kept_bnd add keeps kept_structure kept_structure_ask)
qed

lemma DeleteBucket_Inr:
  assumes "DeleteBucket S fl name s = (Inr (), t)"
  shows "\<exists>u. DeleteBucketRow (d_structure s) name = Inr (d_structure u) \<and> runFlush fl u = (Inr (), t)"
proof -
  from assms obtain b and loc :: Location and r s1 s2 s3 u where
    1: "askStructure S ''structure.GetBucket'' (\<lambda>d. GetBucket d name) s = (Inr b, s1)"
    and 2: "locationOf S b s1 = (Inr loc, s2)"
    and 3: "attempt (wdc S (\<lambda>c. cl_Delete c (metaPath (loc_BaseDir loc) (bkt_ID b)))) s2 = (Inr r, s3)"
    and 4: "changeStructure S ''structure.DeleteBucket'' (\<lambda>d. DeleteBucketRow d name) s3 = (Inr (), u)"
    and 5: "runFlush fl u = (Inr (), t)"
    unfolding DeleteBucket_def by (auto elim!: act_elims dest!: wrapE_InrD)
  have "d_structure s3 = d_structure s"
    using structureD [OF kept_structure_ask 1] structureD [OF kept_attempt [OF kept_structure(4)] 3]
      structureD [OF kept_wrapE [OF kept_structure_ask] 2 [unfolded locationOf_def]] by simp
  with changeStructure_Inr [OF 4] 5 show ?thesis by auto
qed

section \<open>Properties\<close>

text \<open>The callback does not change the structure database: flushing only writes it out.\<close>

definition flushQuiet :: "('w daemon \<Rightarrow> 'w daemon) option \<Rightarrow> bool" where
  "flushQuiet fl \<longleftrightarrow> (case fl of None \<Rightarrow> True | Some f \<Rightarrow> \<forall>u. d_structure (f u) = d_structure u)"

lemma runFlush_quiet: "flushQuiet fl \<Longrightarrow> runFlush fl u = (r, t) \<Longrightarrow> d_structure t = d_structure u"
  by (auto simp: flushQuiet_def runFlush_def ret_def modify_def split: option.splits)

lemma trimSpace_l: "trimSpace ''l'' = ''l''"
  by code_simp

lemma demoState_wf [simp]: "structure_wf (d_structure demoState)"
  by (simp add: demoState_def demoStructure_def structure_wf_def uniqueOn_def locationKeys_def userKeys_def bucketKeys_def)

lemma flushQuiet_None [simp]: "flushQuiet None"
  by (simp add: flushQuiet_def)

lemmas bucket_service_defs = CreateBucket_def DeleteBucket_def validateBucketName_def bucketNameRE_def
  nameChar_def runFlush_def AddBucket_def insertRow_def conflicts_def bucketKeys_def bucketRow_def
  DeleteBucketRow_def deleteRows_def containsStr_def indexOf.simps

lemma length_uuidText: "length buf = 16 \<Longrightarrow> length (uuidText buf) = 36"
  by (simp add: uuidText_def Let_def)

lemma uuid_new: "length s \<noteq> 36 \<Longrightarrow> s \<noteq> uuidText (replicate 16 c)"
  using length_uuidText [of "replicate 16 c"] by auto

lemma demo_create: "\<exists>t. CreateBucket demoSvc None ''third'' ''u'' ''l'' demoState = (Inr (), t)
   \<and> (\<exists>u. DeleteBucket demoSvc None ''third'' t = (Inr (), u))"
  by (simp add: bucket_service_defs trimSpace_l run_defs uuid_new)

text \<open>C16: a bucket that was created exists, and nothing else changed: its name is a valid S3 bucket name
  (so it holds no slash and no dot), no bucket had that name before, now it belongs to the owner on
  the location asked for, every other name resolves as before, and the constraints still hold.\<close>

theorem CreateBucket_records:
  assumes "structure_wf (d_structure s)" and "flushQuiet fl" and "CreateBucket S fl name owner l s = (Inr (), t)"
  shows "bucketNameRE name \<and> (\<exists>e. GetBucket (d_structure s) name = Inl e)
     \<and> (\<exists>b. GetBucket (d_structure t) name = Inr b \<and> bkt_OwnerUserID b = owner \<and> bkt_WebDAVLocationID b = l)
     \<and> (k \<noteq> name \<longrightarrow> GetBucket (d_structure t) k = GetBucket (d_structure s) k)
     \<and> structure_wf (d_structure t)"
proof -
  from CreateBucket_Inr [OF assms(3)] obtain b u where add: "AddBucket (d_structure s) b = Inr (d_structure u)"
    and b: "bkt_Name b = name" "bkt_OwnerUserID b = owner" "bkt_WebDAVLocationID b = l" and re: "bucketNameRE name"
    and fl: "runFlush fl u = (Inr (), t)" by blast
  have t: "d_structure t = d_structure u" by (rule runFlush_quiet [OF assms(2) fl])
  from bkts.insert_new [OF assms(1) add] bkts.lookup_insert [OF assms(1) add] bkts.invar_insert [OF assms(1) add] b re
  show ?thesis by (auto simp: t scanBucket_def bucketRow_def)
qed

theorem CreateBucket_records_witness:
  "\<exists>t b. CreateBucket demoSvc None ''third'' ''u'' ''l'' demoState = (Inr (), t)
     \<and> GetBucket (d_structure t) ''third'' = Inr b \<and> bkt_OwnerUserID b = ''u''"
proof -
  obtain t where t: "CreateBucket demoSvc None ''third'' ''u'' ''l'' demoState = (Inr (), t)"
    using demo_create by (elim exE conjE) (rule that)
  from CreateBucket_records [OF demoState_wf flushQuiet_None t] t show ?thesis by metis
qed

text \<open>A bucket that could not be created left no trace in the structure database, whichever step
  failed: validation, the location, a duplicate name, or any call to the server or the database.\<close>

theorem CreateBucket_failure:
  assumes "CreateBucket S fl name owner l s = (Inl e, t)"
  shows "d_structure t = d_structure s"
  using hoareD_Inl [OF CreateBucket_fails refl assms] .

theorem CreateBucket_failure_witness:
  "\<exists>e t. CreateBucket demoSvc None ''first'' ''u'' ''l'' demoState = (Inl e, t)
     \<and> d_structure t = d_structure demoState"
proof -
  have "\<exists>e t. CreateBucket demoSvc None ''first'' ''u'' ''l'' demoState = (Inl e, t)"
    by (simp add: bucket_service_defs trimSpace_l run_defs)
  then obtain e t where t: "CreateBucket demoSvc None ''first'' ''u'' ''l'' demoState = (Inl e, t)"
    by (elim exE) (rule that)
  from CreateBucket_failure [OF t] t show ?thesis by metis
qed

text \<open>C17: deleting a bucket that was just created restores every lookup, and only buckets that exist can be
  deleted.\<close>

theorem CreateBucket_DeleteBucket:
  assumes "structure_wf (d_structure s)" and "flushQuiet fl" and "CreateBucket S fl name owner l s = (Inr (), t)"
    and "DeleteBucket S fl name t = (Inr (), u)"
  shows "bkts.abs (d_structure u) = bkts.abs (d_structure s) \<and> structure_wf (d_structure u)
    \<and> fst (DeleteBucket S fl name u) \<noteq> Inr ()"
proof -
  from CreateBucket_Inr [OF assms(3)] obtain b t' where add: "AddBucket (d_structure s) b = Inr (d_structure t')"
    and b: "bkt_Name b = name" and fl: "runFlush fl t' = (Inr (), t)" by blast
  have t: "d_structure t = d_structure t'" by (rule runFlush_quiet [OF assms(2) fl])
  from DeleteBucket_Inr [OF assms(4)] obtain u' where del: "DeleteBucketRow (d_structure t') name = Inr (d_structure u')"
    and fl': "runFlush fl u' = (Inr (), u)" by (auto simp: t)
  have u: "d_structure u = d_structure u'" by (rule runFlush_quiet [OF assms(2) fl'])
  note wf = bkts.invar_insert [OF assms(1) add]
  have abs: "bkts.abs (d_structure u') = (bkts.abs (d_structure s))(name := None)"
    using bkts.abs_remove [OF wf del] bkts.abs_insert [OF assms(1) add] b by simp
  have none: "bkts.abs (d_structure s) name = None"
    using bkts.insert_new [OF assms(1) add] b by (auto simp: bkts.abs_def)
  have "fst (DeleteBucket S fl name u) \<noteq> Inr ()"
  proof
    assume "fst (DeleteBucket S fl name u) = Inr ()"
    then obtain v where "DeleteBucket S fl name u = (Inr (), v)" by (metis prod.collapse)
    from DeleteBucket_Inr [OF this] bkts.lookup_removed [OF wf del] bkts.remove_iff [of "d_structure u'" name]
      bkts.invar_remove [OF wf del] show False by (auto simp: u)
  qed
  with abs none bkts.invar_remove [OF wf del] show ?thesis by (simp add: u fun_upd_idem)
qed

theorem CreateBucket_DeleteBucket_witness:
  "\<exists>t u. CreateBucket demoSvc None ''third'' ''u'' ''l'' demoState = (Inr (), t)
     \<and> DeleteBucket demoSvc None ''third'' t = (Inr (), u)
     \<and> bkts.abs (d_structure u) = bkts.abs (d_structure demoState)"
proof -
  obtain t u where t: "CreateBucket demoSvc None ''third'' ''u'' ''l'' demoState = (Inr (), t)"
    and u: "DeleteBucket demoSvc None ''third'' t = (Inr (), u)"
    using demo_create by (elim exE conjE) (rule that)
  from CreateBucket_DeleteBucket [OF demoState_wf flushQuiet_None t u] t u show ?thesis by metis
qed

text \<open>A bucket that still holds objects is deleted like any other (the README speaks of an empty
  bucket): its objects can no longer be read, although their contents are still on the server.\<close>

theorem DeleteBucket_not_empty:
  "\<exists>t. DeleteBucket demoSvc None ''first'' demoShared = (Inr (), t)
     \<and> map obj_Key (objects (bdbOf t ''b1'')) = [''k1'', ''k2'']
     \<and> map_of (d_world t) ''/_data/ab/abc'' = Some ''xyz''
     \<and> (\<exists>e. fst (Get demoSvc ''first'' ''k1'' t) = Inl e)"
  by (simp add: bucket_service_defs get_defs demoShared_def demoRow_def run_defs hasPrefix_def)

end
