(* ===== verification/Sync.thy ===== *)
theory Sync
  imports Daemon Object
begin

text \<open>
  \<open>internal/sync/sync.go\<close>: the engine that carries the databases between the local cache and the
  WebDAV locations, with \<open>StatsDB.Flush\<close> and \<open>ValidateBucketDBFile\<close> of \<open>internal/meta\<close>. The engine
  of \<open>main.go\<close> shares the client, the databases, the cache directory and the repair manager with
  the services (\<open>eng_svc\<close>); decrypting a password and making a client for a location are fields, as
  in the source. Temporary and backup files are private to a call; what matters of the local files
  is \<open>d_bdb\<close>.
\<close>

record 'w engine =
  eng_svc :: "'w svc"
  eng_daemonID :: string
  eng_encryptionKey :: string
  eng_decryptPassword :: "(string \<Rightarrow> string \<Rightarrow> gerr + string) option"
  eng_newLocationClient :: "string \<Rightarrow> string \<Rightarrow> string \<Rightarrow> ('w, 'w Client) act"
  eng_evictBucket :: bool

definition structurePath :: "string \<Rightarrow> string" where
  "structurePath baseDir = baseDir @ ''_meta/structure.db''"

definition localPath :: "'w engine \<Rightarrow> string \<Rightarrow> string" where
  "localPath E bucketID = pathJoin [svc_cacheDir (eng_svc E), ''bucket-'' @ bucketID @ ''.db'']"

text \<open>A call on the client of a location, and one to the operating system.\<close>

definition onClient :: "'w Client \<Rightarrow> ('w Client \<Rightarrow> ('w, 'a) act) \<Rightarrow> ('w daemon, 'a) act" where
  "onClient c m = onWorld (m c)"

definition eos :: "'w engine \<Rightarrow> string \<Rightarrow> ('w daemon, unit) act" where
  "eos E label = os (eng_svc E) label"

definition primaryBaseDir :: "'w engine \<Rightarrow> ('w daemon, string) act" where
  "primaryBaseDir E =
     bnd (attempt (askStructure (eng_svc E) ''structure.ListLocations'' (\<lambda>d. Inr (ListLocations d)))) (\<lambda>r.
       ret (case r of Inl e \<Rightarrow> ''/'' | Inr locs \<Rightarrow> if locs = [] then ''/'' else loc_BaseDir (hd locs)))"

definition clientForLocation :: "'w engine \<Rightarrow> Location \<Rightarrow> ('w daemon, 'w Client) act" where
  "clientForLocation E loc =
     bnd (case eng_decryptPassword E of
            None \<Rightarrow> ret (loc_PasswordEnc loc)
          | Some decrypt \<Rightarrow>
              if eng_encryptionKey E = [] then ret (loc_PasswordEnc loc)
              else wrapE (wrapAs ''decrypt password'')
                     (liftE (decrypt (loc_PasswordEnc loc) (eng_encryptionKey E)))) (\<lambda>password.
     onWorld (eng_newLocationClient E (loc_URL loc) (loc_Username loc) password))"

section \<open>Merging the structure\<close>

definition sameLocationEndpoint :: "Location \<Rightarrow> Location \<Rightarrow> bool" where
  "sameLocationEndpoint a b \<longleftrightarrow>
     trimRightSet (loc_URL a) ''/'' = trimRightSet (loc_URL b) ''/'' \<and> loc_Username a = loc_Username b"

definition findMatchingLocationID :: "Location list \<Rightarrow> Location \<Rightarrow> string option" where
  "findMatchingLocationID localLocs remoteLoc =
     map_option loc_ID (List.find (\<lambda>loc. sameLocationEndpoint loc remoteLoc) localLocs)"

fun mergeLocations ::
  "'w engine \<Rightarrow> Location \<Rightarrow> Location list \<Rightarrow> Location list \<Rightarrow> (string \<rightharpoonup> string)
     \<Rightarrow> ('w daemon, string \<rightharpoonup> string) act" where
  "mergeLocations E target localLocs [] idMap = ret idMap"
| "mergeLocations E target localLocs (loc # locs) idMap =
     (if sameLocationEndpoint target loc
      then mergeLocations E target localLocs locs (idMap(loc_ID loc \<mapsto> loc_ID target))
      else case findMatchingLocationID localLocs loc of
             Some localID \<Rightarrow> mergeLocations E target localLocs locs (idMap(loc_ID loc \<mapsto> localID))
           | None \<Rightarrow>
               bnd (attempt (askStructure (eng_svc E) ''structure.GetLocation'' (\<lambda>d. GetLocation d (loc_ID loc)))) (\<lambda>r.
               thn (case r of
                      Inr _ \<Rightarrow> ret ()
                    | Inl _ \<Rightarrow> wrapE (wrapAs (''merge location '' @ loc_ID loc))
                        (changeStructure (eng_svc E) ''structure.AddLocation'' (\<lambda>d. AddLocation d loc)))
                   (mergeLocations E target localLocs locs (idMap(loc_ID loc \<mapsto> loc_ID loc)))))"

fun mergeUsers :: "'w engine \<Rightarrow> User list \<Rightarrow> ('w daemon, unit) act" where
  "mergeUsers E [] = ret ()"
| "mergeUsers E (u # us) =
     bnd (attempt (askStructure (eng_svc E) ''structure.GetUser'' (\<lambda>d. GetUser d (usr_ID u)))) (\<lambda>r.
     thn (case r of
            Inr _ \<Rightarrow> ret ()
          | Inl _ \<Rightarrow> wrapE (wrapAs (''merge user '' @ usr_ID u))
              (changeStructure (eng_svc E) ''structure.AddUser'' (\<lambda>d. AddUser d u)))
         (mergeUsers E us))"

definition mappedLocation :: "(string \<rightharpoonup> string) \<Rightarrow> Bucket \<Rightarrow> string" where
  "mappedLocation idMap b = (case idMap (bkt_WebDAVLocationID b) of Some m \<Rightarrow> m | None \<Rightarrow> bkt_WebDAVLocationID b)"

fun mergeBuckets :: "'w engine \<Rightarrow> (string \<rightharpoonup> string) \<Rightarrow> Bucket list \<Rightarrow> ('w daemon, unit) act" where
  "mergeBuckets E idMap [] = ret ()"
| "mergeBuckets E idMap (b # bs) =
     (let localID = mappedLocation idMap b in
      bnd (attempt (askStructure (eng_svc E) ''structure.GetBucket'' (\<lambda>d. GetBucket d (bkt_Name b)))) (\<lambda>r.
      thn (case r of
             Inr existing \<Rightarrow>
               if bkt_WebDAVLocationID existing \<noteq> localID
               then wrapE (wrapAs (''update bucket '' @ bkt_Name b @ '' location''))
                      (changeStructure (eng_svc E) ''structure.UpdateBucket''
                         (\<lambda>d. Inr (UpdateBucket d (existing\<lparr>bkt_WebDAVLocationID := localID\<rparr>))))
               else ret ()
           | Inl _ \<Rightarrow> wrapE (wrapAs (''merge bucket '' @ bkt_Name b))
               (changeStructure (eng_svc E) ''structure.AddBucket''
                  (\<lambda>d. AddBucket d (b\<lparr>bkt_WebDAVLocationID := localID\<rparr>))))
          (mergeBuckets E idMap bs)))"

text \<open>Reading the opened remote database may fail too.\<close>

definition askRemote :: "'w engine \<Rightarrow> string \<Rightarrow> 'a \<Rightarrow> ('w daemon, 'a) act" where
  "askRemote E label x = thn (eos E label) (ret x)"

definition mergeStructure :: "'w engine \<Rightarrow> structureDB \<Rightarrow> Location \<Rightarrow> ('w daemon, string \<rightharpoonup> string) act" where
  "mergeStructure E remote target =
     bnd (wrapE (wrapAs ''list local locations'')
            (askStructure (eng_svc E) ''structure.ListLocations'' (\<lambda>d. Inr (ListLocations d)))) (\<lambda>localLocs.
     bnd (wrapE (wrapAs ''list remote locations'') (askRemote E ''remote.ListLocations'' (ListLocations remote))) (\<lambda>remoteLocs.
     bnd (mergeLocations E target localLocs remoteLocs Map.empty) (\<lambda>idMap.
     bnd (wrapE (wrapAs ''list remote users'') (askRemote E ''remote.ListUsers'' (ListUsers remote))) (\<lambda>remoteUsers.
     thn (mergeUsers E remoteUsers)
    (bnd (wrapE (wrapAs ''list remote buckets'') (askRemote E ''remote.ListBuckets'' (ListBuckets remote))) (\<lambda>remoteBuckets.
     thn (mergeBuckets E idMap remoteBuckets) (ret idMap)))))))"

section \<open>Bucket databases\<close>

text \<open>
  \<open>ValidateBucketDBFile\<close>, on bytes that were downloaded and on the local file of a bucket. Opening a
  file that is missing makes an empty database, which is valid.
\<close>

definition validateBytes :: "'w engine \<Rightarrow> bytes \<Rightarrow> ('w daemon, unit) act" where
  "validateBytes E data =
     thn (eos E ''ValidateBucketDBFile'')
       (liftE (case env_openBucket (svc_env (eng_svc E)) data of
                 Inl e \<Rightarrow> Inl (wrapAs ''integrity_check bucket db'' e) | Inr _ \<Rightarrow> Inr ()))"

definition validateLocal :: "'w engine \<Rightarrow> string \<Rightarrow> ('w daemon, unit) act" where
  "validateLocal E ident =
     thn (eos E ''ValidateBucketDBFile'')
       (\<lambda>s. case d_bdb s ident of
              None \<Rightarrow> (Inr (), setBdb s ident emptyBucketDB)
            | Some (Inl e) \<Rightarrow> (Inl (wrapAs ''integrity_check bucket db'' e), s)
            | Some (Inr b) \<Rightarrow> (Inr (), s))"

text \<open>\<open>meta.OpenBucketDB\<close> of the local file, outside the cache.\<close>

definition openLocal :: "'w engine \<Rightarrow> string \<Rightarrow> ('w daemon, bucketDB) act" where
  "openLocal E ident =
     thn (eos E ''OpenBucketDB'')
       (\<lambda>s. case d_bdb s ident of
              None \<Rightarrow> (Inr emptyBucketDB, setBdb s ident emptyBucketDB)
            | Some (Inl e) \<Rightarrow> (Inl e, s)
            | Some (Inr b) \<Rightarrow> (Inr b, s))"

definition statLocal :: "'w engine \<Rightarrow> string \<Rightarrow> ('w daemon, bool) act" where
  "statLocal E ident = thn (eos E ''stat'') (gets (\<lambda>s. d_bdb s ident \<noteq> None))"

definition saveBucketDBFile :: "'w engine \<Rightarrow> string \<Rightarrow> ('w daemon, bytes) act" where
  "saveBucketDBFile E ident =
     bnd (wrapE (wrapAs ''open local bucket db'') (openLocal E ident)) (\<lambda>b.
     thn (wrapE (wrapAs ''export local bucket db'') (eos E ''bdb.SaveToFile''))
         (ret (env_saveBucket (svc_env (eng_svc E)) b)))"

definition isMalformedSQLiteError :: "gerr \<Rightarrow> bool" where
  "isMalformedSQLiteError e \<longleftrightarrow>
     containsStr (errText e) ''database disk image is malformed'' \<or> containsStr (errText e) ''SQLITE_CORRUPT''"

definition exportSQLiteReadOnly :: "'w engine \<Rightarrow> string \<Rightarrow> ('w daemon, bytes) act" where
  "exportSQLiteReadOnly E ident =
     thn (eos E ''filepath.Abs'') (thn (eos E ''sql.Open'')
    (thn (wrapE (wrapAs ''integrity_check'') (eos E ''integrity_check''))
    (bnd (\<lambda>s. case d_bdb s ident of
              None \<Rightarrow> (Inl (ESQL (DBFail ''unable to open database file'')), s)
            | Some (Inl e) \<Rightarrow> (Inl (wrapAs ''integrity_check'' e), s)
            | Some (Inr b) \<Rightarrow> (Inr b, s)) (\<lambda>b.
     thn (eos E ''VACUUM INTO'') (ret (env_saveBucket (svc_env (eng_svc E)) b))))))"

definition exportBucketDBForRepair :: "'w engine \<Rightarrow> string \<Rightarrow> ('w daemon, bytes) act" where
  "exportBucketDBForRepair E ident =
     orElse (saveBucketDBFile E ident)
       (\<lambda>e. if \<not> isMalformedSQLiteError e then fail e
            else wrapE (wrapAs ''export local bucket db read-only fallback'') (exportSQLiteReadOnly E ident))"

definition evict :: "'w engine \<Rightarrow> string \<Rightarrow> ('w daemon, unit) act" where
  "evict E ident = (if eng_evictBucket E then cacheRemove ident else ret ())"

definition repairRemoteBucketDB :: "'w engine \<Rightarrow> 'w Client \<Rightarrow> string \<Rightarrow> string \<Rightarrow> ('w daemon, unit) act" where
  "repairRemoteBucketDB E c bucketID baseDir =
     (if svc_cacheDir (eng_svc E) = [] then fail (ENew ''local_cache_dir is required'')
      else
        thn (evict E bucketID)
       (thn (wrapE (wrapAs ''validate local bucket db'') (validateLocal E bucketID))
       (thn (wrapE (wrapAs ''backup local bucket db'') (eos E ''copyFile''))
       (thn (wrapE (wrapAs (''backup local bucket sidecar '' @ localPath E bucketID @ ''-wal'')) (eos E ''copyFileIfExists''))
       (thn (wrapE (wrapAs (''backup local bucket sidecar '' @ localPath E bucketID @ ''-shm'')) (eos E ''copyFileIfExists''))
       (thn (wrapE (wrapAs ''create repair export'') (eos E ''CreateTemp''))
       (bnd (exportBucketDBForRepair E bucketID) (\<lambda>export.
        let remotePath = metaPath baseDir bucketID in
        thn (wrapE (wrapAs ''upload repaired bucket db'') (onClient c (\<lambda>cl. cl_UploadFromFile cl remotePath export)))
       (thn (wrapE (wrapAs ''create repair verify'') (eos E ''CreateTemp''))
       (bnd (wrapE (wrapAs ''download repaired bucket db'') (onClient c (\<lambda>cl. cl_DownloadToFile cl remotePath))) (\<lambda>verify.
        wrapE (wrapAs ''validate repaired remote bucket db'') (validateBytes E verify))))))))))))"

text \<open>\<open>replaceFile\<close>, the downloaded database \<open>b\<close> taking the place of the local file.\<close>

definition setLocal :: "string \<Rightarrow> (gerr + bucketDB) option \<Rightarrow> ('w daemon, unit) act" where
  "setLocal ident f = modify (\<lambda>s. s\<lparr>d_bdb := (d_bdb s)(ident := f)\<rparr>)"

definition replaceFile :: "'w engine \<Rightarrow> string \<Rightarrow> bucketDB \<Rightarrow> ('w daemon, unit) act" where
  "replaceFile E ident b =
     bnd (attempt (eos E ''rename'')) (\<lambda>r. case r of
       Inr _ \<Rightarrow> setLocal ident (Some (Inr b))
     | Inl _ \<Rightarrow>
         thn (attempt (eos E ''remove backup''))
        (bnd (statLocal E ident) (\<lambda>hadExisting.
         bnd (gets (\<lambda>s. d_bdb s ident)) (\<lambda>old.
         thn (if hadExisting then thn (eos E ''rename to backup'') (setLocal ident None) else ret ())
        (orElse (thn (eos E ''rename'') (setLocal ident (Some (Inr b))))
           (\<lambda>e. thn (if hadExisting
                     then bnd (attempt (eos E ''rename back'')) (\<lambda>r. case r of Inr _ \<Rightarrow> setLocal ident old | Inl _ \<Rightarrow> ret ())
                     else ret ())
                    (fail e)))))))"

definition markIf :: "'w engine \<Rightarrow> (Manager \<Rightarrow> Manager) \<Rightarrow> ('w daemon, unit) act" where
  "markIf E f = (if svc_repair (eng_svc E) then modify (\<lambda>s. s\<lparr>d_repair := f (d_repair s)\<rparr>) else ret ())"

text \<open>The branch for a downloaded file that is not a database.\<close>

definition repairFromLocal ::
  "'w engine \<Rightarrow> 'w Client \<Rightarrow> string \<Rightarrow> string \<Rightarrow> gerr \<Rightarrow> ('w daemon, unit) act" where
  "repairFromLocal E c bucketID baseDir err =
     thn (markIf E (\<lambda>m. snd (MarkRepairing m bucketID (errText err))))
    (thn (orElse (repairRemoteBucketDB E c bucketID baseDir)
           (\<lambda>repairErr. thn (markIf E (\<lambda>m. MarkDegraded m bucketID (errText repairErr)))
              (fail (EWrap2 (''validate bucket db '' @ bucketID @ '' from webdav: '') err
                       ''; repair from local failed: '' repairErr []))))
         (markIf E (\<lambda>m. MarkHealthy m bucketID)))"

text \<open>One bucket of the target location, and the loop over all of them.\<close>

definition syncBucket :: "'w engine \<Rightarrow> 'w Client \<Rightarrow> string \<Rightarrow> string \<Rightarrow> ('w daemon, unit) act" where
  "syncBucket E c baseDir bucketID =
     thn (wrapE (wrapAs ''create temp bucket sync'') (eos E ''CreateTemp''))
    (bnd (attempt (onClient c (\<lambda>cl. cl_DownloadToFile cl (metaPath baseDir bucketID)))) (\<lambda>r. case r of
       Inl e \<Rightarrow> if isNotFound e then ret () else fail (wrapAs (''download bucket db '' @ bucketID) e)
     | Inr data \<Rightarrow>
         bnd (attempt (validateBytes E data)) (\<lambda>v. case v of
           Inl err \<Rightarrow> repairFromLocal E c bucketID baseDir err
         | Inr _ \<Rightarrow>
             bnd (wrapE (wrapAs (''stat local bucket db '' @ bucketID @ '' before webdav replace'')) (statLocal E bucketID)) (\<lambda>there.
             if there
             then wrapE (wrapAs (''validate local bucket db '' @ bucketID @ '' before webdav replace'')) (validateLocal E bucketID)
             else thn (evict E bucketID)
               (wrapE (wrapAs (''replace local bucket db '' @ bucketID))
                  (bnd (liftE (env_openBucket (svc_env (eng_svc E)) data)) (replaceFile E bucketID)))))))"

fun syncBuckets ::
  "'w engine \<Rightarrow> 'w Client \<Rightarrow> (string \<rightharpoonup> string) \<Rightarrow> string \<Rightarrow> string \<Rightarrow> Bucket list \<Rightarrow> ('w daemon, unit) act" where
  "syncBuckets E c idMap targetID baseDir [] = ret ()"
| "syncBuckets E c idMap targetID baseDir (b # bs) =
     thn (if mappedLocation idMap b \<noteq> targetID then ret () else syncBucket E c baseDir (bkt_ID b))
         (syncBuckets E c idMap targetID baseDir bs)"

definition syncBucketDBs ::
  "'w engine \<Rightarrow> 'w Client \<Rightarrow> structureDB \<Rightarrow> (string \<rightharpoonup> string) \<Rightarrow> string \<Rightarrow> string \<Rightarrow> ('w daemon, unit) act" where
  "syncBucketDBs E c remote idMap targetID baseDir =
     (if svc_cacheDir (eng_svc E) = [] then ret ()
      else bnd (wrapE (wrapAs ''list remote buckets for metadata sync'') (askRemote E ''remote.ListBuckets'' (ListBuckets remote)))
             (syncBuckets E c idMap targetID baseDir))"

section \<open>Statistics\<close>

definition mergeStats :: "'w engine \<Rightarrow> bytes \<Rightarrow> string \<Rightarrow> (string \<rightharpoonup> string) \<Rightarrow> ('w daemon, unit) act" where
  "mergeStats E data name idMap =
     thn (eos E ''stats.MergeFromFile'')
       (\<lambda>s. case MergeFromFile (d_stats s) (env_openStats (svc_env (eng_svc E)) data) name idMap of
              Inl e \<Rightarrow> (Inl e, s) | Inr db \<Rightarrow> (Inr (), s\<lparr>d_stats := db\<rparr>))"

fun syncStats :: "'w engine \<Rightarrow> 'w Client \<Rightarrow> (string \<rightharpoonup> string) \<Rightarrow> string \<Rightarrow> string list \<Rightarrow> ('w daemon, unit) act" where
  "syncStats E c idMap metaDir [] = ret ()"
| "syncStats E c idMap metaDir (name # names) =
     thn (if \<not> hasPrefix name ''stats-'' \<or> \<not> hasSuffix name ''.db'' \<or> name = ''stats-'' @ eng_daemonID E @ ''.db''
          then ret ()
          else thn (wrapE (wrapAs ''create temp stats sync'') (eos E ''CreateTemp''))
            (bnd (attempt (onClient c (\<lambda>cl. cl_DownloadToFile cl (pathJoin [metaDir, name])))) (\<lambda>r. case r of
               Inl e \<Rightarrow> if isNotFound e then ret () else fail (wrapAs (''download stats db '' @ name) e)
             | Inr data \<Rightarrow> wrapE (wrapAs (''merge stats db '' @ name)) (mergeStats E data name idMap))))
         (syncStats E c idMap metaDir names)"

definition syncStatsDBs :: "'w engine \<Rightarrow> 'w Client \<Rightarrow> (string \<rightharpoonup> string) \<Rightarrow> string \<Rightarrow> ('w daemon, unit) act" where
  "syncStatsDBs E c idMap baseDir =
     (let metaDir = baseDir @ ''_meta'' in
      bnd (attempt (onClient c (\<lambda>cl. cl_ReadDir cl metaDir))) (\<lambda>r. case r of
        Inl e \<Rightarrow> if isNotFound e then ret () else fail (wrapAs (''list '' @ metaDir @ '' for stats sync'') e)
      | Inr names \<Rightarrow> syncStats E c idMap metaDir names))"

section \<open>The engine\<close>

definition SyncFromWebDAV :: "'w engine \<Rightarrow> string \<Rightarrow> ('w daemon, unit) act" where
  "SyncFromWebDAV E locationID =
     bnd (wrapE (wrapAs (''get location '' @ locationID))
            (askStructure (eng_svc E) ''structure.GetLocation'' (\<lambda>d. GetLocation d locationID))) (\<lambda>loc.
     bnd (clientForLocation E loc) (\<lambda>c.
     let metaDir = loc_BaseDir loc @ ''_meta/'' in
     thn (wrapE (wrapAs (''mkdirall '' @ metaDir)) (onClient c (\<lambda>cl. cl_MkdirAll cl metaDir)))
    (thn (wrapE (wrapAs ''create temp'') (eos E ''CreateTemp''))
    (bnd (attempt (onClient c (\<lambda>cl. cl_DownloadToFile cl (structurePath (loc_BaseDir loc))))) (\<lambda>r. case r of
       Inl e \<Rightarrow> if isNotFound e then ret () else fail (wrapAs ''download structure.db'' e)
     | Inr data \<Rightarrow>
         bnd (wrapE (wrapAs ''open remote structure.db'')
                (thn (eos E ''OpenStructureDB'') (liftE (env_openStructure (svc_env (eng_svc E)) data)))) (\<lambda>remote.
         bnd (mergeStructure E remote loc) (\<lambda>idMap.
         thn (syncBucketDBs E c remote idMap locationID (loc_BaseDir loc))
             (syncStatsDBs E c idMap (loc_BaseDir loc)))))))))"

definition FindRemoteLocationID :: "'w engine \<Rightarrow> string \<Rightarrow> ('w daemon, string \<times> bool) act" where
  "FindRemoteLocationID E locationID =
     bnd (wrapE (wrapAs (''get location '' @ locationID))
            (askStructure (eng_svc E) ''structure.GetLocation'' (\<lambda>d. GetLocation d locationID))) (\<lambda>loc.
     bnd (clientForLocation E loc) (\<lambda>c.
     thn (wrapE (wrapAs ''create temp'') (eos E ''CreateTemp''))
    (bnd (attempt (onClient c (\<lambda>cl. cl_DownloadToFile cl (structurePath (loc_BaseDir loc))))) (\<lambda>r. case r of
       Inl e \<Rightarrow> if isNotFound e then ret ([], False) else fail (wrapAs ''download structure.db'' e)
     | Inr data \<Rightarrow>
         bnd (wrapE (wrapAs ''open remote structure.db'')
                (thn (eos E ''OpenStructureDB'') (liftE (env_openStructure (svc_env (eng_svc E)) data)))) (\<lambda>remote.
         bnd (wrapE (wrapAs ''list remote locations'') (askRemote E ''remote.ListLocations'' (ListLocations remote))) (\<lambda>remoteLocs.
         ret (case List.find (\<lambda>r. sameLocationEndpoint loc r \<and> loc_ID r \<noteq> locationID) remoteLocs of
                Some r \<Rightarrow> (loc_ID r, True) | None \<Rightarrow> ([], False))))))))"

definition FlushStructure :: "'w engine \<Rightarrow> ('w daemon, unit) act" where
  "FlushStructure E =
     bnd (primaryBaseDir E) (\<lambda>baseDir.
     let metaDir = baseDir @ ''_meta/'' in
     thn (wrapE (wrapAs (''mkdirall '' @ metaDir)) (wdc (eng_svc E) (\<lambda>c. cl_MkdirAll c metaDir)))
    (thn (wrapE (wrapAs ''create temp'') (eos E ''CreateTemp''))
    (thn (wrapE (wrapAs ''save structure.db'') (eos E ''structure.SaveToFile''))
    (bnd (gets (\<lambda>s. env_saveStructure (svc_env (eng_svc E)) (d_structure s))) (\<lambda>file.
     wrapE (wrapAs ''upload structure.db'')
       (wdc (eng_svc E) (\<lambda>c. cl_UploadFromFile c (structurePath baseDir) file)))))))"

fun flushBuckets :: "'w engine \<Rightarrow> Bucket list \<Rightarrow> ('w daemon, unit) act" where
  "flushBuckets E [] = ret ()"
| "flushBuckets E (b # bs) =
     bnd (wrapE (wrapAs (''stat bucket db '' @ bkt_ID b)) (statLocal E (bkt_ID b))) (\<lambda>there.
     thn (if \<not> there then ret ()
          else
            bnd (wrapE (wrapAs (''open bucket db '' @ bkt_ID b @ '' for flush'')) (openLocal E (bkt_ID b))) (\<lambda>db.
            thn (wrapE (wrapAs ''create temp bucket flush'') (eos E ''CreateTemp''))
           (thn (wrapE (wrapAs (''save bucket db '' @ bkt_ID b)) (eos E ''bdb.SaveToFile''))
           (thn (wrapE (wrapAs (''close bucket db '' @ bkt_ID b)) (eos E ''bdb.Close''))
           (bnd (wrapE (wrapAs (''get location for bucket '' @ bkt_ID b))
                   (askStructure (eng_svc E) ''structure.GetLocation'' (\<lambda>d. GetLocation d (bkt_WebDAVLocationID b)))) (\<lambda>loc.
            bnd (clientForLocation E loc) (\<lambda>c.
            wrapE (wrapAs (''upload bucket db '' @ bkt_ID b))
              (onClient c (\<lambda>cl. cl_UploadFromFile cl (metaPath (loc_BaseDir loc) (bkt_ID b))
                 (env_saveBucket (svc_env (eng_svc E)) db))))))))))
         (flushBuckets E bs))"

definition FlushBucketDBs :: "'w engine \<Rightarrow> ('w daemon, unit) act" where
  "FlushBucketDBs E =
     (if svc_cacheDir (eng_svc E) = [] then ret ()
      else bnd (wrapE (wrapAs ''list buckets for flush'')
                  (askStructure (eng_svc E) ''structure.ListBuckets'' (\<lambda>d. Inr (ListBuckets d))))
             (flushBuckets E))"

text \<open>\<open>StatsDB.Flush\<close> and \<open>FlushStats\<close>: the ledger goes out without the rows that were imported.\<close>

definition statsFlush :: "'w svc \<Rightarrow> string \<Rightarrow> ('w daemon, unit) act" where
  "statsFlush S remotePath =
     thn (wrapE (wrapAs ''create temp for flush'') (os S ''CreateTemp''))
    (thn (wrapE (wrapAs ''checkpoint stats db'') (os S ''checkpoint''))
    (thn (wrapE (wrapAs ''vacuum into temp'') (os S ''VACUUM INTO''))
    (thn (wrapE (wrapAs ''prune imported stats'') (os S ''pruneImportedStats''))
    (bnd (gets (\<lambda>s. env_saveStats (svc_env S) (pruneImportedStats (d_stats s)))) (\<lambda>file.
     wdc S (\<lambda>c. cl_UploadFromFile c remotePath file))))))"

definition FlushStats :: "'w engine \<Rightarrow> ('w daemon, unit) act" where
  "FlushStats E =
     bnd (primaryBaseDir E) (\<lambda>baseDir.
     statsFlush (eng_svc E) (baseDir @ ''_meta/stats-'' @ eng_daemonID E @ ''.db''))"

end
