(* ===== verification/SyncFacts.thy ===== *)
theory SyncFacts
  imports BucketService Sync
begin

text \<open>
  What the sync engine does to what is already there. The first part is about the local side:
  whatever a location offers, a sync adds to the local records and files, and of those that are there it
  only changes the location a bucket is assigned to. The second part is
  about the remote side: what a flush or a repair leaves on the server, for a client that meets the
  contract of \<open>Server\<close>.
\<close>

section \<open>The local records stay\<close>

definition localWins :: "'w daemon \<Rightarrow> 'w daemon \<Rightarrow> bool" where
  "localWins s t \<longleftrightarrow> structure_wf (d_structure t)
     \<and> (\<forall>k v. GetLocation (d_structure s) k = Inr v \<longrightarrow> GetLocation (d_structure t) k = Inr v)
     \<and> (\<forall>k v. GetUser (d_structure s) k = Inr v \<longrightarrow> GetUser (d_structure t) k = Inr v)
     \<and> (\<forall>k b. GetBucket (d_structure s) k = Inr b \<longrightarrow>
          (\<exists>l. GetBucket (d_structure t) k = Inr (b\<lparr>bkt_WebDAVLocationID := l\<rparr>)))
     \<and> d_bdb s \<subseteq>\<^sub>m d_bdb t"

lemma same_location: "\<exists>l. (b :: Bucket) = b\<lparr>bkt_WebDAVLocationID := l\<rparr>"
  by (rule exI [of _ "bkt_WebDAVLocationID b"]) simp

lemma localWins_refl: "structure_wf (d_structure s) \<Longrightarrow> localWins s s"
  using same_location by (auto simp: localWins_def)

text \<open>The three inserts and the one update a merge uses, on the databases.\<close>

lemma other_tables_AddLocation:
  "AddLocation d loc = Inr d' \<Longrightarrow> GetUser d' = GetUser d \<and> GetBucket d' = GetBucket d"
  by (auto simp: AddLocation_def GetUser_def GetBucket_def Let_def fun_eq_iff split: sum.splits)

lemma other_tables_AddUser:
  "AddUser d u = Inr d' \<Longrightarrow> GetLocation d' = GetLocation d \<and> GetBucket d' = GetBucket d"
  by (auto simp: AddUser_def GetLocation_def GetBucket_def fun_eq_iff split: sum.splits)

lemma other_tables_AddBucket:
  "AddBucket d b = Inr d' \<Longrightarrow> GetLocation d' = GetLocation d \<and> GetUser d' = GetUser d"
  by (auto simp: AddBucket_def GetLocation_def GetUser_def fun_eq_iff split: sum.splits)

lemma other_tables_UpdateBucket:
  "GetLocation (UpdateBucket d b) = GetLocation d" "GetUser (UpdateBucket d b) = GetUser d"
  by (auto simp: UpdateBucket_def GetLocation_def GetUser_def fun_eq_iff)

lemma GetBucket_name: "GetBucket d n = Inr b \<Longrightarrow> bkt_Name b = n"
  by (auto simp: GetBucket_def scanBucket_def dest!: selectOne_SomeD split: option.splits)

lemma GetBucket_UpdateBucket:
  assumes "GetBucket d n = Inr b"
  shows "GetBucket (UpdateBucket d (b\<lparr>bkt_WebDAVLocationID := l\<rparr>)) k
    = (if k = n then Inr (b\<lparr>bkt_WebDAVLocationID := l\<rparr>) else GetBucket d k)"
proof -
  have sel: "selectOne (\<lambda>r. bkt_Name r = k') (updateRows (\<lambda>r. bkt_Name r = n) f (buckets d))
      = map_option (\<lambda>r. if bkt_Name r = n then f r else r) (selectOne (\<lambda>r. bkt_Name r = k') (buckets d))"
    if "\<And>r. bkt_Name (f r) = bkt_Name r" for f k'
    using that by (rule selectOne_updateRows)
  from assms obtain r where r: "selectOne (\<lambda>r. bkt_Name r = n) (buckets d) = Some r" "b = scanBucket r"
    by (auto simp: GetBucket_def split: option.splits)
  have n: "bkt_Name (b\<lparr>bkt_WebDAVLocationID := l\<rparr>) = n" using GetBucket_name [OF assms] by simp
  show ?thesis
  proof (cases "k = n")
    case True
    with n r show ?thesis
      by (simp add: GetBucket_def UpdateBucket_def sel scanBucket_def)
  next
    case False
    with n show ?thesis
      by (cases "selectOne (\<lambda>r. bkt_Name r = k) (buckets d)")
        (auto simp: GetBucket_def UpdateBucket_def sel dest: selectOne_SomeD)
  qed
qed

section \<open>Calls that keep them\<close>

lemma localWins_world: "localWins s (t\<lparr>d_world := w\<rparr>) = localWins s t"
  by (simp add: localWins_def)

lemma local_world: "kept (localWins s) (onWorld m)"
  by (simp add: kept_def onWorld_def localWins_world split: prod.split)

lemma local_calls:
  "kept (localWins s) (os S lb)" "kept (localWins s) (eos E lb)" "kept (localWins s) (onClient c m')"
  unfolding os_def eos_def onClient_def by (rule local_world)+

lemma local_ask: "kept (localWins s) (askStructure S lb f)" "kept (localWins s) (askRemote E lb x)"
  unfolding askStructure_def askRemote_def by (intro keeps local_calls | simp add: kept_def)+

lemma local_modify: "(\<And>t. localWins s (f t) = localWins s t) \<Longrightarrow> kept (localWins s) (modify f)"
  by (simp add: kept_def modify_def)

lemma local_cacheRemove: "kept (localWins s) (cacheRemove i)"
  unfolding cacheRemove_def by (rule local_modify) (simp add: localWins_def)

lemma local_markIf: "kept (localWins s) (markIf E f)"
  unfolding markIf_def by (intro keeps local_modify) (simp add: localWins_def)

lemma local_mergeStats: "kept (localWins s) (mergeStats E x n m)"
  unfolding mergeStats_def
  by (intro keeps local_calls) (simp add: kept_def localWins_def split: sum.split)

lemma local_clientForLocation: "kept (localWins s) (clientForLocation E loc)"
  unfolding clientForLocation_def by (intro keeps local_world)

lemma changeStructure_local:
  assumes "localWins s t" and "\<And>d'. f (d_structure t) = Inr d' \<Longrightarrow> localWins s (t\<lparr>d_structure := d'\<rparr>)"
  shows "localWins s (snd (changeStructure S lb f t))"
  using assms
  by (auto simp: changeStructure_def os_def thn_def bnd_def onWorld_def localWins_def split: prod.split sum.split)

lemma local_addLocation: "kept (localWins s) (changeStructure S lb (\<lambda>d. AddLocation d loc))"
proof (intro keptI changeStructure_local)
  fix t d' assume t: "localWins s t" and add: "AddLocation (d_structure t) loc = Inr d'"
  then have "structure_wf (d_structure t)" by (simp add: localWins_def)
  from t locs.lookup_insert [OF this add] locs.insert_new [OF this add] locs.invar_insert [OF this add]
    other_tables_AddLocation [OF add]
  show "localWins s (t\<lparr>d_structure := d'\<rparr>)" by (auto simp: localWins_def)
qed

lemma local_addUser: "kept (localWins s) (changeStructure S lb (\<lambda>d. AddUser d u))"
proof (intro keptI changeStructure_local)
  fix t d' assume t: "localWins s t" and add: "AddUser (d_structure t) u = Inr d'"
  then have "structure_wf (d_structure t)" by (simp add: localWins_def)
  from t usrs.lookup_insert [OF this add] usrs.insert_new [OF this add] usrs.invar_insert [OF this add]
    other_tables_AddUser [OF add]
  show "localWins s (t\<lparr>d_structure := d'\<rparr>)" by (auto simp: localWins_def)
qed

lemma local_addBucket: "kept (localWins s) (changeStructure S lb (\<lambda>d. AddBucket d b))"
proof (intro keptI changeStructure_local)
  fix t d' assume t: "localWins s t" and add: "AddBucket (d_structure t) b = Inr d'"
  then have wf: "structure_wf (d_structure t)" by (simp add: localWins_def)
  have "GetBucket d' k = Inr v" if "GetBucket (d_structure t) k = Inr v" for k v
    using bkts.lookup_insert [OF wf add, of k] bkts.insert_new [OF wf add] that by auto
  with t bkts.invar_insert [OF wf add] other_tables_AddBucket [OF add]
  show "localWins s (t\<lparr>d_structure := d'\<rparr>)" by (fastforce simp: localWins_def)
qed

lemma updateBucket_local:
  assumes t: "localWins s t" and b: "GetBucket (d_structure t) n = Inr b"
  shows "localWins s (t\<lparr>d_structure := UpdateBucket (d_structure t) (b\<lparr>bkt_WebDAVLocationID := l\<rparr>)\<rparr>)"
proof -
  have "\<exists>m. GetBucket (UpdateBucket (d_structure t) (b\<lparr>bkt_WebDAVLocationID := l\<rparr>)) k = Inr (v\<lparr>bkt_WebDAVLocationID := m\<rparr>)"
    if v: "GetBucket (d_structure s) k = Inr v" for k v
  proof -
    from t v have "\<exists>m. GetBucket (d_structure t) k = Inr (v\<lparr>bkt_WebDAVLocationID := m\<rparr>)"
      unfolding localWins_def by blast
    then show ?thesis using b by (cases "k = n") (auto simp: GetBucket_UpdateBucket [OF b] intro: exI [of _ l])
  qed
  with t show ?thesis by (auto simp: localWins_def wf_UpdateBucket other_tables_UpdateBucket)
qed

lemma kept_bnd_dep:
  assumes "kept I m" and "\<And>a s s'. I s' \<Longrightarrow> m s = (Inr a, s') \<Longrightarrow> I (snd (f a s'))"
  shows "kept I (bnd m f)"
proof (rule keptI)
  fix s assume "I s"
  with assms(1) have "I (snd (m s))" by (rule keptD)
  then show "I (snd (bnd m f s))"
    using assms(2) [of "snd (m s)" s] by (cases "m s"; cases "fst (m s)") auto
qed

lemma snd_thn: "I (snd (m s)) \<Longrightarrow> kept I n \<Longrightarrow> I (snd (thn m n s))"
  by (cases "m s"; cases "fst (m s)") (auto simp: kept_def)

lemma snd_wrapE: "snd (wrapE g m s) = snd (m s)"
  by (auto simp: wrapE_def split: prod.split sum.split)

lemma local_mergeLocations: "kept (localWins s) (mergeLocations E target ls locs idMap)"
proof (induction locs arbitrary: idMap)
  case Nil
  then show ?case by (simp add: keeps)
next
  case (Cons loc locs)
  show ?case unfolding mergeLocations.simps by (intro keeps Cons local_ask local_addLocation)
qed

lemma local_mergeUsers: "kept (localWins s) (mergeUsers E us)"
  by (induction us) (auto intro!: keeps local_ask local_addUser)

lemma local_mergeBuckets: "kept (localWins s) (mergeBuckets E idMap bs)"
proof (induction bs)
  case Nil
  then show ?case by (simp add: keeps)
next
  case (Cons b bs)
  let ?l = "mappedLocation idMap b"
  have step: "localWins s (snd ((case r of
             Inr existing \<Rightarrow>
               if bkt_WebDAVLocationID existing \<noteq> ?l
               then wrapE g (changeStructure S lb
                         (\<lambda>d. Inr (UpdateBucket d (existing\<lparr>bkt_WebDAVLocationID := ?l\<rparr>))))
               else ret ()
           | Inl _ \<Rightarrow> wrapE h (changeStructure S lc (\<lambda>d. AddBucket d c))) t))"
    if t: "localWins s t" "\<And>v. r = Inr v \<Longrightarrow> GetBucket (d_structure t) (bkt_Name b) = Inr v" for r t g h S lb lc c
  proof (cases r)
    case (Inl e)
    with keptD [OF local_addBucket t(1)] show ?thesis by (simp add: snd_wrapE)
  next
    case (Inr v)
    have "localWins s (snd (changeStructure S lb (\<lambda>d. Inr (UpdateBucket d (v\<lparr>bkt_WebDAVLocationID := ?l\<rparr>))) t))"
      using updateBucket_local [OF t(1) t(2) [OF Inr]] by (intro changeStructure_local [OF t(1)]) auto
    with t Inr show ?thesis by (simp add: snd_wrapE ret_def)
  qed
  have look: "(\<And>v. r = Inr v \<Longrightarrow> GetBucket (d_structure t) (bkt_Name b) = Inr v)"
    if a: "attempt (askStructure S lb (\<lambda>d. GetBucket d (bkt_Name b))) u = (Inr r, t)" for r t u S lb
  proof -
    have t: "d_structure t = d_structure u" by (rule structureD [OF kept_attempt [OF kept_structure_ask] a])
    fix v assume "r = Inr v"
    with attempt_InrD [OF a] have "askStructure S lb (\<lambda>d. GetBucket d (bkt_Name b)) u = (Inr v, t)" by simp
    from askStructure_Inr [OF this] show "GetBucket (d_structure t) (bkt_Name b) = Inr v" by (simp add: t)
  qed
  show ?case unfolding mergeBuckets.simps Let_def
  proof (rule kept_bnd_dep [OF kept_attempt [OF local_ask(1)]], rule snd_thn [OF _ Cons], rule step)
    fix r u t assume "localWins s t"
    then show "localWins s t" .
    assume a: "attempt (askStructure (eng_svc E) ''structure.GetBucket'' (\<lambda>d. GetBucket d (bkt_Name b))) u = (Inr r, t)"
    show "GetBucket (d_structure t) (bkt_Name b) = Inr v" if "r = Inr v" for v
      using look [OF a that] .
  qed
qed

lemma local_mergeStructure: "kept (localWins s) (mergeStructure E remote target)"
  unfolding mergeStructure_def
  by (intro keeps local_ask local_mergeLocations local_mergeUsers local_mergeBuckets)

section \<open>Local files\<close>

lemma localWins_setBdb: "localWins s t \<Longrightarrow> d_bdb t i = None \<Longrightarrow> localWins s (setBdb t i b)"
  by (auto simp: localWins_def setBdb_def map_le_def dom_def)

lemma local_reads:
  "kept (localWins s) (validateBytes E x)" "kept (localWins s) (validateLocal E i)"
  "kept (localWins s) (openLocal E i)" "kept (localWins s) (statLocal E i)"
  unfolding validateBytes_def validateLocal_def openLocal_def statLocal_def
  by (intro keeps local_calls | simp add: kept_def localWins_setBdb split: option.split sum.split)+

lemma local_export: "kept (localWins s) (exportBucketDBForRepair E i)"
  unfolding exportBucketDBForRepair_def saveBucketDBFile_def exportSQLiteReadOnly_def
  by (intro keeps local_calls local_reads | simp add: kept_def split: option.split sum.split)+

lemma local_evict: "kept (localWins s) (evict E i)"
  unfolding evict_def by (intro keeps local_cacheRemove)

lemma local_repair: "kept (localWins s) (repairFromLocal E c i base e)"
  unfolding repairFromLocal_def repairRemoteBucketDB_def
  by (intro keeps local_calls local_reads local_export local_evict local_markIf)

text \<open>A file that is missing stays missing until \<open>replaceFile\<close> moves the download into its place.\<close>

definition localMissing :: "'w daemon \<Rightarrow> string \<Rightarrow> 'w daemon \<Rightarrow> bool" where
  "localMissing s i t \<longleftrightarrow> localWins s t \<and> d_bdb t i = None"

lemma missing_eos: "kept (localMissing s i) (eos E lb)" "kept (localMissing s i) (evict E i')"
  unfolding eos_def os_def evict_def cacheRemove_def
  by (auto simp: kept_def localMissing_def onWorld_def localWins_def modify_def ret_def split: prod.split)

lemma hoare_setLocal: "hoare (localMissing s i) (setLocal i (Some (Inr b))) (\<lambda>_. localWins s) (\<lambda>_. localWins s)"
  using localWins_setBdb by (fastforce simp: setLocal_def hoare_def modify_def localMissing_def setBdb_def)

lemma hoare_missing:
  assumes "kept (localMissing s i) m" and "\<And>a. hoare (localMissing s i) (f a) (\<lambda>_. localWins s) (\<lambda>_. localWins s)"
  shows "hoare (localMissing s i) (bnd m f) (\<lambda>_. localWins s) (\<lambda>_. localWins s)"
  by (rule hoare_bnd [OF assms(2) hoare_post [OF hoare_kept [OF assms(1)]]]) (simp_all add: localMissing_def)

lemma hoare_missing_thn:
  assumes "kept (localMissing s i) m" and "hoare (localMissing s i) n (\<lambda>_. localWins s) (\<lambda>_. localWins s)"
  shows "hoare (localMissing s i) (thn m n) (\<lambda>_. localWins s) (\<lambda>_. localWins s)"
  unfolding thn_def by (rule hoare_missing [OF assms])

lemma hoare_statLocal:
  assumes "hoare (localMissing s i) (f False) (\<lambda>_. localWins s) (\<lambda>_. localWins s)"
  shows "hoare (localMissing s i) (bnd (statLocal E i) f) (\<lambda>_. localWins s) (\<lambda>_. localWins s)"
proof (rule hoare_bnd [where R = "\<lambda>there t. \<not> there \<and> localMissing s i t"])
  fix there
  show "hoare (\<lambda>t. \<not> there \<and> localMissing s i t) (f there) (\<lambda>_. localWins s) (\<lambda>_. localWins s)"
    using assms by (cases there) (simp_all add: hoare_def)
  have "hoare (localMissing s i) (gets (\<lambda>t. d_bdb t i \<noteq> None)) (\<lambda>there t. \<not> there \<and> localMissing s i t) (\<lambda>_. localWins s)"
    by (simp add: hoare_def gets_def localMissing_def)
  then show "hoare (localMissing s i) (statLocal E i) (\<lambda>there t. \<not> there \<and> localMissing s i t) (\<lambda>_. localWins s)"
    unfolding statLocal_def
    by (rule hoare_thn [OF _ hoare_post [OF hoare_kept [OF missing_eos(1)]]]) (simp_all add: localMissing_def)
qed

lemma missing_done: "hoare (localMissing s i) (fail e) (\<lambda>_. localWins s) (\<lambda>_. localWins s)"
  by (simp add: hoare_def fail_def localMissing_def)

lemma hoare_replaceFile:
  "hoare (localMissing s i) (replaceFile E i b) (\<lambda>_. localWins s) (\<lambda>_. localWins s)"
proof -
  have last: "hoare (localMissing s i) (orElse (thn (eos E lb) (setLocal i (Some (Inr b))))
        (\<lambda>e. thn (if False then m else ret ()) (fail e))) (\<lambda>_. localWins s) (\<lambda>_. localWins s)" for lb m
  proof (rule hoare_orElse [where R = "\<lambda>_. localWins s"])
    show "hoare (localWins s) (thn (if False then m else ret ()) (fail e)) (\<lambda>_. localWins s) (\<lambda>_. localWins s)" for e
      by (rule hoare_kept) (simp add: keeps)
    show "hoare (localMissing s i) (thn (eos E lb) (setLocal i (Some (Inr b)))) (\<lambda>_. localWins s)
        (\<lambda>e t. if aborts e then localWins s t else localWins s t)"
      by simp (rule hoare_missing_thn [OF missing_eos(1) hoare_setLocal])
  qed
  have "hoare (localMissing s i) (case r of Inr _ \<Rightarrow> setLocal i (Some (Inr b)) | Inl _ \<Rightarrow>
         thn (attempt (eos E ''remove backup''))
        (bnd (statLocal E i) (\<lambda>hadExisting.
         bnd (gets (\<lambda>s. d_bdb s i)) (\<lambda>old.
         thn (if hadExisting then thn (eos E ''rename to backup'') (setLocal i None) else ret ())
        (orElse (thn (eos E ''rename'') (setLocal i (Some (Inr b))))
           (\<lambda>e. thn (if hadExisting
                     then bnd (attempt (eos E ''rename back'')) (\<lambda>r. case r of Inr _ \<Rightarrow> setLocal i old | Inl _ \<Rightarrow> ret ())
                     else ret ())
                    (fail e))))))) (\<lambda>_. localWins s) (\<lambda>_. localWins s)" for r :: "gerr + unit"
  proof (cases r)
    case (Inl e)
    then show ?thesis unfolding Inl sum.case
      by (intro hoare_missing_thn hoare_statLocal hoare_missing kept_attempt missing_eos keeps last)
        (simp_all add: keeps)
  qed (simp add: hoare_setLocal)
  then show ?thesis unfolding replaceFile_def
    by (rule hoare_missing [OF kept_attempt [OF missing_eos(1)]])
qed

lemma statLocal_False: "statLocal E i u = (Inr False, t) \<Longrightarrow> d_bdb t i = None"
  by (auto simp: statLocal_def eos_def os_def gets_def elim!: thn_InrE)

lemma local_syncBucket: "kept (localWins s) (syncBucket E c base i)"
proof -
  let ?new = "\<lambda>g h data. thn (evict E i) (wrapE g (bnd (liftE (h data)) (replaceFile E i)))"
  have new: "hoare (localMissing s i) (?new g h data) (\<lambda>_. localWins s) (\<lambda>_. localWins s)" for g h and data :: bytes
    by (intro hoare_missing_thn missing_eos hoare_wrapE) (simp add: hoare_missing [OF kept_liftE hoare_replaceFile])
  have stat: "kept (localWins s) (bnd (wrapE g (statLocal E i)) (\<lambda>there. if there then wrapE h (validateLocal E i)
      else ?new k l data))" for g h k l and data :: bytes
  proof (rule kept_bnd_dep [OF kept_wrapE [OF local_reads(4)]])
    fix there u t assume t: "localWins s t" and st: "wrapE g (statLocal E i) u = (Inr there, t)"
    show "localWins s (snd ((if there then wrapE h (validateLocal E i) else ?new k l data) t))"
    proof (cases there)
      case True
      with keptD [OF local_reads(2) t] show ?thesis by (simp add: snd_wrapE)
    next
      case False
      with t statLocal_False wrapE_InrD [OF st] have "localMissing s i t" by (simp add: localMissing_def)
      from hoare_both [OF new this] False show ?thesis by simp
    qed
  qed
  show ?thesis unfolding syncBucket_def
    by (intro keeps local_calls local_reads(1) local_repair stat)
qed

lemma local_syncBucketDBs: "kept (localWins s) (syncBucketDBs E c remote idMap target base)"
proof -
  have "kept (localWins s) (syncBuckets E c idMap target base bs)" for bs
    by (induction bs) (auto intro!: keeps local_syncBucket)
  then show ?thesis unfolding syncBucketDBs_def by (intro keeps local_ask)
qed

lemma local_syncStatsDBs: "kept (localWins s) (syncStatsDBs E c idMap base)"
proof -
  have "kept (localWins s) (syncStats E c idMap dir names)" for dir names
    by (induction names) (auto intro!: keeps local_calls local_mergeStats)
  then show ?thesis unfolding syncStatsDBs_def by (intro keeps local_calls)
qed

lemma local_SyncFromWebDAV: "kept (localWins s) (SyncFromWebDAV E l)"
  unfolding SyncFromWebDAV_def
  by (intro keeps local_ask local_calls local_clientForLocation local_mergeStructure local_syncBucketDBs local_syncStatsDBs)

section \<open>A remote side to try things on\<close>

text \<open>
  Another daemon has left its databases on the location: the same endpoint under the id \<open>r\<close>, a user,
  the bucket both know and one more; the metadata of the first bucket is corrupt.
\<close>

definition demoRemote :: structureDB where
  "demoRemote = \<lparr>webdav_locations = [\<lparr>loc_ID = ''r'', loc_URL = ''http://h/'', loc_Username = ''u'', loc_PasswordEnc = ''q'',
       loc_DisplayName = ''theirs'', loc_QuotaBytes = 7, loc_BaseDir = ''/'', loc_CreatedAt = 3\<rparr>],
     users = [\<lparr>usr_ID = ''ru'', usr_AccessKey = ''AK'', usr_SecretKeyHash = [], usr_SecretKeyEnc = [], usr_WebPasswordHash = [],
       usr_WebPasswordEnc = [], usr_DisplayName = ''them'', usr_Enabled = True, usr_CreatedAt = 3\<rparr>],
     buckets = [\<lparr>bkt_ID = ''b1'', bkt_Name = ''first'', bkt_OwnerUserID = ''other'', bkt_WebDAVLocationID = ''r'', bkt_CreatedAt = 1\<rparr>,
       \<lparr>bkt_ID = ''b3'', bkt_Name = ''third'', bkt_OwnerUserID = ''ru'', bkt_WebDAVLocationID = ''r'', bkt_CreatedAt = 3\<rparr>]\<rparr>"

definition demoSyncSvc :: "demoWorld svc" where
  "demoSyncSvc = demoSvc\<lparr>svc_env := demoEnv\<lparr>env_openStructure := \<lambda>_. Inr demoRemote,
     env_openBucket := \<lambda>x. if x = ''corrupt'' then Inl (ENew ''malformed'') else Inr emptyBucketDB\<rparr>\<rparr>"

definition demoEngine :: "demoWorld engine" where
  "demoEngine = \<lparr>eng_svc = demoSyncSvc, eng_daemonID = ''me'', eng_encryptionKey = [], eng_decryptPassword = None,
     eng_newLocationClient = (\<lambda>url user password. ret demoClient), eng_evictBucket = True\<rparr>"

definition demoOffer :: "demoWorld daemon" where
  "demoOffer = demoState\<lparr>d_world := [(''/_meta/structure.db'', ''S''), (''/_meta/b1.db'', ''corrupt''),
       (''/_meta/b3.db'', ''B''), (''/_meta/stats-you.db'', ''U'')],
     d_bdb := [''b1'' \<mapsto> Inr (emptyBucketDB\<lparr>objects := [demoRow ''i1'' ''k1'']\<rparr>)]\<rparr>"

lemmas sync_defs = SyncFromWebDAV_def mergeStructure_def syncBucketDBs_def syncStatsDBs_def clientForLocation_def
  structurePath_def localPath_def onClient_def eos_def primaryBaseDir_def sameLocationEndpoint_def
  findMatchingLocationID_def mappedLocation_def askRemote_def validateBytes_def validateLocal_def openLocal_def
  statLocal_def saveBucketDBFile_def exportBucketDBForRepair_def evict_def repairRemoteBucketDB_def setLocal_def
  replaceFile_def markIf_def repairFromLocal_def syncBucket_def mergeStats_def cacheRemove_def lruRemove_def
  ListLocations_def ListUsers_def ListBuckets_def GetUser_def scanUser_def AddUser_def userRow_def insertRow_def conflicts_def
  userKeys_def UpdateBucket_def updateRows_def AddBucket_def bucketRow_def bucketKeys_def MergeFromFile_def
  demoRemote_def demoOffer_def

lemma demo_fields:
  "eng_svc demoEngine = demoSyncSvc" "eng_daemonID demoEngine = ''me''" "eng_encryptionKey demoEngine = []"
  "eng_decryptPassword demoEngine = None" "eng_evictBucket demoEngine"
  "eng_newLocationClient demoEngine x y z = ret demoClient"
  "svc_wdc demoSyncSvc = demoClient" "svc_cacheDir demoSyncSvc = ''/cache''" "svc_repair demoSyncSvc"
  "env_os (svc_env demoSyncSvc) lb = ret ()" "env_openStructure (svc_env demoSyncSvc) d = Inr demoRemote"
  "env_openBucket (svc_env demoSyncSvc) d = (if d = ''corrupt'' then Inl (ENew ''malformed'') else Inr emptyBucketDB)"
  "env_saveBucket (svc_env demoSyncSvc) b = ''B''" "env_openStats (svc_env demoSyncSvc) d = Inr emptyUsageDB"
  "cl_MkdirAll demoClient p = ret ()" "cl_DownloadToFile demoClient p = demoGet p"
  "cl_UploadFromFile demoClient p d = demoPut p d" "cl_ReadDir demoClient p = gets (demoChildren p)"
  by (simp_all add: demoEngine_def demoSyncSvc_def demoSvc_def demoEnv_def demoClient_def)

lemmas sync_run_defs = demo_fields act_defs demoGet_def demoPut_def onWorld_def os_def askStructure_def
  changeStructure_def setBdb_def metaPath_def GetBucket_def GetLocation_def selectOne_def scanBucket_def
  scanLocation_def emptyUsageDB_def demoState_def demoStructure_def NewManager_def Let_def

lemma demo_sync_strings:
  "trimRightSet ''http://h'' ''/'' = ''http://h''" "trimRightSet ''http://h/'' ''/'' = ''http://h''"
  "pathJoin [''/_meta'', ''stats-you.db''] = ''/_meta/stats-you.db''"
  by code_simp+

lemma demoOffer_wf: "structure_wf (d_structure demoOffer)"
  using demoState_wf by (simp add: demoOffer_def)

lemma demo_sync: "\<exists>t u. SyncFromWebDAV demoEngine ''l'' demoOffer = (Inr (), t)
   \<and> GetUser (d_structure t) ''ru'' = Inr u \<and> d_bdb t ''b3'' = Some (Inr emptyBucketDB)
   \<and> map_of (d_world t) ''/_meta/b1.db'' = Some ''B''"
  by (simp add: demo_sync_strings sync_defs demoChildren_def trimSuffix_def hasSuffix_def sync_run_defs)

text \<open>C18: what is there stays. Whatever a location offers, whatever fails on the way, and whatever
  the sync returns: every location and user that resolved before resolves to the same record; every
  bucket name that resolved before resolves to the same bucket, except for the location it is
  assigned to, which may have become another one (a merge overwrites it with the remote assignment, against
  the comment that local records win); every local bucket database file is as it was, corrupt ones
  included; and the constraints of the structure database hold.\<close>

theorem SyncFromWebDAV_keeps:
  assumes "structure_wf (d_structure s)" and "SyncFromWebDAV E l s = (r, t)"
  shows "structure_wf (d_structure t)
     \<and> (\<forall>k v. GetLocation (d_structure s) k = Inr v \<longrightarrow> GetLocation (d_structure t) k = Inr v)
     \<and> (\<forall>k v. GetUser (d_structure s) k = Inr v \<longrightarrow> GetUser (d_structure t) k = Inr v)
     \<and> (\<forall>k b. GetBucket (d_structure s) k = Inr b \<longrightarrow>
          (\<exists>l. GetBucket (d_structure t) k = Inr (b\<lparr>bkt_WebDAVLocationID := l\<rparr>)))
     \<and> (\<forall>i f. d_bdb s i = Some f \<longrightarrow> d_bdb t i = Some f)"
proof -
  have "localWins s t"
    using keptD [OF local_SyncFromWebDAV localWins_refl [OF assms(1)], of E l] assms(2) by simp
  then show ?thesis unfolding localWins_def map_le_def dom_def by auto
qed

theorem SyncFromWebDAV_keeps_witness:
  "\<exists>t u. SyncFromWebDAV demoEngine ''l'' demoOffer = (Inr (), t) \<and> GetUser (d_structure t) ''ru'' = Inr u
     \<and> d_bdb t ''b1'' = d_bdb demoOffer ''b1'' \<and> (\<exists>v. GetBucket (d_structure t) ''first'' = Inr v \<and> bkt_OwnerUserID v = ''u'')"
proof -
  obtain t u where t: "SyncFromWebDAV demoEngine ''l'' demoOffer = (Inr (), t)"
    and u: "GetUser (d_structure t) ''ru'' = Inr u"
    using demo_sync by (elim exE conjE) (rule that)
  note keeps = SyncFromWebDAV_keeps [OF demoOffer_wf t]
  obtain b where b: "GetBucket (d_structure demoOffer) ''first'' = Inr b" "bkt_OwnerUserID b = ''u''"
    by (simp add: demoOffer_def demoState_def demoStructure_def GetBucket_def selectOne_def scanBucket_def)
  from keeps b(1) obtain l where "GetBucket (d_structure t) ''first'' = Inr (b\<lparr>bkt_WebDAVLocationID := l\<rparr>)" by blast
  with b(2) have "\<exists>v. GetBucket (d_structure t) ''first'' = Inr v \<and> bkt_OwnerUserID v = ''u''" by simp
  moreover obtain f where f: "d_bdb demoOffer ''b1'' = Some f" by (simp add: demoOffer_def)
  then have "d_bdb t ''b1'' = d_bdb demoOffer ''b1''" using keeps by simp
  ultimately show ?thesis using t u by blast
qed

section \<open>Nothing remote is left out\<close>

lemma localWins_wf: "localWins s t \<Longrightarrow> structure_wf (d_structure t)"
  by (simp add: localWins_def)

lemma localWinsD:
  assumes "structure_wf (d_structure s)" and "\<And>s. kept (localWins s) m" and "m s = (r, t)"
  shows "localWins s t"
  using keptD [OF assms(2) localWins_refl [OF assms(1)]] assms(3) by simp

lemma attempt_ask:
  assumes "attempt (askStructure S lb f) s = (Inr r, t)"
  shows "d_structure t = d_structure s" and "r = Inr v \<Longrightarrow> f (d_structure t) = Inr v"
proof -
  show t: "d_structure t = d_structure s" by (rule structureD [OF kept_attempt [OF kept_structure_ask] assms])
  from attempt_InrD [OF assms] show "r = Inr v \<Longrightarrow> f (d_structure t) = Inr v"
    using askStructure_Inr t by simp
qed

lemma mergeUsers_complete:
  assumes "structure_wf (d_structure s)" and "mergeUsers E us s = (Inr x, t)" and "u \<in> set us"
  shows "\<exists>v. GetUser (d_structure t) (usr_ID u) = Inr v"
  using assms
proof (induction us arbitrary: s)
  case (Cons a us)
  from Cons.prems(2) obtain r s1 y s2 where
    1: "attempt (askStructure (eng_svc E) ''structure.GetUser'' (\<lambda>d. GetUser d (usr_ID a))) s = (Inr r, s1)"
    and 2: "(case r of Inr _ \<Rightarrow> ret () | Inl _ \<Rightarrow> wrapE (wrapAs (''merge user '' @ usr_ID a))
        (changeStructure (eng_svc E) ''structure.AddUser'' (\<lambda>d. AddUser d a))) s1 = (Inr y, s2)"
    and 3: "mergeUsers E us s2 = (Inr x, t)"
    by (auto elim!: bnd_InrE thn_InrE)
  have wf1: "structure_wf (d_structure s1)" using attempt_ask(1) [OF 1] Cons.prems(1) by simp
  have "structure_wf (d_structure s2) \<and> (\<exists>v. GetUser (d_structure s2) (usr_ID a) = Inr v)"
  proof (cases r)
    case (Inl e)
    with 2 have "AddUser (d_structure s1) a = Inr (d_structure s2)"
      by (auto dest!: wrapE_InrD changeStructure_Inr)
    with usrs.lookup_insert [OF wf1 this] usrs.invar_insert [OF wf1 this] show ?thesis by simp
  next
    case (Inr v)
    with 2 attempt_ask(2) [OF 1 Inr] wf1 show ?thesis by auto
  qed
  then have wf2: "structure_wf (d_structure s2)" and a: "\<exists>v. GetUser (d_structure s2) (usr_ID a) = Inr v" by auto
  have "localWins s2 t" by (rule localWinsD [OF wf2 local_mergeUsers 3])
  with a Cons.IH [OF wf2 3] Cons.prems(3) show ?case unfolding localWins_def by fastforce
qed simp

text \<open>A location id of the remote side is translated to one that resolves.\<close>

definition resolves :: "'w daemon \<Rightarrow> string \<Rightarrow> bool" where
  "resolves s i \<longleftrightarrow> (\<exists>v. GetLocation (d_structure s) i = Inr v)"

lemma resolves_mono: "localWins s t \<Longrightarrow> resolves s i \<Longrightarrow> resolves t i"
  by (auto simp: localWins_def resolves_def)

lemma mergeLocations_complete:
  assumes "structure_wf (d_structure s)" and "mergeLocations E target ls locs idMap s = (Inr m, t)"
    and "\<And>loc. loc \<in> set ls \<Longrightarrow> resolves s (loc_ID loc)"
    and "\<And>i. i \<in> ran idMap \<Longrightarrow> i = loc_ID target \<or> resolves s i"
  shows "dom idMap \<union> loc_ID ` set locs \<subseteq> dom m \<and> (\<forall>i \<in> ran m. i = loc_ID target \<or> resolves t i)"
  using assms
proof (induction locs arbitrary: s idMap)
  case Nil
  then show ?case by simp
next
  case (Cons loc locs)
  have rest: "dom idMap \<union> loc_ID ` set (loc # locs) \<subseteq> dom m \<and> (\<forall>i \<in> ran m. i = loc_ID target \<or> resolves t i)"
    if m: "mergeLocations E target ls locs (idMap(loc_ID loc \<mapsto> j)) s' = (Inr m, t)" and wf: "structure_wf (d_structure s')"
      and up: "\<And>i. resolves s i \<Longrightarrow> resolves s' i" and j: "j = loc_ID target \<or> resolves s' j" for j s'
  proof -
    have ran: "i = j \<or> i \<in> ran idMap" if "i \<in> ran (idMap(loc_ID loc \<mapsto> j))" for i
      using that by (auto simp: ran_def split: if_splits)
    have "dom (idMap(loc_ID loc \<mapsto> j)) \<union> loc_ID ` set locs \<subseteq> dom m \<and> (\<forall>i \<in> ran m. i = loc_ID target \<or> resolves t i)"
    proof (rule Cons.IH [OF wf m])
      show "resolves s' (loc_ID l)" if "l \<in> set ls" for l by (rule up [OF Cons.prems(3) [OF that]])
      show "i = loc_ID target \<or> resolves s' i" if "i \<in> ran (idMap(loc_ID loc \<mapsto> j))" for i
        using ran [OF that] j Cons.prems(4) up by blast
    qed
    then show ?thesis by simp
  qed
  show ?case
  proof (cases "sameLocationEndpoint target loc")
    case True
    then show ?thesis using Cons.prems(1,2) by (intro rest [where j = "loc_ID target" and s' = s]) simp_all
  next
    case False
    show ?thesis
    proof (cases "findMatchingLocationID ls loc")
      case (Some i)
      then obtain l where "l \<in> set ls" "i = loc_ID l"
        by (auto simp: findMatchingLocationID_def dest: find_SomeD)
      then show ?thesis using Cons.prems(1-3) False Some by (intro rest [where j = i and s' = s]) simp_all
    next
      case None
      from Cons.prems(2) False None obtain r s1 y s2 where
        1: "attempt (askStructure (eng_svc E) ''structure.GetLocation'' (\<lambda>d. GetLocation d (loc_ID loc))) s = (Inr r, s1)"
        and 2: "(case r of Inr _ \<Rightarrow> ret () | Inl _ \<Rightarrow> wrapE (wrapAs (''merge location '' @ loc_ID loc))
            (changeStructure (eng_svc E) ''structure.AddLocation'' (\<lambda>d. AddLocation d loc))) s1 = (Inr y, s2)"
        and 3: "mergeLocations E target ls locs (idMap(loc_ID loc \<mapsto> loc_ID loc)) s2 = (Inr m, t)"
        by (auto elim!: bnd_InrE thn_InrE)
      have s1: "localWins s s1" by (rule localWinsD [OF Cons.prems(1) kept_attempt [OF local_ask(1)] 1])
      have "kept (localWins v) (case r of Inr _ \<Rightarrow> ret () | Inl _ \<Rightarrow> wrapE (wrapAs (''merge location '' @ loc_ID loc))
            (changeStructure (eng_svc E) ''structure.AddLocation'' (\<lambda>d. AddLocation d loc)))" for v :: "'a daemon"
        by (intro keeps local_addLocation)
      from localWinsD [OF localWins_wf [OF s1] this 2] have s2: "localWins s1 s2" .
      have "resolves s2 (loc_ID loc)"
      proof (cases r)
        case (Inl e)
        with 2 have "AddLocation (d_structure s1) loc = Inr (d_structure s2)"
          by (auto dest!: wrapE_InrD changeStructure_Inr)
        from locs.lookup_insert [OF localWins_wf [OF s1] this] show ?thesis by (simp add: resolves_def)
      next
        case (Inr v)
        with 2 attempt_ask(2) [OF 1 Inr] show ?thesis by (auto simp: resolves_def)
      qed
      then show ?thesis
        using resolves_mono [OF s1] resolves_mono [OF s2] localWins_wf [OF s2] by (intro rest [OF 3]) simp_all
    qed
  qed
qed

lemma mergeBuckets_complete:
  assumes "structure_wf (d_structure s)" and "mergeBuckets E idMap bs s = (Inr x, t)"
    and "distinct (map bkt_Name bs)"
  shows "(\<forall>b \<in> set bs. \<exists>v. GetBucket (d_structure t) (bkt_Name b) = Inr v \<and> bkt_WebDAVLocationID v = mappedLocation idMap b)
    \<and> (\<forall>n. n \<notin> bkt_Name ` set bs \<longrightarrow> GetBucket (d_structure t) n = GetBucket (d_structure s) n)"
  using assms
proof (induction bs arbitrary: s)
  case Nil
  then show ?case by simp
next
  case (Cons a bs)
  let ?l = "mappedLocation idMap a"
  from Cons.prems(2) [unfolded mergeBuckets.simps Let_def] obtain r s1 y s2 where
    1: "attempt (askStructure (eng_svc E) ''structure.GetBucket'' (\<lambda>d. GetBucket d (bkt_Name a))) s = (Inr r, s1)"
    and 2: "(case r of Inr existing \<Rightarrow> if bkt_WebDAVLocationID existing \<noteq> ?l
             then wrapE (wrapAs (''update bucket '' @ bkt_Name a @ '' location''))
                  (changeStructure (eng_svc E) ''structure.UpdateBucket''
                     (\<lambda>d. Inr (UpdateBucket d (existing\<lparr>bkt_WebDAVLocationID := ?l\<rparr>))))
             else ret ()
           | Inl _ \<Rightarrow> wrapE (wrapAs (''merge bucket '' @ bkt_Name a))
               (changeStructure (eng_svc E) ''structure.AddBucket''
                  (\<lambda>d. AddBucket d (a\<lparr>bkt_WebDAVLocationID := ?l\<rparr>)))) s1 = (Inr y, s2)"
    and 3: "mergeBuckets E idMap bs s2 = (Inr x, t)"
    by (elim bnd_InrE thn_InrE) (rule that)
  have wf1: "structure_wf (d_structure s1)" and same: "d_structure s1 = d_structure s"
    using attempt_ask(1) [OF 1] Cons.prems(1) by simp_all
  have step: "structure_wf (d_structure s2)
      \<and> (\<exists>v. GetBucket (d_structure s2) (bkt_Name a) = Inr v \<and> bkt_WebDAVLocationID v = ?l)
      \<and> (\<forall>n. n \<noteq> bkt_Name a \<longrightarrow> GetBucket (d_structure s2) n = GetBucket (d_structure s) n)"
  proof (cases r)
    case (Inl e)
    with 2 have "AddBucket (d_structure s1) (a\<lparr>bkt_WebDAVLocationID := ?l\<rparr>) = Inr (d_structure s2)"
      by (auto dest!: wrapE_InrD changeStructure_Inr)
    with bkts.lookup_insert [OF wf1 this] bkts.invar_insert [OF wf1 this] same show ?thesis
      by (simp add: scanBucket_def bucketRow_def)
  next
    case (Inr v)
    note v = attempt_ask(2) [OF 1 Inr]
    show ?thesis
    proof (cases "bkt_WebDAVLocationID v = ?l")
      case True
      with 2 Inr v wf1 same show ?thesis by auto
    next
      case False
      with 2 Inr have "d_structure s2 = UpdateBucket (d_structure s1) (v\<lparr>bkt_WebDAVLocationID := ?l\<rparr>)"
        by (auto dest!: wrapE_InrD changeStructure_Inr)
      with GetBucket_UpdateBucket [OF v, of ?l] wf1 same show ?thesis by (simp add: wf_UpdateBucket)
    qed
  qed
  from Cons.IH [of s2, OF _ 3] step Cons.prems(3) show ?case by auto
qed

text \<open>The assignment of a local bucket to a location is overwritten.\<close>

lemma mergeBuckets_moves:
  assumes "structure_wf (d_structure s)" and "GetBucket (d_structure s) (bkt_Name b) = Inr v"
    and "mergeBuckets E idMap [b] s = (Inr (), t)"
  shows "GetBucket (d_structure t) (bkt_Name b) = Inr (v\<lparr>bkt_WebDAVLocationID := mappedLocation idMap b\<rparr>)"
proof -
  have "localWins s t" by (rule localWinsD [OF assms(1) local_mergeBuckets assms(3)])
  with assms(2) obtain l where l: "GetBucket (d_structure t) (bkt_Name b) = Inr (v\<lparr>bkt_WebDAVLocationID := l\<rparr>)"
    unfolding localWins_def by blast
  with mergeBuckets_complete [OF assms(1,3)] show ?thesis by simp
qed

lemma set_List: "loc_ID ` set (ListLocations d) = loc_ID ` set (webdav_locations d)"
  "map bkt_Name (ListBuckets d) = map bkt_Name (sort_key bkt_CreatedAt (buckets d))"
  by (auto simp: ListLocations_def ListBuckets_def scanLocation_def scanBucket_def image_iff)

lemma distinct_names: "structure_wf d \<Longrightarrow> distinct (map bkt_Name (ListBuckets d))"
proof -
  assume "structure_wf d"
  then have "distinct (map bkt_Name (buckets d))" by (simp add: structure_wf_def uniqueOn_def bucketKeys_def)
  moreover have "mset (map bkt_Name (sort_key bkt_CreatedAt (buckets d))) = mset (map bkt_Name (buckets d))" by simp
  ultimately show ?thesis unfolding set_List using mset_eq_imp_distinct_iff by blast
qed

lemma ListLocations_resolve: "loc \<in> set (ListLocations (d_structure s)) \<Longrightarrow> resolves s (loc_ID loc)"
proof -
  assume "loc \<in> set (ListLocations (d_structure s))"
  then have "loc_ID loc \<in> loc_ID ` set (webdav_locations (d_structure s))" using set_List by blast
  then have "selectOne (\<lambda>r. loc_ID r = loc_ID loc) (webdav_locations (d_structure s)) \<noteq> None"
    by (auto simp: selectOne_None_iff)
  then show ?thesis by (auto simp: resolves_def GetLocation_def)
qed

lemma demo_merge: "\<exists>m t. mergeStructure demoEngine demoRemote (hd (webdav_locations demoStructure)) demoOffer = (Inr m, t)"
  by (simp add: demo_sync_strings sync_defs sync_run_defs)

lemma demoRemote_wf: "structure_wf demoRemote"
  by (simp add: demoRemote_def structure_wf_def uniqueOn_def locationKeys_def userKeys_def bucketKeys_def)

text \<open>C19: a merge that returns has left nothing out: every remote user and bucket resolves locally, every
  remote location id is translated to the target or to a location that resolves, and a bucket both
  sides know, or only the remote one, is assigned to the translation of its remote location.\<close>

theorem mergeStructure_complete:
  assumes "structure_wf (d_structure s)" and "structure_wf remote" and "mergeStructure E remote target s = (Inr m, t)"
  shows "(\<forall>u \<in> set (ListUsers remote). \<exists>v. GetUser (d_structure t) (usr_ID u) = Inr v)
     \<and> (\<forall>b \<in> set (ListBuckets remote). \<exists>v. GetBucket (d_structure t) (bkt_Name b) = Inr v
          \<and> bkt_WebDAVLocationID v = mappedLocation m b)
     \<and> (\<forall>loc \<in> set (ListLocations remote). \<exists>i. m (loc_ID loc) = Some i
          \<and> (i = loc_ID target \<or> (\<exists>v. GetLocation (d_structure t) i = Inr v)))"
proof -
  from assms(3) obtain ls lr s1 s2 s3 us s4 s5 bs s6 where
    1: "askStructure (eng_svc E) ''structure.ListLocations'' (\<lambda>d. Inr (ListLocations d)) s = (Inr ls, s1)"
    and 2: "askRemote E ''remote.ListLocations'' (ListLocations remote) s1 = (Inr lr, s2)"
    and 3: "mergeLocations E target ls lr Map.empty s2 = (Inr m, s3)"
    and 4: "askRemote E ''remote.ListUsers'' (ListUsers remote) s3 = (Inr us, s4)"
    and 5: "mergeUsers E us s4 = (Inr (), s5)"
    and 6: "askRemote E ''remote.ListBuckets'' (ListBuckets remote) s5 = (Inr bs, s6)"
    and 7: "mergeBuckets E m bs s6 = (Inr (), t)"
    unfolding mergeStructure_def by (auto elim!: act_elims dest!: wrapE_InrD)
  have remote: "lr = ListLocations remote" "us = ListUsers remote" "bs = ListBuckets remote"
    using 2 4 6 by (auto simp: askRemote_def elim!: thn_InrE)
  have w1: "localWins s s1" by (rule localWinsD [OF assms(1) local_ask(1) 1])
  have w2: "localWins s1 s2" by (rule localWinsD [OF localWins_wf [OF w1] local_ask(2) 2])
  have w3: "localWins s2 s3" by (rule localWinsD [OF localWins_wf [OF w2] local_mergeLocations 3])
  have w4: "localWins s3 s4" by (rule localWinsD [OF localWins_wf [OF w3] local_ask(2) 4])
  have w5: "localWins s4 s5" by (rule localWinsD [OF localWins_wf [OF w4] local_mergeUsers 5])
  have w6: "localWins s5 s6" by (rule localWinsD [OF localWins_wf [OF w5] local_ask(2) 6])
  have w7: "localWins s6 t" by (rule localWinsD [OF localWins_wf [OF w6] local_mergeBuckets 7])
  have ls: "resolves s2 (loc_ID l)" if "l \<in> set ls" for l
    using ListLocations_resolve [of l s] askStructure_Inr [OF 1] that resolves_mono [OF w1] resolves_mono [OF w2] by simp
  have "loc_ID ` set lr \<subseteq> dom m \<and> (\<forall>i \<in> ran m. i = loc_ID target \<or> resolves s3 i)"
    using mergeLocations_complete [OF localWins_wf [OF w2] 3 ls] by simp
  moreover have "resolves t i" if "resolves s3 i" for i
    by (rule resolves_mono [OF w7 resolves_mono [OF w6 resolves_mono [OF w5 resolves_mono [OF w4 that]]]])
  ultimately have L: "\<forall>loc \<in> set lr. \<exists>i. m (loc_ID loc) = Some i \<and> (i = loc_ID target \<or> resolves t i)"
    unfolding ran_def by blast
  have U: "\<exists>v. GetUser (d_structure t) (usr_ID u) = Inr v" if u: "u \<in> set us" for u
    using mergeUsers_complete [OF localWins_wf [OF w4] 5 u] w6 w7 unfolding localWins_def by blast
  have "distinct (map bkt_Name bs)" using distinct_names [OF assms(2)] remote by simp
  from mergeBuckets_complete [OF localWins_wf [OF w6] 7 this] L U show ?thesis
    by (simp add: remote resolves_def)
qed

theorem mergeStructure_complete_witness:
  "\<exists>m t v. mergeStructure demoEngine demoRemote (hd (webdav_locations demoStructure)) demoOffer = (Inr m, t)
     \<and> GetUser (d_structure t) ''ru'' = Inr v"
proof -
  obtain m t where t: "mergeStructure demoEngine demoRemote (hd (webdav_locations demoStructure)) demoOffer = (Inr m, t)"
    using demo_merge by (elim exE) (rule that)
  have "hd (users demoRemote) \<in> set (users demoRemote)" by (simp add: demoRemote_def)
  then have "scanUser (hd (users demoRemote)) \<in> set (ListUsers demoRemote)" by (simp add: ListUsers_def)
  with mergeStructure_complete [OF demoOffer_wf demoRemote_wf t]
  have "\<exists>v. GetUser (d_structure t) (usr_ID (scanUser (hd (users demoRemote)))) = Inr v" by blast
  with t show ?thesis by (simp add: demoRemote_def scanUser_def)
qed

section \<open>What a repair leaves on the server\<close>

definition files ::
  "('w \<Rightarrow> string \<rightharpoonup> bytes) \<Rightarrow> (string \<Rightarrow> (gerr + bucketDB) option) \<Rightarrow> (string \<rightharpoonup> bytes) \<Rightarrow> 'w daemon \<Rightarrow> bool" where
  "files content B W u \<longleftrightarrow> d_bdb u = B \<and> content (d_world u) = W"

locale sync_server = webdav_server c "svc_env (eng_svc E)" content
  for E :: "'w engine" and c :: "'w Client" and content
begin

lemma files_eos: "kept (files content B W) (eos E lb)"
  using quietD [OF env_quiet(1)]
  by (auto simp: kept_def files_def eos_def os_def onWorld_def split: prod.split)

lemma files_download: "kept (files content B W) (onClient c (\<lambda>cl. cl_DownloadToFile cl p))"
  using quietD [OF reads_quiet(2)]
  by (auto simp: kept_def files_def onClient_def onWorld_def split: prod.split)

lemma files_evict: "kept (files content B W) (evict E i)"
  by (simp add: kept_def files_def evict_def cacheRemove_def modify_def ret_def)

lemma files_validateBytes: "kept (files content B W) (validateBytes E d)"
  unfolding validateBytes_def by (intro keeps files_eos)

lemma files_open:
  assumes "B i = Some (Inr b)"
  shows "kept (files content B W) (openLocal E i)" "kept (files content B W) (exportSQLiteReadOnly E i)"
    "kept (files content B W) (exportBucketDBForRepair E i)"
  using assms unfolding openLocal_def exportBucketDBForRepair_def saveBucketDBFile_def exportSQLiteReadOnly_def
  by (intro keeps files_eos | simp add: kept_def files_def)+

lemma filesD: "(\<And>B W. kept (files content B W) m) \<Longrightarrow> m u = (r, v) \<Longrightarrow>
    d_bdb v = d_bdb u \<and> content (d_world v) = content (d_world u)"
proof -
  assume k: "\<And>B W. kept (files content B W) m" and m: "m u = (r, v)"
  have "files content (d_bdb u) (content (d_world u)) u" by (simp add: files_def)
  from keptD [OF k this] m show ?thesis by (simp add: files_def)
qed

lemma export_Inr:
  assumes "exportBucketDBForRepair E i u = (Inr x, v)" and b: "d_bdb u i = Some (Inr b)"
  shows "x = env_saveBucket (svc_env (eng_svc E)) b \<and> d_bdb v = d_bdb u \<and> content (d_world v) = content (d_world u)"
proof -
  have 1: "x = env_saveBucket (svc_env (eng_svc E)) b" if "saveBucketDBFile E i u = (Inr x, v)"
      "d_bdb u i = Some (Inr b)" for x u v
    using that unfolding saveBucketDBFile_def openLocal_def
    by (auto elim!: act_elims dest!: wrapE_InrD filesD [OF files_eos] split: option.splits sum.splits)
  have 2: "x = env_saveBucket (svc_env (eng_svc E)) b" if "exportSQLiteReadOnly E i u = (Inr x, v)"
      "d_bdb u i = Some (Inr b)" for x u v
    using that unfolding exportSQLiteReadOnly_def
    by (auto elim!: act_elims dest!: wrapE_InrD filesD [OF files_eos] split: option.splits sum.splits)
  have 3: "d_bdb v i = Some (Inr b)" if "saveBucketDBFile E i u = (r, v)" "d_bdb u i = Some (Inr b)" for r u v
  proof -
    have "kept (files content (d_bdb u) (content (d_world u))) (saveBucketDBFile E i)"
      unfolding saveBucketDBFile_def by (intro keeps files_eos files_open) (rule that(2))
    from keptD [OF this, of u] that show ?thesis by (simp add: files_def)
  qed
  have "x = env_saveBucket (svc_env (eng_svc E)) b"
    using assms 1 2 3 unfolding exportBucketDBForRepair_def
    by (auto elim!: orElse_InrE dest!: wrapE_InrD split: if_splits)
  moreover have "kept (files content (d_bdb u) (content (d_world u))) (exportBucketDBForRepair E i)"
    by (rule files_open) (rule b)
  from keptD [OF this, of u] assms(1) have "files content (d_bdb u) (content (d_world u)) v" by (simp add: files_def)
  ultimately show ?thesis by (simp add: files_def)
qed

lemma validateLocal_Inr:
  assumes "validateLocal E i u = (Inr x, v)"
  shows "\<exists>b. (d_bdb u i = Some (Inr b) \<or> d_bdb u i = None \<and> b = emptyBucketDB)
    \<and> d_bdb v = (d_bdb u)(i \<mapsto> Inr b) \<and> content (d_world v) = content (d_world u)"
  using assms unfolding validateLocal_def
  by (auto elim!: thn_InrE dest!: filesD [OF files_eos] simp: setBdb_def fun_upd_idem split: option.splits sum.splits)

lemma repairRemote_Inr:
  assumes "repairRemoteBucketDB E c i base u = (Inr (), v)"
  shows "\<exists>b. (d_bdb u i = Some (Inr b) \<or> d_bdb u i = None \<and> b = emptyBucketDB) \<and> d_bdb v = (d_bdb u)(i \<mapsto> Inr b)
    \<and> content (d_world v) (metaPath base i) = Some (env_saveBucket (svc_env (eng_svc E)) b)
    \<and> (\<exists>x. env_openBucket (svc_env (eng_svc E)) (env_saveBucket (svc_env (eng_svc E)) b) = Inr x)
    \<and> (\<forall>q. \<not> hasPrefix q (metaPath base i) \<longrightarrow> content (d_world v) q = content (d_world u) q)"
proof -
  let ?p = "metaPath base i" and ?env = "svc_env (eng_svc E)"
  from assms obtain dat verify u1 u2 u3 u4 u5 u6 u7 u8 u9 u10 where
    1: "evict E i u = (Inr (), u1)" and 2: "validateLocal E i u1 = (Inr (), u2)"
    and 3: "eos E ''copyFile'' u2 = (Inr (), u3)" and 4: "eos E ''copyFileIfExists'' u3 = (Inr (), u4)"
    and 5: "eos E ''copyFileIfExists'' u4 = (Inr (), u5)" and 6: "eos E ''CreateTemp'' u5 = (Inr (), u6)"
    and 7: "exportBucketDBForRepair E i u6 = (Inr dat, u7)"
    and 8: "onClient c (\<lambda>cl. cl_UploadFromFile cl ?p dat) u7 = (Inr (), u8)"
    and 9: "eos E ''CreateTemp'' u8 = (Inr (), u9)"
    and 10: "onClient c (\<lambda>cl. cl_DownloadToFile cl ?p) u9 = (Inr verify, u10)"
    and 11: "validateBytes E verify u10 = (Inr (), v)"
    unfolding repairRemoteBucketDB_def Let_def
    by (auto simp: fail_def elim!: act_elims dest!: wrapE_InrD split: if_splits)
  note f = filesD [OF files_evict 1] filesD [OF files_eos 3] filesD [OF files_eos 4] filesD [OF files_eos 5]
    filesD [OF files_eos 6] filesD [OF files_eos 9] filesD [OF files_download 10] filesD [OF files_validateBytes 11]
  from validateLocal_Inr [OF 2] f(1) obtain b where
    b: "d_bdb u i = Some (Inr b) \<or> d_bdb u i = None \<and> b = emptyBucketDB" "d_bdb u2 = (d_bdb u)(i \<mapsto> Inr b)"
      "content (d_world u2) = content (d_world u)" by auto
  have u6: "d_bdb u6 = (d_bdb u)(i \<mapsto> Inr b)" "content (d_world u6) = content (d_world u)"
    using f(2-5) b by simp_all
  from export_Inr [OF 7, of b] u6 have fl: "dat = env_saveBucket ?env b" "d_bdb u7 = d_bdb u6"
    "content (d_world u7) = content (d_world u6)" by simp_all
  from onWorld_InrD [OF 8 [unfolded onClient_def]] obtain w where
    w: "cl_UploadFromFile c ?p dat (d_world u7) = (Inr (), w)" "u8 = u7\<lparr>d_world := w\<rparr>" by blast
  from upload_file [OF w(1)] w f(6-8) have up: "content (d_world v) ?p = Some dat" "d_bdb v = d_bdb u7" by simp_all
  have other: "content (d_world v) q = content (d_world u) q" if "\<not> hasPrefix q ?p" for q
    using touchesD [OF upload_file_touches w(1) that] w f(6-8) fl(3) u6(2) by simp
  from onWorld_InrD [OF 10 [unfolded onClient_def]] obtain w' where
    "cl_DownloadToFile c ?p (d_world u9) = (Inr verify, w')" by blast
  from download_file [OF this] upload_file [OF w(1)] w f(6) have "verify = dat" by simp
  with 11 have "\<exists>x. env_openBucket ?env dat = Inr x"
    unfolding validateBytes_def by (auto elim!: thn_InrE simp: liftE_def split: sum.splits)
  with b(1) up other fl u6 show ?thesis by auto
qed

end

interpretation demoSync: sync_server demoEngine demoClient map_of
  by unfold_locales (simp_all add: demoEngine_def demoSyncSvc_def demo.upload_file demo.upload_file_touches demo.upload
    demo.upload_touches demo.download demo.download_file demo.delete_under demo.readdir_names demo.reads_quiet demo.env_quiet)

lemma demoEngine_server: "sync_server demoEngine demoClient map_of"
  by (rule demoSync.sync_server_axioms)

text \<open>C20: what a repair leaves. The branch for a corrupt remote database either returns, and then the
  bucket is healthy and accepts writes, the remote file is a database that was read back and validated,
  and no other remote file changed; or it fails (or panics), and then the bucket is degraded and refuses
  writes. If the local database is there, it is intact, unchanged, and the remote file is a copy of
  it; a corrupt local one is never published. If there is none, the remote file is an empty database: a
  missing local database does not leave the bucket degraded, it is created empty and published.\<close>

theorem repairFromLocal_outcome:
  assumes "sync_server E c content" and "svc_repair (eng_svc E)" and "repairFromLocal E c i base err s = (r, t)"
  shows "case r of
      Inr _ \<Rightarrow> statusLocked (d_repair t) i = Healthy
          \<and> (\<exists>b. (case d_bdb s i of Some (Inr b') \<Rightarrow> b = b' | Some (Inl _) \<Rightarrow> False | None \<Rightarrow> b = emptyBucketDB)
              \<and> d_bdb t = (d_bdb s)(i \<mapsto> Inr b)
              \<and> content (d_world t) (metaPath base i) = Some (env_saveBucket (svc_env (eng_svc E)) b)
              \<and> (\<exists>x. env_openBucket (svc_env (eng_svc E)) (env_saveBucket (svc_env (eng_svc E)) b) = Inr x)
              \<and> (\<forall>q. \<not> hasPrefix q (metaPath base i) \<longrightarrow> content (d_world t) q = content (d_world s) q))
    | Inl e \<Rightarrow> aborts e \<or> statusLocked (d_repair t) i = Degraded"
proof (cases "repairRemoteBucketDB E c i base (s\<lparr>d_repair := snd (MarkRepairing (d_repair s) i (errText err))\<rparr>)")
  case (Pair r1 u)
  show ?thesis
  proof (cases r1)
    case (Inl e)
    with Pair assms(2,3) show ?thesis
      by (auto simp: repairFromLocal_def markIf_def act_defs MarkDegraded_def statusLocked_def split: if_splits)
  next
    case (Inr x)
    with Pair assms(2,3) have "r = Inr ()" "t = u\<lparr>d_repair := MarkHealthy (d_repair u) i\<rparr>"
      by (auto simp: repairFromLocal_def markIf_def act_defs)
    moreover have "repairRemoteBucketDB E c i base (s\<lparr>d_repair := snd (MarkRepairing (d_repair s) i (errText err))\<rparr>) = (Inr (), u)"
      using Pair Inr by simp
    from sync_server.repairRemote_Inr [OF assms(1) this] have "\<exists>b. (d_bdb s i = Some (Inr b) \<or> d_bdb s i = None \<and> b = emptyBucketDB)
        \<and> d_bdb u = (d_bdb s)(i \<mapsto> Inr b) \<and> content (d_world u) (metaPath base i) = Some (env_saveBucket (svc_env (eng_svc E)) b)
        \<and> (\<exists>x. env_openBucket (svc_env (eng_svc E)) (env_saveBucket (svc_env (eng_svc E)) b) = Inr x)
        \<and> (\<forall>q. \<not> hasPrefix q (metaPath base i) \<longrightarrow> content (d_world u) q = content (d_world s) q)" by simp
    ultimately show ?thesis by (auto simp: MarkHealthy_def statusLocked_def)
  qed
qed

text \<open>A bucket whose database is there, and one that has none.\<close>

theorem repairFromLocal_outcome_witness:
  "\<exists>t t'. repairFromLocal demoEngine demoClient ''b1'' ''/'' (ENew ''malformed'') demoOffer = (Inr (), t)
     \<and> d_bdb t ''b1'' = d_bdb demoOffer ''b1'' \<and> map_of (d_world t) ''/_meta/b1.db'' = Some ''B''
     \<and> d_bdb demoOffer ''b2'' = None \<and> repairFromLocal demoEngine demoClient ''b2'' ''/'' (ENew ''malformed'') demoOffer = (Inr (), t')
     \<and> d_bdb t' ''b2'' = Some (Inr emptyBucketDB) \<and> statusLocked (d_repair t') ''b2'' = Healthy"
proof -
  have "\<exists>t. repairFromLocal demoEngine demoClient i ''/'' (ENew ''malformed'') demoOffer = (Inr (), t)"
    if "i = ''b1'' \<or> i = ''b2''" for i
    using that by (auto simp: sync_defs sync_run_defs)
  from this [of "''b1''"] this [of "''b2''"] obtain t t' where t: "repairFromLocal demoEngine demoClient ''b1'' ''/'' (ENew ''malformed'') demoOffer = (Inr (), t)"
    and t': "repairFromLocal demoEngine demoClient ''b2'' ''/'' (ENew ''malformed'') demoOffer = (Inr (), t')" by blast
  have svc: "svc_repair (eng_svc demoEngine)" by (simp add: demo_fields)
  have b: "d_bdb demoOffer ''b1'' = Some (Inr (emptyBucketDB\<lparr>objects := [demoRow ''i1'' ''k1'']\<rparr>))" "d_bdb demoOffer ''b2'' = None"
    by (simp_all add: demoOffer_def demoState_def)
  from repairFromLocal_outcome [OF demoEngine_server svc t] b(1) have
    1: "d_bdb t ''b1'' = d_bdb demoOffer ''b1''" "map_of (d_world t) ''/_meta/b1.db'' = Some ''B''"
    by (auto simp: demo_fields metaPath_def)
  from repairFromLocal_outcome [OF demoEngine_server svc t'] b(2) have
    "d_bdb t' ''b2'' = Some (Inr emptyBucketDB)" "statusLocked (d_repair t') ''b2'' = Healthy" by auto
  with t t' 1 b(2) show ?thesis by blast
qed

text \<open>Without a local copy a repair destroys what is left of the remote one. Validating a local file
  that does not exist creates an empty database, which passes; the sync uploads it over the corrupt
  remote file, marks the bucket healthy and reports success.\<close>

theorem repair_without_local_copy:
  "\<exists>t. SyncFromWebDAV demoEngine ''l'' (demoOffer\<lparr>d_bdb := \<lambda>_. None\<rparr>) = (Inr (), t)
     \<and> d_bdb t ''b1'' = Some (Inr emptyBucketDB)
     \<and> map_of (d_world t) ''/_meta/b1.db'' = Some (env_saveBucket (svc_env (eng_svc demoEngine)) emptyBucketDB)
     \<and> statusLocked (d_repair t) ''b1'' = Healthy"
  by (simp add: demo_sync_strings sync_defs demoChildren_def trimSuffix_def hasSuffix_def MarkHealthy_def statusLocked_def
      sync_run_defs)

section \<open>What a flush leaves on the server\<close>

lemma kept_local_state:
  "kept (\<lambda>u. d_stats u = x \<and> d_structure u = y \<and> d_bdb u = z) (onWorld m)"
  by (simp add: kept_def onWorld_def split: prod.split)

lemma localStateD:
  assumes "\<And>x y z. kept (\<lambda>u. d_stats u = x \<and> d_structure u = y \<and> d_bdb u = z) m" and "m u = (r, v)"
  shows "d_stats v = d_stats u \<and> d_structure v = d_structure u \<and> d_bdb v = d_bdb u"
  using keptD [OF assms(1) conjI [OF refl conjI [OF refl refl]], of u] assms(2) by simp

lemma primaryBaseDir_Inr:
  assumes "primaryBaseDir E s = (Inr base, t)"
  shows "base = ''/'' \<or> (\<exists>loc \<in> set (ListLocations (d_structure s)). base = loc_BaseDir loc)"
    and "d_stats t = d_stats s \<and> d_structure t = d_structure s \<and> d_bdb t = d_bdb s"
proof -
  from assms obtain r where a: "attempt (askStructure (eng_svc E) ''structure.ListLocations'' (\<lambda>d. Inr (ListLocations d))) s = (Inr r, t)"
    and base: "base = (case r of Inl e \<Rightarrow> ''/'' | Inr locs \<Rightarrow> if locs = [] then ''/'' else loc_BaseDir (hd locs))"
    unfolding primaryBaseDir_def by (auto elim!: bnd_InrE)
  show "base = ''/'' \<or> (\<exists>loc \<in> set (ListLocations (d_structure s)). base = loc_BaseDir loc)"
    using base attempt_InrD [OF a] askStructure_Inr by (fastforce split: sum.splits)
  have "kept (\<lambda>u. d_stats u = x \<and> d_structure u = y \<and> d_bdb u = z)
      (attempt (askStructure (eng_svc E) ''structure.ListLocations'' (\<lambda>d. Inr (ListLocations d))))" for x y z
    unfolding askStructure_def os_def by (intro keeps kept_local_state) (simp add: kept_def)
  from localStateD [OF this a] show "d_stats t = d_stats s \<and> d_structure t = d_structure s \<and> d_bdb t = d_bdb s" .
qed

lemma statsFlush_Inr:
  assumes "webdav_server (svc_wdc S) (svc_env S) content" and "statsFlush S p s = (Inr (), t)"
  shows "content (d_world t) p = Some (env_saveStats (svc_env S) (pruneImportedStats (d_stats s)))
     \<and> d_stats t = d_stats s \<and> d_structure t = d_structure s \<and> d_bdb t = d_bdb s"
proof -
  from assms(2) obtain s1 s2 s3 s4 where
    os: "os S ''CreateTemp'' s = (Inr (), s1)" "os S ''checkpoint'' s1 = (Inr (), s2)"
      "os S ''VACUUM INTO'' s2 = (Inr (), s3)" "os S ''pruneImportedStats'' s3 = (Inr (), s4)"
    and up: "wdc S (\<lambda>c. cl_UploadFromFile c p (env_saveStats (svc_env S) (pruneImportedStats (d_stats s4)))) s4 = (Inr (), t)"
    unfolding statsFlush_def by (auto simp: gets_def elim!: bnd_InrE thn_InrE dest!: wrapE_InrD)
  have "d_stats s4 = d_stats s \<and> d_structure s4 = d_structure s \<and> d_bdb s4 = d_bdb s"
    using os [unfolded os_def, THEN localStateD [OF kept_local_state]] by simp
  moreover have "d_stats t = d_stats s4 \<and> d_structure t = d_structure s4 \<and> d_bdb t = d_bdb s4"
    by (rule localStateD [OF kept_local_state up [unfolded wdc_def]])
  ultimately show ?thesis
    using onWorld_InrD [OF up [unfolded wdc_def]] webdav_server.upload_file [OF assms(1)] by auto
qed

text \<open>C10: a flush of the ledger that returns has left the daemon's own rows, all of them and no imported
  one, in the file of this daemon below the base directory of some location (or below the root), so
  two daemons that exchange their files do not count each other's bytes again; local state is as it
  was.\<close>

theorem FlushStats_own:
  assumes "webdav_server (svc_wdc (eng_svc E)) (svc_env (eng_svc E)) content" and "usage_wf (d_stats s)"
    and "FlushStats E s = (Inr (), t)"
  shows "\<exists>base db. content (d_world t) (base @ ''_meta/stats-'' @ eng_daemonID E @ ''.db'')
         = Some (env_saveStats (svc_env (eng_svc E)) db)
     \<and> usage_delta db = filter (\<lambda>r. ud_source_file r = []) (usage_delta (d_stats s)) \<and> usage_wf db
     \<and> (base = ''/'' \<or> (\<exists>loc \<in> set (ListLocations (d_structure s)). base = loc_BaseDir loc))
     \<and> d_stats t = d_stats s \<and> d_structure t = d_structure s \<and> d_bdb t = d_bdb s"
proof -
  from assms(3) obtain base s1 where 1: "primaryBaseDir E s = (Inr base, s1)"
    and 2: "statsFlush (eng_svc E) (base @ ''_meta/stats-'' @ eng_daemonID E @ ''.db'') s1 = (Inr (), t)"
    unfolding FlushStats_def by (rule bnd_InrE)
  from statsFlush_Inr [OF assms(1) 2] primaryBaseDir_Inr [OF 1] assms(2) show ?thesis
    by (intro exI [of _ base] exI [of _ "pruneImportedStats (d_stats s)"])
      (simp add: pruneImportedStats_rows pruneImportedStats_wf)
qed

theorem FlushStats_own_witness:
  "\<exists>t base db. FlushStats demoEngine demoOffer = (Inr (), t)
     \<and> map_of (d_world t) (base @ ''_meta/stats-me.db'') = Some (env_saveStats (svc_env (eng_svc demoEngine)) db)"
proof -
  have srv: "webdav_server (svc_wdc (eng_svc demoEngine)) (svc_env (eng_svc demoEngine)) map_of"
    using demoEngine_server by (simp add: sync_server_def demo_fields)
  have "\<exists>t. FlushStats demoEngine demoOffer = (Inr (), t)"
    by (simp add: FlushStats_def statsFlush_def wdc_def sync_defs sync_run_defs)
  then obtain t where t: "FlushStats demoEngine demoOffer = (Inr (), t)" by (elim exE)
  have "usage_wf (d_stats demoOffer)" by (simp add: demoOffer_def demoState_def)
  from FlushStats_own [OF srv this t] t show ?thesis by (auto simp: demo_fields)
qed

end
