(* ===== verification/SigV4.thy ===== *)
theory SigV4
  imports Runtime
begin

unbundle bit_operations_syntax

text \<open>
  \<open>internal/auth/sigv4.go\<close>: the check of an AWS Signature V4. A request is what \<open>net/http\<close> hands to
  the handler: the parsed URL (its decoded path, the value of \<open>EscapedPath()\<close>, and the multimap
  \<open>Query()\<close>, whose keys are distinct), the header with canonical keys, and the body as the bytes
  and the error it ends with. The hash is a parameter; HMAC, the layout of the timestamp and the
  canonical form of a header name are those of the standard library.
\<close>

record request =
  rq_Method :: string
  rq_Host :: string
  rq_URLHost :: string
  rq_Path :: string
  rq_EscapedPath :: string
  rq_Query :: "(string \<times> string list) list"
  rq_Header :: "(string \<times> string list) list"
  rq_Body :: stream
  rq_ContentLength :: int

section \<open>Headers and queries\<close>

definition isLower :: "char \<Rightarrow> bool" where
  "isLower c = (let n = of_char c :: nat in 97 \<le> n \<and> n \<le> 122)"

definition isUpper :: "char \<Rightarrow> bool" where
  "isUpper c = (let n = of_char c :: nat in 65 \<le> n \<and> n \<le> 90)"

definition isDigit :: "char \<Rightarrow> bool" where
  "isDigit c = (let n = of_char c :: nat in 48 \<le> n \<and> n \<le> 57)"

definition lowerChar :: "char \<Rightarrow> char" where
  "lowerChar c = (if isUpper c then char_of ((of_char c :: nat) + 32) else c)"

definition upperChar :: "char \<Rightarrow> char" where
  "upperChar c = (if isLower c then char_of ((of_char c :: nat) - 32) else c)"

definition tokenChar :: "char \<Rightarrow> bool" where
  "tokenChar c \<longleftrightarrow> isLower c \<or> isUpper c \<or> isDigit c \<or> c \<in> set ''!#$%&*+-.^_|~'' \<or> c \<in> {CHR 0x27, CHR 0x60}"

fun canonicalKey :: "bool \<Rightarrow> string \<Rightarrow> string" where
  "canonicalKey upper [] = []"
| "canonicalKey upper (c # s) =
     (if upper then upperChar c else lowerChar c) # canonicalKey (c = CHR ''-'') s"

definition CanonicalHeaderKey :: "string \<Rightarrow> string" where
  "CanonicalHeaderKey k = (if list_all tokenChar k then canonicalKey True k else k)"

definition headerGet :: "request \<Rightarrow> string \<Rightarrow> string" where
  "headerGet r k = (case map_of (rq_Header r) (CanonicalHeaderKey k) of Some (v # _) \<Rightarrow> v | _ \<Rightarrow> [])"

definition queryGet :: "request \<Rightarrow> string \<Rightarrow> string" where
  "queryGet r k = (case map_of (rq_Query r) k of Some (v # _) \<Rightarrow> v | _ \<Rightarrow> [])"

definition queryHas :: "request \<Rightarrow> string \<Rightarrow> bool" where
  "queryHas r k \<longleftrightarrow> map_of (rq_Query r) k \<noteq> None"

text \<open>\<open>http.ServeMux\<close> redirects a request whose path is not the clean one.\<close>

definition cleanPath :: "string \<Rightarrow> string" where
  "cleanPath p =
     (if p = [] then ''/''
      else let q = (if hasPrefix p ''/'' then p else ''/'' @ p); np = pathClean q in
           if hasSuffix q ''/'' \<and> np \<noteq> ''/'' then np @ ''/'' else np)"

text \<open>\<open>EqualFold\<close> against an ASCII prefix of the same number of bytes is equality up to ASCII case.\<close>

definition hasPrefixCaseInsensitive :: "string \<Rightarrow> string \<Rightarrow> bool" where
  "hasPrefixCaseInsensitive s p \<longleftrightarrow> length s \<ge> length p \<and> map lowerChar (take (length p) s) = map lowerChar p"

definition trimPrefixCaseInsensitive :: "string \<Rightarrow> string \<Rightarrow> string" where
  "trimPrefixCaseInsensitive s p = (if hasPrefixCaseInsensitive s p then drop (length p) s else s)"

definition authPart :: "string \<Rightarrow> string \<times> string \<times> string \<Rightarrow> string \<times> string \<times> string" where
  "authPart part acc =
     (let part = trimSpace part; (credential, signedHeaders, signature) = acc in
      if hasPrefixCaseInsensitive part ''Credential=''
      then (trimSpace (trimPrefixCaseInsensitive part ''Credential=''), signedHeaders, signature)
      else if hasPrefixCaseInsensitive part ''SignedHeaders=''
      then (credential, trimSpace (trimPrefixCaseInsensitive part ''SignedHeaders=''), signature)
      else if hasPrefixCaseInsensitive part ''Signature=''
      then (credential, signedHeaders, trimSpace (trimPrefixCaseInsensitive part ''Signature=''))
      else acc)"

definition parseAuthHeader :: "string \<Rightarrow> gerr + string \<times> string \<times> string" where
  "parseAuthHeader h =
     (let (credential, signedHeaders, signature) =
            fold authPart (splitOn (CHR '','') (trimPrefix h ''AWS4-HMAC-SHA256 '')) ([], [], []) in
      if credential = [] \<or> signedHeaders = [] \<or> signature = []
      then Inl (ENew (''incomplete Authorization header: credential='' @ fmtQ credential
             @ '' signedHeaders='' @ fmtQ signedHeaders @ '' signature='' @ fmtQ signature))
      else Inr (credential, signedHeaders, signature))"

section \<open>The canonical request\<close>

definition isUnreserved :: "char \<Rightarrow> bool" where
  "isUnreserved c \<longleftrightarrow> isUpper c \<or> isLower c \<or> isDigit c \<or> c \<in> set ''-_.~''"

definition hexUpper :: "nat \<Rightarrow> char" where
  "hexUpper d = char_of (if d < 10 then 48 + d else 55 + d)"

definition uriEncode :: "string \<Rightarrow> string" where
  "uriEncode s = concat (map (\<lambda>c. if isUnreserved c then [c]
     else [CHR ''%'', hexUpper (of_char c div 16), hexUpper (of_char c mod 16)]) s)"

definition buildCanonicalQueryString :: "request \<Rightarrow> string" where
  "buildCanonicalQueryString r =
     (if rq_Query r = [] then []
      else joinStr ''&'' (concat (map (\<lambda>k. map (\<lambda>v. uriEncode k @ ''='' @ uriEncode v)
             (sort (the (map_of (rq_Query r) k)))) (sort (map fst (rq_Query r))))))"

definition nl :: string where "nl = [CHR 0x0A]"

definition canonicalHeader :: "request \<Rightarrow> string \<Rightarrow> string" where
  "canonicalHeader r h =
     (let val = (if h = ''host'' then (if rq_Host r = [] then rq_URLHost r else rq_Host r) else headerGet r h) in
      h @ '':'' @ trimSpace val @ nl)"

definition emptyHash :: string where
  "emptyHash = ''e3b0c44298fc1c149afbf4c8996fb92427ae41e4649b934ca495991b7852b855''"

definition buildCanonicalRequest :: "request \<Rightarrow> string \<Rightarrow> string" where
  "buildCanonicalRequest r signedHeaders =
     (let uri = (if rq_EscapedPath r = [] then ''/'' else rq_EscapedPath r);
          payloadHash = headerGet r ''x-amz-content-sha256'' in
      joinStr nl [rq_Method r, uri, buildCanonicalQueryString r,
        concat (map (canonicalHeader r) (splitOn (CHR '';'') signedHeaders)), signedHeaders,
        if payloadHash = [] then emptyHash else payloadHash])"

section \<open>Keys and hashes\<close>

definition xorByte :: "nat \<Rightarrow> char \<Rightarrow> char" where
  "xorByte n c = char_of ((of_char c :: nat) XOR n)"

text \<open>\<open>crypto/hmac\<close> with SHA-256, whose block has 64 bytes.\<close>

definition hmacSHA256 :: "(bytes \<Rightarrow> bytes) \<Rightarrow> bytes \<Rightarrow> bytes \<Rightarrow> bytes" where
  "hmacSHA256 sha key data =
     (let k = (if length key > 64 then sha key else key);
          block = k @ replicate (64 - length k) (CHR 0x00) in
      sha (map (xorByte 92) block @ sha (map (xorByte 54) block @ data)))"

definition hashSHA256 :: "(bytes \<Rightarrow> bytes) \<Rightarrow> bytes \<Rightarrow> string" where
  "hashSHA256 sha data = hexEncode (sha data)"

definition deriveSigningKey :: "(bytes \<Rightarrow> bytes) \<Rightarrow> string \<Rightarrow> string \<Rightarrow> string \<Rightarrow> string \<Rightarrow> bytes" where
  "deriveSigningKey sha secretKey date region service =
     (let kDate = hmacSHA256 sha (''AWS4'' @ secretKey) date;
          kRegion = hmacSHA256 sha kDate region;
          kService = hmacSHA256 sha kRegion service in
      hmacSHA256 sha kService ''aws4_request'')"

section \<open>The timestamp\<close>

text \<open>
  \<open>time.Parse("20060102T150405Z", s)\<close>: the hour may have one digit, and a fraction of a second may
  follow the seconds although the layout has none. \<open>None\<close> is its error.
\<close>

definition digitVal :: "char \<Rightarrow> int" where
  "digitVal c = int (of_char c) - 48"

fun getnum :: "bool \<Rightarrow> string \<Rightarrow> (int \<times> string) option" where
  "getnum fixd [] = None"
| "getnum fixd [a] = (if isDigit a \<and> \<not> fixd then Some (digitVal a, []) else None)"
| "getnum fixd (a # b # s) =
     (if \<not> isDigit a then None
      else if isDigit b then Some (10 * digitVal a + digitVal b, s)
      else if fixd then None else Some (digitVal a, b # s))"

definition decimal :: "string \<Rightarrow> int" where
  "decimal ds = foldl (\<lambda>n c. 10 * n + digitVal c) 0 ds"

definition fraction :: "string \<Rightarrow> int \<times> string" where
  "fraction s =
     (case s of
        p # d # _ \<Rightarrow>
          if p \<in> set ''.,'' \<and> isDigit d
          then (let ds = takeWhile isDigit (tl s); used = take 9 ds in
                (decimal used * 10 ^ (9 - length used), drop (length ds) (tl s)))
          else (0, s)
      | _ \<Rightarrow> (0, s))"

definition daysIn :: "int \<Rightarrow> int \<Rightarrow> int" where
  "daysIn m y =
     (if m = 2 then if y mod 4 = 0 \<and> (y mod 100 \<noteq> 0 \<or> y mod 400 = 0) then 29 else 28
      else if m \<in> {4, 6, 9, 11} then 30 else 31)"

text \<open>Days between the epoch and a date of the Gregorian calendar.\<close>

definition unixDays :: "int \<Rightarrow> int \<Rightarrow> int \<Rightarrow> int" where
  "unixDays y m d =
     (let y = (if m \<le> 2 then y - 1 else y); m = (if m \<le> 2 then m + 9 else m - 3) in
      365 * y + y div 4 - y div 100 + y div 400 + (153 * m + 2) div 5 + d - 719469)"

definition parseAmzDate :: "string \<Rightarrow> gotime option" where
  "parseAmzDate str =
     (if length str < 4 \<or> \<not> list_all isDigit (take 4 str) then None
      else
        Option.bind (getnum True (drop 4 str)) (\<lambda>(month, s).
        Option.bind (getnum True s) (\<lambda>(day, s).
        if \<not> hasPrefix s ''T'' then None else
        Option.bind (getnum False (tl s)) (\<lambda>(hour, s).
        Option.bind (getnum True s) (\<lambda>(minute, s).
        Option.bind (getnum True s) (\<lambda>(sec, s).
        let year = decimal (take 4 str); (nsec, s) = fraction s in
        if s \<noteq> ''Z'' \<or> month < 1 \<or> 12 < month \<or> hour \<ge> 24 \<or> minute \<ge> 60 \<or> sec \<ge> 60
           \<or> day < 1 \<or> day > daysIn month year
        then None
        else Some ((((unixDays year month day * 24 + hour) * 60 + minute) * 60 + sec) * 1000000000 + nsec)))))))"

text \<open>\<open>Time.Sub\<close> saturates at the limits of a \<open>Duration\<close>; \<open>Duration.String\<close> from a minute on.\<close>

definition timeSub :: "gotime \<Rightarrow> gotime \<Rightarrow> int" where
  "timeSub t u = max (- (2 ^ 63)) (min (2 ^ 63 - 1) (t - u))"

definition durationText :: "int \<Rightarrow> string" where
  "durationText d =
     (let sec = d div 1000000000; frac = fmtD (10 ^ 9 + d mod 10 ^ 9) in
      (if sec div 3600 > 0 then fmtD (sec div 3600) @ ''h'' else []) @ fmtD (sec div 60 mod 60) @ ''m''
      @ fmtD (sec mod 60) @ (if d mod 10 ^ 9 = 0 then [] else ''.'' @ trimRightSet (tl frac) ''0'') @ ''s'')"

section \<open>The verifier\<close>

record 's verifier =
  vf_region :: string
  vf_service :: string
  vf_now :: "('s, gotime) act"
  vf_sha256 :: "bytes \<Rightarrow> bytes"

definition window :: int where
  "window = 15 * 60 * 1000000000"

definition checkClockSkew :: "'s verifier \<Rightarrow> string \<Rightarrow> ('s, unit) act" where
  "checkClockSkew V amzDate =
     (if amzDate = [] then fail (EWrap [] (ESent ErrRequestExpired) '': missing x-amz-date'')
      else case parseAmzDate amzDate of
             None \<Rightarrow> fail (EWrap [] (ESent ErrRequestExpired) ('': invalid x-amz-date '' @ fmtQ amzDate))
           | Some t \<Rightarrow>
               bnd (vf_now V) (\<lambda>now.
               let diff = timeSub now t; diff = (if diff < 0 then i64 (- diff) else diff) in
               if diff > window
               then fail (EWrap [] (ESent ErrRequestExpired)
                      ('': x-amz-date '' @ fmtQ amzDate @ '' differs by '' @ durationText diff))
               else ret ()))"

definition payloadExempt :: "string \<Rightarrow> bool" where
  "payloadExempt h \<longleftrightarrow> h = [] \<or> h = ''UNSIGNED-PAYLOAD'' \<or> h = ''STREAMING-AWS4-HMAC-SHA256-PAYLOAD''"

text \<open>The body is read and put back, so the request the handler sees is the same.\<close>

definition verifyPayloadHash :: "(bytes \<Rightarrow> bytes) \<Rightarrow> request \<Rightarrow> gerr + unit" where
  "verifyPayloadHash sha r =
     (let contentHash = headerGet r ''x-amz-content-sha256'' in
      if payloadExempt contentHash then Inr ()
      else case snd (rq_Body r) of
             Some e \<Rightarrow> Inl (wrapAs ''read request body'' e)
           | None \<Rightarrow>
               (let computed = hashSHA256 sha (fst (rq_Body r)) in
                if computed \<noteq> contentHash
                then Inl (EWrap [] (ESent ErrContentHashMismatch) ('': computed '' @ computed @ '' expected '' @ contentHash))
                else Inr ()))"

definition stringToSign :: "'s verifier \<Rightarrow> request \<Rightarrow> string \<Rightarrow> string \<Rightarrow> string \<Rightarrow> string" where
  "stringToSign V r amzDate date signedHeaders =
     joinStr nl [''AWS4-HMAC-SHA256'', amzDate, joinStr ''/'' [date, vf_region V, vf_service V, ''aws4_request''],
       hashSHA256 (vf_sha256 V) (buildCanonicalRequest r signedHeaders)]"

definition Verify :: "'s verifier \<Rightarrow> request \<Rightarrow> (string \<Rightarrow> ('s, string) act) \<Rightarrow> ('s, string) act" where
  "Verify V r lookupSecret =
     (let authHeader = headerGet r ''Authorization'' in
      if authHeader = [] then fail (ESent ErrMissingAuthHeader)
      else if \<not> hasPrefix authHeader ''AWS4-HMAC-SHA256 '' then fail (ESent ErrInvalidAuthHeader)
      else case parseAuthHeader authHeader of
        Inl e \<Rightarrow> fail (EWrap [] (ESent ErrInvalidAuthHeader) ('': '' @ errText e))
      | Inr (credential, signedHeaders, signature) \<Rightarrow>
          (case splitN 5 (CHR ''/'') credential of
             [accessKey, date, region, service, _] \<Rightarrow>
               if region \<noteq> vf_region V \<or> service \<noteq> vf_service V
               then fail (EWrap [] (ESent ErrInvalidAuthHeader) '': credential scope region/service mismatch'')
               else
                 bnd (wrapE (wrapAs ''lookup secret'') (lookupSecret accessKey)) (\<lambda>secretKey.
                 let amzDate = headerGet r ''x-amz-date'' in
                 thn (checkClockSkew V amzDate)
                (thn (liftE (verifyPayloadHash (vf_sha256 V) r))
                (let signingKey = deriveSigningKey (vf_sha256 V) secretKey date (vf_region V) (vf_service V);
                     computedSig = hexEncode (hmacSHA256 (vf_sha256 V) signingKey
                       (stringToSign V r amzDate date signedHeaders)) in
                 if computedSig \<noteq> signature then fail (ESent ErrSignatureMismatch) else ret accessKey)))
           | _ \<Rightarrow> fail (EWrap [] (ESent ErrInvalidAuthHeader) ('': malformed credential '' @ fmtQ credential))))"

section \<open>What acceptance means\<close>

text \<open>Whatever the lookup of secrets and the clock keep, the check keeps.\<close>

lemma Verify_kept:
  assumes "\<And>ak. kept I (lookupSecret ak)" and "kept I (vf_now V)"
  shows "kept I (Verify V r lookupSecret)"
  unfolding Verify_def checkClockSkew_def Let_def
  by (intro keeps assms)

lemma checkClockSkew_Inr:
  assumes "checkClockSkew V d s = (Inr u, t)"
  shows "\<exists>stamp now. parseAmzDate d = Some stamp \<and> vf_now V s = (Inr now, t)
    \<and> (\<bar>now - stamp\<bar> \<le> window \<or> stamp - now \<ge> 2 ^ 63)"
proof -
  from assms obtain stamp now where p: "parseAmzDate d = Some stamp" and n: "vf_now V s = (Inr now, t)"
    and w: "\<not> (let diff = timeSub now stamp in if diff < 0 then i64 (- diff) else diff) > window"
    by (auto simp: checkClockSkew_def Let_def fail_def ret_def elim!: bnd_InrE split: if_splits option.splits)
  have "\<bar>now - stamp\<bar> \<le> window \<or> stamp - now \<ge> 2 ^ 63"
  proof (cases "stamp - now \<ge> 2 ^ 63")
    case False
    then have "timeSub now stamp = min (2 ^ 63 - 1) (now - stamp)" "- timeSub now stamp < 2 ^ 63"
      by (auto simp: timeSub_def)
    moreover from this have "timeSub now stamp < 0 \<Longrightarrow> i64 (- timeSub now stamp) = - timeSub now stamp"
      by (intro i64_id) (simp add: is_i64_def)
    ultimately show ?thesis using w by (auto simp: Let_def window_def split: if_splits)
  qed simp
  with p n show ?thesis by blast
qed

lemma verifyPayloadHash_Inr:
  "verifyPayloadHash sha r = Inr u \<longleftrightarrow>
     (payloadExempt (headerGet r ''x-amz-content-sha256'') \<or>
      snd (rq_Body r) = None \<and> hashSHA256 sha (fst (rq_Body r)) = headerGet r ''x-amz-content-sha256'')"
  by (auto simp: verifyPayloadHash_def Let_def split: option.splits)

text \<open>The signature of a request under a secret.\<close>

definition signatureOf :: "'s verifier \<Rightarrow> request \<Rightarrow> string \<Rightarrow> string \<Rightarrow> string \<Rightarrow> string" where
  "signatureOf V r secret date signedHeaders =
     hexEncode (hmacSHA256 (vf_sha256 V) (deriveSigningKey (vf_sha256 V) secret date (vf_region V) (vf_service V))
       (stringToSign V r (headerGet r ''x-amz-date'') date signedHeaders))"

lemma Verify_parsed:
  assumes "hasPrefix (headerGet r ''Authorization'') ''AWS4-HMAC-SHA256 ''"
    and "parseAuthHeader (headerGet r ''Authorization'') = Inr (credential, signedHeaders, signature)"
    and "splitN 5 (CHR ''/'') credential = [accessKey, date, region, service, rest]"
    and "region = vf_region V" and "service = vf_service V"
  shows "Verify V r lookupSecret =
    bnd (wrapE (wrapAs ''lookup secret'') (lookupSecret accessKey)) (\<lambda>secretKey.
      thn (checkClockSkew V (headerGet r ''x-amz-date''))
     (thn (liftE (verifyPayloadHash (vf_sha256 V) r))
     (if signatureOf V r secretKey date signedHeaders \<noteq> signature then fail (ESent ErrSignatureMismatch) else ret accessKey)))"
proof -
  have "headerGet r ''Authorization'' \<noteq> []" using assms(1) by (auto simp: hasPrefix_def)
  with assms show ?thesis by (simp add: Verify_def Let_def signatureOf_def)
qed

lemma Verify_reaches_lookup:
  assumes "Verify V r lookupSecret s = (Inr ak, t)"
  shows "\<exists>credential signedHeaders signature date rest.
     hasPrefix (headerGet r ''Authorization'') ''AWS4-HMAC-SHA256 ''
     \<and> parseAuthHeader (headerGet r ''Authorization'') = Inr (credential, signedHeaders, signature)
     \<and> splitN 5 (CHR ''/'') credential = [ak, date, vf_region V, vf_service V, rest]"
proof -
  let ?h = "headerGet r ''Authorization''"
  from assms have h: "?h \<noteq> []" "hasPrefix ?h ''AWS4-HMAC-SHA256 ''"
    by (auto simp: Verify_def fail_def Let_def split: if_splits)
  with assms obtain c sh sig where p: "parseAuthHeader ?h = Inr (c, sh, sig)"
    by (cases "parseAuthHeader ?h") (auto simp: Verify_def fail_def Let_def)
  obtain a d rg sv rest where c: "splitN 5 (CHR ''/'') c = [a, d, rg, sv, rest]"
  proof (atomize_elim, rule ccontr)
    assume "\<nexists>a d rg sv rest. splitN 5 (CHR ''/'') c = [a, d, rg, sv, rest]"
    with assms h p show False by (auto simp: Verify_def fail_def Let_def split: list.splits)
  qed
  have scope: "rg = vf_region V" "sv = vf_service V"
    using assms h p c by (auto simp: Verify_def fail_def Let_def split: if_splits)
  have "a = ak"
    using assms Verify_parsed [OF h(2) p c scope] by (auto simp: fail_def ret_def elim!: bnd_InrE thn_InrE split: if_splits)
  with h p c scope show ?thesis by blast
qed

section \<open>Headers as a client writes them\<close>

definition printable :: "char \<Rightarrow> bool" where
  "printable c \<longleftrightarrow> (let n = of_char c :: nat in 33 \<le> n \<and> n \<le> 126)"

definition field :: "string \<Rightarrow> bool" where
  "field x \<longleftrightarrow> x \<noteq> [] \<and> list_all (\<lambda>c. printable c \<and> c \<noteq> CHR '','' \<and> c \<noteq> CHR ''/'') x"

definition authorization :: "'s verifier \<Rightarrow> string \<Rightarrow> string \<Rightarrow> string \<Rightarrow> string \<Rightarrow> string" where
  "authorization V accessKey date signedHeaders signature =
     ''AWS4-HMAC-SHA256 Credential='' @ accessKey @ ''/'' @ date @ ''/'' @ vf_region V @ ''/'' @ vf_service V
     @ ''/aws4_request, SignedHeaders='' @ signedHeaders @ '', Signature='' @ signature"

lemma spaceSeqs_ends: "list_all (\<lambda>p. p \<noteq> [] \<and> \<not> printable (hd p) \<and> \<not> printable (last p)) spaceSeqs"
  by code_simp

lemma no_space_prefix: "s = [] \<or> printable (hd s) \<Longrightarrow> List.find (\<lambda>p. hasPrefix s p) spaceSeqs = None"
proof -
  assume s: "s = [] \<or> printable (hd s)"
  have "\<not> hasPrefix s p" if "p \<in> set spaceSeqs" for p
  proof
    assume "hasPrefix s p"
    moreover from that spaceSeqs_ends have "p \<noteq> []" "\<not> printable (hd p)" by (auto simp: list_all_iff)
    ultimately show False using s by (cases p) (auto simp: hasPrefix_iff)
  qed
  then show ?thesis by (auto simp: find_None_iff)
qed

lemma no_space_suffix: "s = [] \<or> printable (last s) \<Longrightarrow> List.find (\<lambda>p. hasPrefix (rev s) p) (map rev spaceSeqs) = None"
proof -
  assume s: "s = [] \<or> printable (last s)"
  have "\<not> hasPrefix (rev s) (rev p)" if "p \<in> set spaceSeqs" for p
  proof
    assume "hasPrefix (rev s) (rev p)"
    then obtain t where "s = t @ p" unfolding hasPrefix_iff by (metis rev_append rev_rev_ident)
    with s that spaceSeqs_ends show False by (auto simp: list_all_iff)
  qed
  then show ?thesis by (auto simp: find_None_iff)
qed

lemma trimSpace_printable: "s = [] \<or> printable (hd s) \<and> printable (last s) \<Longrightarrow> trimSpace s = s"
  by (rule trimSpace_id) (auto intro!: no_space_prefix no_space_suffix)

lemma trimSpace_blank:
  assumes "printable (hd s)" "printable (last s)" "s \<noteq> []"
  shows "trimSpace (CHR '' '' # s) = s"
proof -
  have "\<exists>ps qs. spaceSeqs = ps @ '' '' # qs \<and> list_all (\<lambda>p. p \<noteq> [] \<and> hd p \<noteq> CHR '' '') ps"
    by (rule exI [of _ "map (map char_of) [[9], [10], [11], [12], [13 :: nat]]"]) (simp add: spaceSeqs_def char_of_def bit_Suc_0_iff)
  then obtain ps qs where sp: "spaceSeqs = ps @ '' '' # qs" "list_all (\<lambda>p. p \<noteq> [] \<and> hd p \<noteq> CHR '' '') ps"
    by (elim exE conjE) (rule that)
  have "\<not> hasPrefix (CHR '' '' # s) p" if "p \<noteq> []" "hd p \<noteq> CHR '' ''" for p using that by (cases p) auto
  with sp(2) have "List.find (\<lambda>p. hasPrefix (CHR '' '' # s) p) ps = None" by (auto simp: find_None_iff list_all_iff)
  then have f: "List.find (\<lambda>p. hasPrefix (CHR '' '' # s) p) spaceSeqs = Some '' ''" by (simp add: sp(1) find_append)
  have "stripSeqs (length s) spaceSeqs s = s" by (rule stripSeqs_nop) (simp add: no_space_prefix assms)
  then show ?thesis using stripSeqs_nop [OF no_space_suffix] assms
    by (simp add: trimSpace_def f Let_def)
qed

lemma splitOn_none: "c \<notin> set a \<Longrightarrow> splitOn c a = [a]"
  by (induction a) auto

lemma splitOn_append: "c \<notin> set a \<Longrightarrow> splitOn c (a @ c # b) = a # splitOn c b"
  by (induction a) auto

lemma splitN_append: "c \<notin> set a \<Longrightarrow> splitN (Suc (Suc n)) c (a @ c # b) = a # splitN (Suc n) c b"
  by (subst splitN.simps) (auto simp: dropWhile_append takeWhile_append)

lemma fieldD: "field x \<Longrightarrow> x \<noteq> [] \<and> CHR '','' \<notin> set x \<and> CHR ''/'' \<notin> set x \<and> printable (hd x) \<and> printable (last x)"
  by (auto simp: field_def list_all_iff)

lemma field_hexEncode: "bs \<noteq> [] \<Longrightarrow> field (hexEncode bs)"
proof -
  assume "bs \<noteq> []"
  have "printable (digitChar d) \<and> digitChar d \<noteq> CHR '','' \<and> digitChar d \<noteq> CHR ''/''" if "d < 16" for d
  proof -
    from that have n: "(of_char (digitChar d) :: nat) = (if d < 10 then 48 + d else 87 + d)" by (rule of_digitChar)
    with that have "printable (digitChar d)" by (simp add: printable_def)
    moreover from n have "digitChar d \<noteq> CHR '',''" "digitChar d \<noteq> CHR ''/''" by (auto split: if_splits)
    ultimately show ?thesis by simp
  qed
  moreover have "(of_char c :: nat) div 16 < 16" for c
    using nat_of_char_less_256 [of c] by (simp add: div_less_iff_less_mult del: nat_of_char_less_256)
  ultimately have "list_all (\<lambda>c. printable c \<and> c \<noteq> CHR '','' \<and> c \<noteq> CHR ''/'') (hexEncode bs)"
    by (induction bs) (simp_all add: hexEncode_def)
  with \<open>bs \<noteq> []\<close> show ?thesis by (cases bs) (simp_all add: field_def hexEncode_def)
qed

lemma caseless_same: "hasPrefixCaseInsensitive (p @ x) p" "trimPrefixCaseInsensitive (p @ x) p = x"
  by (simp_all add: hasPrefixCaseInsensitive_def trimPrefixCaseInsensitive_def)

lemma caseless_other:
  assumes "lowerChar c \<noteq> lowerChar d"
  shows "\<not> hasPrefixCaseInsensitive (q @ c # s) (q @ d # p)"
proof
  assume "hasPrefixCaseInsensitive (q @ c # s) (q @ d # p)"
  then have "map lowerChar (take (length (q @ d # p)) (q @ c # s)) ! length q = map lowerChar (q @ d # p) ! length q"
    unfolding hasPrefixCaseInsensitive_def by metis
  with assms show False by (simp add: nth_append)
qed

lemma lower_neq: "lowerChar (CHR ''C'') \<noteq> lowerChar (CHR ''S'')" "lowerChar (CHR ''e'') \<noteq> lowerChar (CHR ''a'')"
  by code_simp+

lemma caseless_fields:
  "\<not> hasPrefixCaseInsensitive (''SignedHeaders='' @ x) ''Credential=''"
  "\<not> hasPrefixCaseInsensitive (''Signature='' @ x) ''Credential=''"
  "\<not> hasPrefixCaseInsensitive (''Signature='' @ x) ''SignedHeaders=''"
  using caseless_other [OF lower_neq(1) [symmetric], of "[]" "''ignedHeaders='' @ x" "''redential=''"]
    caseless_other [OF lower_neq(1) [symmetric], of "[]" "''ignature='' @ x" "''redential=''"]
    caseless_other [OF lower_neq(2) [symmetric], of "''Sign''" "''ture='' @ x" "''dHeaders=''"] by simp_all

lemma authPart_fields:
  "trimSpace p = ''Credential='' @ x \<Longrightarrow> authPart p (c, h, s) = (trimSpace x, h, s)"
  "trimSpace p = ''SignedHeaders='' @ x \<Longrightarrow> authPart p (c, h, s) = (c, trimSpace x, s)"
  "trimSpace p = ''Signature='' @ x \<Longrightarrow> authPart p (c, h, s) = (c, h, trimSpace x)"
  unfolding authPart_def Let_def prod.case
  by (simp_all only: caseless_fields caseless_same if_True if_False)

lemma parse_authorization:
  assumes "field ak" "field date" "field (vf_region V)" "field (vf_service V)" "field sh" "field sig"
  shows "parseAuthHeader (authorization V ak date sh sig)
    = Inr (ak @ ''/'' @ date @ ''/'' @ vf_region V @ ''/'' @ vf_service V @ ''/aws4_request'', sh, sig)"
proof -
  let ?cred = "ak @ ''/'' @ date @ ''/'' @ vf_region V @ ''/'' @ vf_service V @ ''/aws4_request''"
  have cs: "CHR '','' \<notin> set (''Credential='' @ ?cred)" "CHR '','' \<notin> set ('' SignedHeaders='' @ sh)"
    "CHR '','' \<notin> set ('' Signature='' @ sig)"
    using assms by (auto dest: fieldD)
  have "trimPrefix (authorization V ak date sh sig) ''AWS4-HMAC-SHA256 ''
      = (''Credential='' @ ?cred) @ CHR '','' # ('' SignedHeaders='' @ sh) @ CHR '','' # ('' Signature='' @ sig)"
    unfolding authorization_def by (simp add: trimPrefix_def hasPrefix_def)
  then have sp: "splitOn (CHR '','') (trimPrefix (authorization V ak date sh sig) ''AWS4-HMAC-SHA256 '')
      = [''Credential='' @ ?cred, '' SignedHeaders='' @ sh, '' Signature='' @ sig]"
    by (simp only: splitOn_append [OF cs(1)] splitOn_append [OF cs(2)] splitOn_none [OF cs(3)])
  have pr: "printable (CHR ''C'')" "printable (CHR ''S'')" "printable (CHR ''t'')" by (simp_all add: printable_def)
  have t: "trimSpace (''Credential='' @ ?cred) = ''Credential='' @ ?cred" "trimSpace ?cred = ?cred"
      "trimSpace ('' SignedHeaders='' @ sh) = ''SignedHeaders='' @ sh" "trimSpace sh = sh"
      "trimSpace ('' Signature='' @ sig) = ''Signature='' @ sig" "trimSpace sig = sig"
    using assms pr trimSpace_blank [of "''SignedHeaders='' @ sh"] trimSpace_blank [of "''Signature='' @ sig"]
    by (auto intro!: trimSpace_printable dest!: fieldD)
  from assms have "sh \<noteq> []" "sig \<noteq> []" "?cred \<noteq> []" by (auto dest: fieldD)
  then show ?thesis
    by (simp only: parseAuthHeader_def sp fold_simps id_apply authPart_fields(1) [OF t(1)] authPart_fields(2) [OF t(3)]
        authPart_fields(3) [OF t(5)] t(2,4,6) Let_def prod.case simp_thms if_False)
qed

section \<open>Properties\<close>

text \<open>A client, a secret and a clock to try things on; the digest is constant.\<close>

definition demoVerifier :: "unit verifier" where
  "demoVerifier = \<lparr>vf_region = ''us-east-1'', vf_service = ''s3'', vf_now = ret 1770000000000000000,
     vf_sha256 = (\<lambda>_. replicate 32 (CHR ''s''))\<rparr>"

definition demoSignature :: string where
  "demoSignature = concat (replicate 32 ''73'')"

definition demoRequest :: request where
  "demoRequest = \<lparr>rq_Method = ''GET'', rq_Host = ''h'', rq_URLHost = [], rq_Path = ''/first/k'', rq_EscapedPath = ''/first/k'',
     rq_Query = [], rq_Header = [(''X-Amz-Date'', [''20260202T024000Z'']),
       (''Authorization'', [authorization demoVerifier ''AK'' ''20260202'' ''host'' demoSignature])],
     rq_Body = ([], None), rq_ContentLength = 0\<rparr>"

lemma demo_keys: "CanonicalHeaderKey ''Authorization'' = ''Authorization''" "CanonicalHeaderKey ''x-amz-date'' = ''X-Amz-Date''"
  "CanonicalHeaderKey ''x-amz-content-sha256'' = ''X-Amz-Content-Sha256''" "CanonicalHeaderKey ''Content-Type'' = ''Content-Type''"
  "CanonicalHeaderKey ''Content-Encoding'' = ''Content-Encoding''"
  "CanonicalHeaderKey ''x-amz-bucket-location'' = ''X-Amz-Bucket-Location''"
  by code_simp+

lemma demo_headers: "headerGet demoRequest ''Authorization'' = authorization demoVerifier ''AK'' ''20260202'' ''host'' demoSignature"
  "headerGet demoRequest ''x-amz-date'' = ''20260202T024000Z''" "headerGet demoRequest ''x-amz-content-sha256'' = []"
  by (simp_all add: headerGet_def demo_keys demoRequest_def)

lemmas date_defs = decimal_def digitVal_def isDigit_def

lemma demo_verifier: "vf_region demoVerifier = ''us-east-1''" "vf_service demoVerifier = ''s3''"
  "vf_now demoVerifier u = (Inr 1770000000000000000, u)" "vf_sha256 demoVerifier x = replicate 32 (CHR ''s'')"
  by (simp_all add: demoVerifier_def ret_def)

lemma demo_date: "parseAmzDate ''20260202T024000Z'' = Some 1770000000000000000"
  by (simp only: parseAmzDate_def) (simp add: date_defs, simp add: hasPrefix_def fraction_def, simp add: daysIn_def, simp add: unixDays_def)

lemma hmac_constant: "(\<And>x. sha x = c) \<Longrightarrow> hmacSHA256 sha k d = c"
  by (simp add: hmacSHA256_def Let_def)

lemma demo_signature: "signatureOf demoVerifier demoRequest ''secret'' ''20260202'' ''host'' = demoSignature"
proof -
  have h: "hexEncode (replicate 32 (CHR ''s'')) = demoSignature"
    by (simp add: hexEncode_def demoSignature_def digitChar_def char_of_def bit_Suc_0_iff)
  show ?thesis unfolding signatureOf_def hmac_constant [where sha = "vf_sha256 demoVerifier", OF demo_verifier(4)] by (rule h)
qed

lemma demo_fields_ok: "field ''AK''" "field ''20260202''" "field ''us-east-1''" "field ''s3''" "field ''host''" "field demoSignature"
  by code_simp+

lemma Verify_accepts:
  assumes "headerGet r ''Authorization'' = authorization V ak date sh (signatureOf V r secret date sh)"
    and "field ak" "field date" "field (vf_region V)" "field (vf_service V)" "field sh"
    and "\<forall>x. length (vf_sha256 V x) = 32"
    and "lookupSecret ak s = (Inr secret, u)" and "vf_now V u = (Inr now, t)"
    and "parseAmzDate (headerGet r ''x-amz-date'') = Some stamp" and "\<bar>now - stamp\<bar> \<le> window"
    and "verifyPayloadHash (vf_sha256 V) r = Inr ()"
  shows "Verify V r lookupSecret s = (Inr ak, t)"
proof -
  let ?cred = "ak @ ''/'' @ date @ ''/'' @ vf_region V @ ''/'' @ vf_service V @ ''/aws4_request''"
  have "hmacSHA256 (vf_sha256 V) k x \<noteq> []" for k x
    using assms(7) by (simp add: hmacSHA256_def Let_def) (metis list.size(3) zero_neq_numeral)
  then have sig: "field (signatureOf V r secret date sh)" by (simp add: signatureOf_def field_hexEncode)
  have p: "parseAuthHeader (headerGet r ''Authorization'') = Inr (?cred, sh, signatureOf V r secret date sh)"
    unfolding assms(1) by (rule parse_authorization [OF assms(2-6) sig])
  have h: "hasPrefix (headerGet r ''Authorization'') ''AWS4-HMAC-SHA256 ''"
    unfolding assms(1) authorization_def by (simp add: hasPrefix_def)
  have "splitN (Suc (Suc (Suc (Suc (Suc 0))))) (CHR ''/'') ?cred = [ak, date, vf_region V, vf_service V, ''aws4_request'']"
    using assms(2-5) by (simp add: splitN_append fieldD del: splitN.simps(3))
  then have c: "splitN 5 (CHR ''/'') ?cred = [ak, date, vf_region V, vf_service V, ''aws4_request'']"
    by (simp add: eval_nat_numeral)
  have ne: "headerGet r ''x-amz-date'' \<noteq> []" using assms(10) by (auto simp: parseAmzDate_def)
  have d: "timeSub now stamp = now - stamp" using assms(11) by (auto simp: timeSub_def window_def)
  have "now - stamp < 0 \<Longrightarrow> i64 (stamp - now) = stamp - now"
    using assms(11) by (intro i64_id) (auto simp: is_i64_def window_def)
  then have "now < stamp \<Longrightarrow> \<not> window < i64 (stamp - now)" "\<not> now < stamp \<Longrightarrow> \<not> window < now - stamp"
    using assms(11) by auto
  then have "checkClockSkew V (headerGet r ''x-amz-date'') u = (Inr (), t)"
    using ne assms(10) by (simp add: checkClockSkew_def bnd_Inr [where m = "vf_now V", OF assms(9)] d Let_def ret_def)
  then show ?thesis unfolding Verify_parsed [OF h p c refl refl]
    using assms(8,12) by (simp add: liftE_def ret_def)
qed

lemma demo_accepted: "Verify demoVerifier demoRequest (\<lambda>_. ret ''secret'') () = (Inr ''AK'', ())"
  by (rule Verify_accepts [where date = "''20260202''" and sh = "''host''" and secret = "''secret''"
        and u = "()" and now = 1770000000000000000 and stamp = 1770000000000000000])
    (simp_all add: demo_headers demo_date demo_signature demo_fields_ok demo_verifier ret_def window_def verifyPayloadHash_def payloadExempt_def Let_def)

text \<open>C24: a request that carries the signature of its own contents under the secret of its access key, with
  a timestamp within a quarter of an hour and a body that matches the signed digest, is accepted for
  that access key; the header is the one AWS clients write.\<close>

theorem Verify_signed:
  assumes "headerGet r ''Authorization'' = authorization V ak date sh (signatureOf V r secret date sh)"
    and "field ak" "field date" "field (vf_region V)" "field (vf_service V)" "field sh"
    and "\<forall>x. length (vf_sha256 V x) = 32"
    and "lookupSecret ak s = (Inr secret, u)" and "vf_now V u = (Inr now, t)"
    and "parseAmzDate (headerGet r ''x-amz-date'') = Some stamp" and "\<bar>now - stamp\<bar> \<le> window"
    and "verifyPayloadHash (vf_sha256 V) r = Inr ()"
  shows "Verify V r lookupSecret s = (Inr ak, t)"
  using assms by (rule Verify_accepts)

theorem Verify_signed_witness:
  "Verify demoVerifier demoRequest (\<lambda>_. ret ''secret'') () = (Inr ''AK'', ())"
  by (rule Verify_signed [where date = "''20260202''" and sh = "''host''" and secret = "''secret''"
        and u = "()" and now = 1770000000000000000 and stamp = 1770000000000000000])
    (simp_all add: demo_headers demo_date demo_signature demo_fields_ok demo_verifier ret_def window_def
      verifyPayloadHash_def payloadExempt_def Let_def)

lemma Verify_accepted:
  assumes "Verify V r lookupSecret s = (Inr ak, t)"
  shows "\<exists>credential signedHeaders date rest secret s1 stamp now.
     parseAuthHeader (headerGet r ''Authorization'') = Inr (credential, signedHeaders, signatureOf V r secret date signedHeaders)
     \<and> splitN 5 (CHR ''/'') credential = [ak, date, vf_region V, vf_service V, rest]
     \<and> lookupSecret ak s = (Inr secret, s1)
     \<and> (payloadExempt (headerGet r ''x-amz-content-sha256'') \<or>
        snd (rq_Body r) = None \<and> hashSHA256 (vf_sha256 V) (fst (rq_Body r)) = headerGet r ''x-amz-content-sha256'')
     \<and> parseAmzDate (headerGet r ''x-amz-date'') = Some stamp \<and> vf_now V s1 = (Inr now, t)
     \<and> (\<bar>now - stamp\<bar> \<le> window \<or> stamp - now \<ge> 2 ^ 63)"
proof -
  from Verify_reaches_lookup [OF assms] obtain credential signedHeaders signature date rest where
    h: "hasPrefix (headerGet r ''Authorization'') ''AWS4-HMAC-SHA256 ''"
    and p: "parseAuthHeader (headerGet r ''Authorization'') = Inr (credential, signedHeaders, signature)"
    and c: "splitN 5 (CHR ''/'') credential = [ak, date, vf_region V, vf_service V, rest]" by blast
  from assms [unfolded Verify_parsed [OF h p c refl refl]] obtain secret s1 s2 where
    l: "lookupSecret ak s = (Inr secret, s1)" and skew: "checkClockSkew V (headerGet r ''x-amz-date'') s1 = (Inr (), s2)"
    and pay: "verifyPayloadHash (vf_sha256 V) r = Inr ()" and sig: "signatureOf V r secret date signedHeaders = signature"
    and t: "t = s2"
    by (auto simp: liftE_def fail_def ret_def elim!: bnd_InrE thn_InrE dest!: wrapE_InrD split: if_splits)
  from checkClockSkew_Inr [OF skew] pay p c l sig t show ?thesis
    unfolding verifyPayloadHash_Inr by blast
qed

text \<open>C25: what an accepted request proves: its signature is the one of its method, path, query, signed
  headers and payload digest under the secret of the access key that is returned, in the scope of
  this server; its body has the signed digest unless it is exempt; and its timestamp is within a
  quarter of an hour of the clock, or so far in the future that the difference leaves 64 bits.\<close>

theorem Verify_sound:
  assumes "Verify V r lookupSecret s = (Inr ak, t)"
  shows "\<exists>credential signedHeaders date rest secret s1 stamp now.
     parseAuthHeader (headerGet r ''Authorization'') = Inr (credential, signedHeaders, signatureOf V r secret date signedHeaders)
     \<and> splitN 5 (CHR ''/'') credential = [ak, date, vf_region V, vf_service V, rest]
     \<and> lookupSecret ak s = (Inr secret, s1)
     \<and> (payloadExempt (headerGet r ''x-amz-content-sha256'') \<or>
        snd (rq_Body r) = None \<and> hashSHA256 (vf_sha256 V) (fst (rq_Body r)) = headerGet r ''x-amz-content-sha256'')
     \<and> parseAmzDate (headerGet r ''x-amz-date'') = Some stamp \<and> vf_now V s1 = (Inr now, t)
     \<and> (\<bar>now - stamp\<bar> \<le> window \<or> stamp - now \<ge> 2 ^ 63)"
  using assms by (rule Verify_accepted)

theorem Verify_sound_witness:
  "\<exists>stamp now. parseAmzDate (headerGet demoRequest ''x-amz-date'') = Some stamp
     \<and> vf_now demoVerifier () = (Inr now, ()) \<and> (\<bar>now - stamp\<bar> \<le> window \<or> stamp - now \<ge> 2 ^ 63)"
proof -
  have "Verify demoVerifier demoRequest (\<lambda>_. ret ''secret'') () = (Inr ''AK'', ())"
    by (rule demo_accepted)
  from Verify_sound [OF this] show ?thesis by (auto simp: ret_def)
qed

text \<open>A timestamp some 292 years in the future passes the check of the time window: the difference
  saturates at the least \<open>Duration\<close>, whose negation is itself.\<close>

theorem checkClockSkew_far_future:
  "checkClockSkew demoVerifier ''23500101T000000Z'' () = (Inr (), ())"
proof -
  have "parseAmzDate ''23500101T000000Z'' = Some 11991628800000000000" by (simp only: parseAmzDate_def) (simp add: date_defs, simp add: hasPrefix_def fraction_def, simp add: daysIn_def, simp add: unixDays_def)
  then show ?thesis by (simp add: checkClockSkew_def demoVerifier_def act_defs timeSub_def i64_def window_def Let_def)
qed

end
