(* ===== verification/Chunked.thy ===== *)
theory Chunked
  imports SigV4
begin

text \<open>
  \<open>internal/s3api/chunked.go\<close>: the reader that decodes an \<open>aws-chunked\<close> body and checks the signature
  of each chunk before it hands the chunk on. A body is what remains of it, with the error it ends
  with (\<open>None\<close> is the end of the file); the decoded body is again a stream, the bytes the reader
  delivers and the error it ends with.
\<close>

record sigContext =
  sc_signingKey :: bytes
  sc_seedSignature :: string
  sc_credentialScope :: string
  sc_amzDate :: string

section \<open>Reading from the body\<close>

definition eof :: "gerr option \<Rightarrow> gerr" where
  "eof fin = (case fin of None \<Rightarrow> ENew ''EOF'' | Some e \<Rightarrow> e)"

text \<open>\<open>ReadString('\n')\<close> and \<open>io.ReadFull\<close>.\<close>

definition readLine :: "bytes \<Rightarrow> gerr option \<Rightarrow> gerr + string \<times> bytes" where
  "readLine body fin =
     (if CHR 0x0A \<in> set body
      then (let line = takeWhile (\<lambda>c. c \<noteq> CHR 0x0A) body in
            Inr (line @ nl, drop (Suc (length line)) body))
      else Inl (eof fin))"

definition readFull :: "nat \<Rightarrow> bytes \<Rightarrow> gerr option \<Rightarrow> gerr + bytes \<times> bytes" where
  "readFull n body fin =
     (if length body \<ge> n then Inr (take n body, drop n body)
      else Inl (if body \<noteq> [] \<and> fin = None then ENew ''unexpected EOF'' else eof fin))"

text \<open>\<open>strconv.ParseInt(s, 16, 64)\<close>.\<close>

definition numError :: "string \<Rightarrow> string \<Rightarrow> gerr" where
  "numError s what = EExt None (''strconv.ParseInt: parsing '' @ fmtQ s @ '': '' @ what)"

fun parseHex :: "int \<Rightarrow> string \<Rightarrow> string + int" where
  "parseHex n [] = Inr n"
| "parseHex n (c # s) =
     (case hexVal c of
        None \<Rightarrow> Inl ''invalid syntax''
      | Some d \<Rightarrow> if n \<ge> 2 ^ 60 then Inl ''value out of range'' else parseHex (16 * n + int d) s)"

definition parseInt16 :: "string \<Rightarrow> gerr + int" where
  "parseInt16 s =
     (let neg = hasPrefix s ''-''; digits = (if neg \<or> hasPrefix s ''+'' then tl s else s) in
      if digits = [] then Inl (numError s ''invalid syntax'')
      else case parseHex 0 digits of
             Inl what \<Rightarrow> Inl (numError s what)
           | Inr un \<Rightarrow>
               if \<not> neg \<and> un \<ge> 2 ^ 63 \<or> neg \<and> un > 2 ^ 63 then Inl (numError s ''value out of range'')
               else Inr (if neg then - un else un))"

definition crlf :: string where "crlf = [CHR 0x0D, CHR 0x0A]"

definition chunkSignatureOf :: "string list \<Rightarrow> string" where
  "chunkSignatureOf exts =
     (case List.find (\<lambda>x. hasPrefix (trimSpace x) ''chunk-signature='') exts of
        None \<Rightarrow> [] | Some x \<Rightarrow> trimSpace (drop (length ''chunk-signature='') (trimSpace x)))"

definition readChunkHeader :: "bytes \<Rightarrow> gerr option \<Rightarrow> gerr + int \<times> string \<times> bytes" where
  "readChunkHeader body fin =
     (case readLine body fin of
        Inl e \<Rightarrow> Inl (wrapAs ''read chunk header'' e)
      | Inr (line, rest) \<Rightarrow>
          if \<not> hasSuffix line crlf then Inl (ENew ''malformed chunk header: missing CRLF'')
          else
            (let parts = splitOn (CHR '';'') (trimSuffix line crlf);
                 sizeStr = trimSpace (hd parts) in
             case parseInt16 sizeStr of
               Inl e \<Rightarrow> Inl (wrapAs (''parse chunk size '' @ fmtQ sizeStr) e)
             | Inr size' \<Rightarrow>
                 (let sig = chunkSignatureOf (tl parts) in
                  if size' > 0 \<and> sig = [] then Inl (ENew ''missing chunk-signature'')
                  else Inr (size', sig, rest))))"

definition readCRLF :: "bytes \<Rightarrow> gerr option \<Rightarrow> gerr + bytes" where
  "readCRLF body fin =
     (case readFull 2 body fin of
        Inl e \<Rightarrow> Inl (wrapAs ''read chunk CRLF'' e)
      | Inr (b, rest) \<Rightarrow> if b \<noteq> crlf then Inl (ENew ''expected CRLF after chunk data'') else Inr rest)"

lemma readLine_shorter: "readLine body fin = Inr (line, rest) \<Longrightarrow> length rest < length body"
  by (cases body) (auto simp: readLine_def Let_def split: if_splits)

lemma readChunkHeader_shorter: "readChunkHeader body fin = Inr (n, sig, rest) \<Longrightarrow> length rest < length body"
  by (auto simp: readChunkHeader_def Let_def dest: readLine_shorter split: sum.splits prod.splits if_splits)

lemma readFull_Inr: "readFull n body fin = Inr (d, rest) \<Longrightarrow> body = d @ rest \<and> length d = n"
  by (auto simp: readFull_def split: if_splits)

lemma readCRLF_Inr: "readCRLF body fin = Inr rest \<Longrightarrow> body = crlf @ rest"
  by (auto simp: readCRLF_def split: sum.splits prod.splits if_splits dest!: readFull_Inr)

text \<open>\<open>readTrailingHeaders\<close>: lines up to an empty one; every line is at least one byte.\<close>

function readTrailingHeaders :: "bytes \<Rightarrow> gerr option \<Rightarrow> gerr option" where
  "readTrailingHeaders body fin =
     (case readLine body fin of
        Inl e \<Rightarrow> Some (wrapAs ''read trailing header'' e)
      | Inr (line, rest) \<Rightarrow> if line = crlf then None else readTrailingHeaders rest fin)"
  by pat_completeness auto
termination
  by (relation "measure (\<lambda>(body, fin). length body)") (auto dest!: readLine_shorter)

declare readTrailingHeaders.simps [simp del]

section \<open>Signatures and the reader\<close>

definition chunkSignature :: "(bytes \<Rightarrow> bytes) \<Rightarrow> sigContext \<Rightarrow> string \<Rightarrow> bytes \<Rightarrow> string" where
  "chunkSignature sha C prev data =
     hexEncode (hmacSHA256 sha (sc_signingKey C)
       (joinStr nl [''AWS4-HMAC-SHA256-PAYLOAD'', sc_amzDate C, sc_credentialScope C, prev, emptyHash, hashSHA256 sha data]))"

definition verifyChunk :: "(bytes \<Rightarrow> bytes) \<Rightarrow> sigContext \<Rightarrow> string \<Rightarrow> string \<Rightarrow> bytes \<Rightarrow> gerr + unit" where
  "verifyChunk sha C prev sig data =
     (if sc_signingKey C = [] then Inr ()
      else (let computed = chunkSignature sha C prev data in
            if computed \<noteq> sig
            then Inl (ENew (''chunk signature mismatch: computed '' @ computed @ '' expected '' @ sig))
            else Inr ()))"

text \<open>\<open>make([]byte, n)\<close> panics for a length that is negative or more than the address space (2^48).\<close>

definition makePanics :: "int \<Rightarrow> bool" where
  "makePanics n \<longleftrightarrow> n < 0 \<or> n > 2 ^ 48"

text \<open>Reading to the end: \<open>prev\<close> is the signature of the chunk before.\<close>

function readChunks :: "(bytes \<Rightarrow> bytes) \<Rightarrow> sigContext \<Rightarrow> string \<Rightarrow> bytes \<Rightarrow> gerr option \<Rightarrow> stream" where
  "readChunks sha C prev body fin =
     (case readChunkHeader body fin of
        Inl e \<Rightarrow> ([], Some e)
      | Inr (n, sig, rest) \<Rightarrow>
          if n = 0 then
            (case verifyChunk sha C prev sig [] of
               Inl e \<Rightarrow> ([], Some e)
             | Inr _ \<Rightarrow> ([], readTrailingHeaders rest fin))
          else if makePanics n then ([], Some (EAbort ''makeslice: len out of range''))
          else
            (case readFull (nat n) rest fin of
               Inl e \<Rightarrow> ([], Some (wrapAs ''read chunk data'' e))
             | Inr (data, rest) \<Rightarrow>
                 (case readCRLF rest fin of
                    Inl e \<Rightarrow> ([], Some e)
                  | Inr rest \<Rightarrow>
                      (case verifyChunk sha C prev sig data of
                         Inl e \<Rightarrow> ([], Some e)
                       | Inr _ \<Rightarrow> (let (ds, e) = readChunks sha C sig rest fin in (data @ ds, e))))))"
  by pat_completeness auto
termination
  by (relation "measure (\<lambda>(sha, C, prev, body, fin). length body)")
    (auto dest!: readChunkHeader_shorter readFull_Inr readCRLF_Inr)

declare readChunks.simps [simp del]

definition awsChunkedBody :: "(bytes \<Rightarrow> bytes) \<Rightarrow> sigContext \<Rightarrow> stream \<Rightarrow> stream" where
  "awsChunkedBody sha C body = readChunks sha C (sc_seedSignature C) (fst body) (snd body)"

section \<open>Parsing and checking as two passes\<close>

text \<open>
  The reader parses and checks chunk by chunk. The specification does one after the other: the frames
  of the whole body, whatever their signatures say, and then as many of them as the chain of
  signatures covers. A body ends with the final chunk, and what follows it, or with an error.
\<close>

datatype frameEnd = FinalChunk string "gerr option" | Broken gerr

function frames :: "bytes \<Rightarrow> gerr option \<Rightarrow> (string \<times> bytes) list \<times> frameEnd" where
  "frames body fin =
     (case readChunkHeader body fin of
        Inl e \<Rightarrow> ([], Broken e)
      | Inr (n, sig, rest) \<Rightarrow>
          if n = 0 then ([], FinalChunk sig (readTrailingHeaders rest fin))
          else if makePanics n then ([], Broken (EAbort ''makeslice: len out of range''))
          else (case readFull (nat n) rest fin of
             Inl e \<Rightarrow> ([], Broken (wrapAs ''read chunk data'' e))
           | Inr (data, rest) \<Rightarrow>
               (case readCRLF rest fin of
                  Inl e \<Rightarrow> ([], Broken e)
                | Inr rest \<Rightarrow> (let (fs, en) = frames rest fin in ((sig, data) # fs, en)))))"
  by pat_completeness auto
termination
  by (relation "measure (\<lambda>(body, fin). length body)")
    (auto dest!: readChunkHeader_shorter readFull_Inr readCRLF_Inr)

declare frames.simps [simp del]

fun deliver :: "(bytes \<Rightarrow> bytes) \<Rightarrow> sigContext \<Rightarrow> string \<Rightarrow> (string \<times> bytes) list \<Rightarrow> frameEnd \<Rightarrow> stream" where
  "deliver sha C prev [] (Broken e) = ([], Some e)"
| "deliver sha C prev [] (FinalChunk sig te) =
     (case verifyChunk sha C prev sig [] of Inl e \<Rightarrow> ([], Some e) | Inr _ \<Rightarrow> ([], te))"
| "deliver sha C prev ((sig, data) # fs) en =
     (case verifyChunk sha C prev sig data of
        Inl e \<Rightarrow> ([], Some e)
      | Inr _ \<Rightarrow> (let (ds, e) = deliver sha C sig fs en in (data @ ds, e)))"

lemma frames_size:
  "frames body fin = (fs, en) \<Longrightarrow> length (concat (map snd fs)) + 2 * length fs \<le> length body"
proof (induction body fin arbitrary: fs rule: frames.induct)
  case (1 body fin)
  show ?case
  proof (cases "fs = []")
    case False
    with 1(2) obtain n sig rest data rest2 rest3 fs' where
      h: "readChunkHeader body fin = Inr (n, sig, rest)" "n \<noteq> 0" "\<not> makePanics n"
      and d: "readFull (nat n) rest fin = Inr (data, rest2)" and c: "readCRLF rest2 fin = Inr rest3"
      and f: "frames rest3 fin = (fs', en)" and fs: "fs = (sig, data) # fs'"
      by (subst (asm) frames.simps) (auto split: sum.splits prod.splits if_splits)
    from 1(1) [OF h(1) refl refl h(2,3) d refl c f]
    have "length (concat (map snd fs')) + 2 * length fs' \<le> length rest3" .
    with readChunkHeader_shorter [OF h(1)] readFull_Inr [OF d] readCRLF_Inr [OF c] fs show ?thesis
      by (simp add: crlf_def)
  qed simp
qed

lemma readChunks_frames:
  "readChunks sha C prev body fin = (let (fs, en) = frames body fin in deliver sha C prev fs en)"
proof (induction sha C prev body fin rule: readChunks.induct)
  case (1 sha C prev body fin)
  show ?case
  proof (cases "readChunkHeader body fin")
    case (Inl e)
    then show ?thesis by (simp add: readChunks.simps [of _ _ _ body] frames.simps [of body])
  next
    case (Inr h)
    obtain n sig rest where h: "readChunkHeader body fin = Inr (n, sig, rest)" using Inr by (cases h) auto
    show ?thesis
    proof (cases "n = 0 \<or> makePanics n")
      case True
      with h show ?thesis by (auto simp: readChunks.simps [of _ _ _ body] frames.simps [of body] split: sum.split)
    next
      case False
      show ?thesis
      proof (cases "readFull (nat n) rest fin")
        case (Inl e)
        with h False show ?thesis by (simp add: readChunks.simps [of _ _ _ body] frames.simps [of body])
      next
        case (Inr d)
        obtain data rest2 where d: "readFull (nat n) rest fin = Inr (data, rest2)" using Inr by (cases d) auto
        show ?thesis
        proof (cases "readCRLF rest2 fin")
          case (Inl e)
          with h d False show ?thesis by (simp add: readChunks.simps [of _ _ _ body] frames.simps [of body])
        next
          case c: (Inr rest3)
          show ?thesis
          proof (cases "verifyChunk sha C prev sig data")
            case (Inl e)
            with h d c False show ?thesis
              by (simp add: readChunks.simps [of _ _ _ body] frames.simps [of body] split: prod.split)
          next
            case v: (Inr u)
            from 1 [OF h refl refl _ _ d refl c v] False
            have "readChunks sha C sig rest3 fin = (let (fs, en) = frames rest3 fin in deliver sha C sig fs en)" by simp
            with h d c v False show ?thesis
              by (simp add: readChunks.simps [of _ _ _ body] frames.simps [of body] split: prod.split)
          qed
        qed
      qed
    qed
  qed
qed

section \<open>What the chain of signatures covers\<close>

definition claimed :: "string \<Rightarrow> (string \<times> bytes) list \<Rightarrow> nat \<Rightarrow> string" where
  "claimed prev fs i = (if i = 0 then prev else fst (fs ! (i - 1)))"

lemma claimed_Cons: "claimed prev (f # fs) (Suc i) = claimed (fst f) fs i"
  by (simp add: claimed_def nth_Cons')

lemma deliver_covered:
  assumes "deliver sha C prev fs en = (out, e)" and "sc_signingKey C \<noteq> []"
  shows "\<exists>n \<le> length fs. out = concat (map snd (take n fs))
     \<and> (\<forall>i<n. fst (fs ! i) = chunkSignature sha C (claimed prev fs i) (snd (fs ! i)))
     \<and> (e = None \<longrightarrow> n = length fs \<and> (\<exists>sig. en = FinalChunk sig None \<and> sig = chunkSignature sha C (claimed prev fs n) []))"
  using assms
proof (induction fs arbitrary: prev out)
  case Nil
  then show ?case
    by (cases en) (auto simp: verifyChunk_def claimed_def Let_def split: if_splits sum.splits)
next
  case (Cons f fs)
  obtain sig data where f: "f = (sig, data)" by (cases f)
  show ?case
  proof (cases "chunkSignature sha C prev data = sig")
    case False
    with Cons.prems show ?thesis
      by (intro exI [of _ 0]) (auto simp: f verifyChunk_def Let_def)
  next
    case True
    obtain ds e' where d: "deliver sha C sig fs en = (ds, e')" by (cases "deliver sha C sig fs en")
    with Cons.prems True have out: "out = data @ ds" "e' = e" by (auto simp: f verifyChunk_def Let_def)
    from d out(2) have d': "deliver sha C sig fs en = (ds, e)" by simp
    from Cons.IH [OF d' Cons.prems(2)] obtain n where n: "n \<le> length fs" "ds = concat (map snd (take n fs))"
      and sigs: "\<forall>i<n. fst (fs ! i) = chunkSignature sha C (claimed sig fs i) (snd (fs ! i))"
      and en: "e = None \<longrightarrow> n = length fs \<and> (\<exists>s. en = FinalChunk s None \<and> s = chunkSignature sha C (claimed sig fs n) [])"
      by blast
    have "fst ((f # fs) ! i) = chunkSignature sha C (claimed prev (f # fs) i) (snd ((f # fs) ! i))" if "i < Suc n" for i
      using that sigs True f by (cases i) (simp_all add: claimed_Cons, simp add: claimed_def)
    with n out(1) en f show ?thesis
      by (intro exI [of _ "Suc n"]) (simp add: claimed_Cons)
  qed
qed

section \<open>The body a client sends\<close>

fun hexN :: "nat \<Rightarrow> string" where
  "hexN n = (if n < 16 then [digitChar n] else hexN (n div 16) @ [digitChar (n mod 16)])"

declare hexN.simps [simp del]

definition chunkHeader :: "nat \<Rightarrow> string \<Rightarrow> string" where
  "chunkHeader n sig = hexN n @ '';chunk-signature='' @ sig @ crlf"

fun encodeBody :: "(bytes \<Rightarrow> bytes) \<Rightarrow> sigContext \<Rightarrow> string \<Rightarrow> bytes list \<Rightarrow> bytes" where
  "encodeBody sha C prev [] = chunkHeader 0 (chunkSignature sha C prev []) @ crlf"
| "encodeBody sha C prev (d # ds) =
     chunkHeader (length d) (chunkSignature sha C prev d) @ d @ crlf
     @ encodeBody sha C (chunkSignature sha C prev d) ds"

lemma parseHex_snoc:
  "parseHex a (xs @ [c]) = (case parseHex a xs of Inl e \<Rightarrow> Inl e | Inr m \<Rightarrow> parseHex m [c])"
  by (induction a xs rule: parseHex.induct) (simp_all split: option.split)

lemma parseHex_hexN: "n < 2 ^ 64 \<Longrightarrow> parseHex 0 (hexN n) = Inr (int n)"
proof (induction n rule: hexN.induct)
  case (1 n)
  show ?case
  proof (cases "n < 16")
    case True
    then show ?thesis by (subst hexN.simps) simp
  next
    case False
    define m k where mk: "m = n div 16" "k = n mod 16"
    have n: "n = 16 * m + k" "k < 16" by (simp_all add: mk)
    with 1(2) have m: "m < 2 ^ 60" by simp
    then have "m < 2 ^ 64" by simp
    with 1(1) False have IH: "parseHex 0 (hexN m) = Inr (int m)" unfolding mk by blast
    have "int m < 2 ^ 60" using m by (metis of_nat_less_iff of_nat_numeral of_nat_power)
    then have "parseHex 0 (hexN m @ [digitChar k]) = Inr (int n)" using n by (simp add: parseHex_snoc IH)
    with False show ?thesis by (subst hexN.simps) (simp add: mk)
  qed
qed

lemma hexN_field: "field (hexN n)"
proof (induction n rule: hexN.induct)
  case (1 n)
  have d: "field [digitChar k]" if "k < 16" for k
  proof -
    have "(of_char (digitChar k) :: nat) = (if k < 10 then 48 + k else 87 + k)" using that by (rule of_digitChar)
    with that show ?thesis by (auto simp: field_def printable_def split: if_splits)
  qed
  show ?case
  proof (cases "n < 16")
    case True
    with d show ?thesis by (subst hexN.simps) simp
  next
    case False
    with 1 d [of "n mod 16"] show ?thesis by (subst hexN.simps) (auto simp: field_def)
  qed
qed

lemma hexN_hex: "c \<in> set (hexN n) \<Longrightarrow> \<exists>k<16. c = digitChar k"
proof (induction n rule: hexN.induct)
  case (1 n)
  have "\<exists>k<16. digitChar (n mod 16) = digitChar k" by (rule exI [of _ "n mod 16"]) simp
  with 1 show ?case by (subst (asm) (2) hexN.simps) (auto split: if_splits)
qed

lemma hexN_plain: "c \<in> set (hexN n) \<Longrightarrow> c \<notin> {CHR '';'', CHR ''-'', CHR ''+'', CHR 0x0A}"
proof -
  assume "c \<in> set (hexN n)"
  then obtain k where k: "k < 16" "c = digitChar k" using hexN_hex by blast
  then have "(of_char c :: nat) = (if k < 10 then 48 + k else 87 + k)" by (simp add: of_digitChar)
  with k show ?thesis by (auto split: if_splits)
qed

lemma parseInt16_hexN: "n < 2 ^ 63 \<Longrightarrow> parseInt16 (hexN n) = Inr (int n)"
proof -
  assume n: "n < 2 ^ 63"
  have "hexN n \<noteq> []" using hexN_field by (simp add: field_def)
  then have "\<not> hasPrefix (hexN n) ''-''" "\<not> hasPrefix (hexN n) ''+''"
    using hexN_plain [of "hd (hexN n)" n] by (auto simp: hasPrefix_iff)
  with n parseHex_hexN [of n] \<open>hexN n \<noteq> []\<close> show ?thesis by (simp add: parseInt16_def Let_def)
qed

lemma takeWhile_until: "c \<notin> set a \<Longrightarrow> takeWhile (\<lambda>x. x \<noteq> c) (a @ c # b) = a"
  by (induction a) auto

lemma readChunkHeader_client:
  assumes "field sig" and "CHR '';'' \<notin> set sig" and "n < 2 ^ 63"
  shows "readChunkHeader (chunkHeader n sig @ rest) fin = Inr (int n, sig, rest)"
proof -
  define x where "x = ''chunk-signature='' @ sig"
  define line where "line = hexN n @ CHR '';'' # x"
  have "CHR 0x0A \<notin> set sig"
  proof
    assume "CHR 0x0A \<in> set sig"
    with assms(1) have "printable (CHR 0x0A)" by (auto simp: field_def list_all_iff)
    then show False by (simp add: printable_def)
  qed
  then have "CHR 0x0A \<notin> set x" and nosemi: "CHR '';'' \<notin> set x" using assms(2) by (simp_all add: x_def)
  moreover have "CHR 0x0A \<notin> set (hexN n)" using hexN_plain by blast
  ultimately have nonl: "CHR 0x0A \<notin> set (line @ [CHR 0x0D])" by (simp add: line_def)
  have body: "chunkHeader n sig @ rest = (line @ [CHR 0x0D]) @ CHR 0x0A # rest"
    by (simp add: chunkHeader_def crlf_def line_def x_def)
  have readline: "readLine (chunkHeader n sig @ rest) fin = Inr (line @ crlf, rest)"
    unfolding body readLine_def Let_def takeWhile_until [OF nonl] by (simp add: nl_def crlf_def)
  have "splitOn (CHR '';'') line = hexN n # splitOn (CHR '';'') x"
    unfolding line_def by (rule splitOn_append) (use hexN_plain in blast)
  then have sp: "splitOn (CHR '';'') line = [hexN n, x]" by (simp only: splitOn_none [OF nosemi])
  have t: "trimSpace (hexN n) = hexN n" "trimSpace sig = sig"
    using fieldD [OF hexN_field [of n]] fieldD [OF assms(1)] by (auto intro!: trimSpace_printable)
  have tx: "trimSpace x = x"
    using fieldD [OF assms(1)] by (intro trimSpace_printable) (simp add: x_def printable_def)
  have pre: "hasPrefix x ''chunk-signature=''" "drop (length ''chunk-signature='') x = sig" by (simp_all add: x_def)
  have "chunkSignatureOf [x] = sig"
    unfolding chunkSignatureOf_def by (simp only: List.find.simps tx pre if_True option.case t(2))
  then show ?thesis
    using assms(1) by (simp add: readChunkHeader_def readline sp t(1) parseInt16_hexN [OF assms(3)] Let_def field_def)
qed

lemma chunkSignature_field:
  assumes "\<And>x. length (sha x) = 32"
  shows "field (chunkSignature sha C prev d)" "CHR '';'' \<notin> set (chunkSignature sha C prev d)"
proof -
  have "hmacSHA256 sha k x \<noteq> []" for k x
    using assms by (simp add: hmacSHA256_def Let_def) (metis list.size(3) zero_neq_numeral)
  then show "field (chunkSignature sha C prev d)" by (simp add: chunkSignature_def field_hexEncode)
  have "CHR '';'' \<noteq> digitChar k" if "k < 16" for k
  proof
    assume "CHR '';'' = digitChar k"
    then have "(of_char (CHR '';'') :: nat) = of_char (digitChar k)" by (rule arg_cong)
    with that show False unfolding of_digitChar [OF that] by (simp split: if_splits)
  qed
  moreover have "(of_char c :: nat) div 16 < 16" for c
    using nat_of_char_less_256 [of c] by (simp add: div_less_iff_less_mult del: nat_of_char_less_256)
  ultimately have "CHR '';'' \<notin> set (hexEncode bs)" for bs by (auto simp: hexEncode_def)
  then show "CHR '';'' \<notin> set (chunkSignature sha C prev d)" by (simp add: chunkSignature_def)
qed

lemma readCRLF_crlf: "readCRLF (crlf @ rest) fin = Inr rest"
  by (simp add: readCRLF_def readFull_def crlf_def)

lemma readChunks_encoded:
  assumes "\<And>x. length (sha x) = 32" and "\<And>d. d \<in> set ds \<Longrightarrow> d \<noteq> [] \<and> length d \<le> 2 ^ 48"
  shows "readChunks sha C prev (encodeBody sha C prev ds) None = (concat ds, None)"
  using assms(2)
proof (induction ds arbitrary: prev)
  note sigs = chunkSignature_field [of sha, OF assms(1), where C = C]
  case Nil
  let ?sig = "chunkSignature sha C prev []"
  have h: "readChunkHeader (encodeBody sha C prev []) None = Inr (int 0, ?sig, crlf)"
    using readChunkHeader_client [OF sigs [where prev = prev and d = "[]"], where n = 0 and rest = crlf and fin = None] by simp
  have "readTrailingHeaders crlf None = None"
    by (subst readTrailingHeaders.simps) (simp add: readLine_def crlf_def nl_def)
  with h show ?case by (subst readChunks.simps) (simp add: verifyChunk_def)
next
  note sigs = chunkSignature_field [of sha, OF assms(1), where C = C]
  case (Cons d ds)
  let ?sig = "chunkSignature sha C prev d" and ?rest = "encodeBody sha C (chunkSignature sha C prev d) ds"
  have d: "0 < length d" "length d \<le> 2 ^ 48" using Cons.prems by auto
  then have "length d < 2 ^ 63" by simp
  then have h: "readChunkHeader (encodeBody sha C prev (d # ds)) None = Inr (int (length d), ?sig, d @ crlf @ ?rest)"
    using readChunkHeader_client [OF sigs [where prev = prev and d = d], where n = "length d" and rest = "d @ crlf @ ?rest" and fin = None]
    by simp
  have "int (length d) \<le> 2 ^ 48" using d(2) by (metis of_nat_le_iff of_nat_numeral of_nat_power)
  then have "\<not> makePanics (int (length d))" by (simp add: makePanics_def)
  moreover have "readFull (nat (int (length d))) (d @ crlf @ ?rest) None = Inr (d, crlf @ ?rest)" by (simp add: readFull_def)
  moreover have "readChunks sha C ?sig ?rest None = (concat ds, None)" using Cons by simp
  ultimately show ?case using h d(1)
    by (subst readChunks.simps) (simp add: readCRLF_crlf verifyChunk_def)
qed

section \<open>Properties\<close>

definition demoContext :: sigContext where
  "demoContext = \<lparr>sc_signingKey = ''key'', sc_seedSignature = ''seed'', sc_credentialScope = ''scope'', sc_amzDate = ''date''\<rparr>"

lemma demo_seed: "sc_seedSignature demoContext = ''seed''"
  by (simp add: demoContext_def)

text \<open>C26: a body that is chunked and signed as AWS prescribes decodes to its contents, without an error, for
  any sizes of its chunks and any digest of 32 bytes.\<close>

theorem awsChunkedBody_roundtrip:
  assumes "\<forall>x. length (sha x) = 32" and "\<forall>d \<in> set ds. d \<noteq> [] \<and> length d \<le> 2 ^ 48"
  shows "awsChunkedBody sha C (encodeBody sha C (sc_seedSignature C) ds, None) = (concat ds, None)"
  using assms readChunks_encoded by (simp add: awsChunkedBody_def)

theorem awsChunkedBody_roundtrip_witness:
  "awsChunkedBody (\<lambda>_. replicate 32 (CHR ''s'')) demoContext
     (encodeBody (\<lambda>_. replicate 32 (CHR ''s'')) demoContext ''seed'' [''ab'', ''c''], None) = (''abc'', None)"
  using awsChunkedBody_roundtrip [of "\<lambda>_. replicate 32 (CHR ''s'')" "[''ab'', ''c'']" demoContext]
  by (simp add: demo_seed del: encodeBody.simps)

text \<open>C27: the reader delivers nothing that is not covered by a signature. It refines the two passes of the
  specification: with the frames of the whole body, what is delivered is the contents of the first
  \<open>n\<close> of them, each of which claims the signature of its contents chained to the one before it; and
  when the body ends without an error these are all the frames and the final chunk is signed too.\<close>

theorem awsChunkedBody_authentic:
  assumes "sc_signingKey C \<noteq> []" and "frames (fst body) (snd body) = (fs, en)"
    and "awsChunkedBody sha C body = (out, e)"
  shows "\<exists>n \<le> length fs. out = concat (map snd (take n fs)) \<and> length out \<le> length (fst body)
     \<and> (\<forall>i<n. fst (fs ! i) = chunkSignature sha C (claimed (sc_seedSignature C) fs i) (snd (fs ! i)))
     \<and> (e = None \<longrightarrow> n = length fs
         \<and> (\<exists>sig. en = FinalChunk sig None \<and> sig = chunkSignature sha C (claimed (sc_seedSignature C) fs n) []))"
proof -
  from assms(2,3) have "deliver sha C (sc_seedSignature C) fs en = (out, e)"
    by (simp add: awsChunkedBody_def readChunks_frames)
  from deliver_covered [OF this assms(1)] obtain n where n: "n \<le> length fs" "out = concat (map snd (take n fs))"
    and r: "\<forall>i<n. fst (fs ! i) = chunkSignature sha C (claimed (sc_seedSignature C) fs i) (snd (fs ! i))"
      "e = None \<longrightarrow> n = length fs
         \<and> (\<exists>sig. en = FinalChunk sig None \<and> sig = chunkSignature sha C (claimed (sc_seedSignature C) fs n) [])" by blast
  have "length (concat (map snd fs)) = length out + length (concat (map snd (drop n fs)))"
    unfolding n(2) by (metis append_take_drop_id concat_append length_append map_append)
  with frames_size [OF assms(2)] have "length out \<le> length (fst body)" by simp
  with n r show ?thesis by blast
qed

theorem awsChunkedBody_authentic_witness:
  "\<exists>n. ''abc'' = concat (map snd (take n (fst (frames
      (encodeBody (\<lambda>_. replicate 32 (CHR ''s'')) demoContext ''seed'' [''ab'', ''c'']) None))))"
proof -
  let ?sha = "\<lambda>_ :: bytes. replicate 32 (CHR ''s'')"
  let ?b = "encodeBody ?sha demoContext ''seed'' [''ab'', ''c'']"
  have key: "sc_signingKey demoContext \<noteq> []" by (simp add: demoContext_def)
  have "readChunks ?sha demoContext ''seed'' ?b None = (concat [''ab'', ''c''], None)"
    by (rule readChunks_encoded) auto
  then have "awsChunkedBody ?sha demoContext (?b, None) = (''abc'', None)"
    by (simp add: awsChunkedBody_def demo_seed del: encodeBody.simps)
  moreover have "frames (fst (?b, None)) (snd (?b, None)) = (fst (frames ?b None), snd (frames ?b None))"
    by (simp del: encodeBody.simps)
  ultimately show ?thesis using awsChunkedBody_authentic [OF key] by blast
qed

text \<open>A chunk whose size is negative is not rejected: the reader panics in \<open>make\<close>.\<close>

theorem awsChunkedBody_negative_size:
  "awsChunkedBody sha C (''-1'' @ crlf, None) = ([], Some (EAbort ''makeslice: len out of range''))"
proof -
  have t: "trimSpace ''-1'' = ''-1''" by (rule trimSpace_printable) (simp add: printable_def)
  have "readChunkHeader (''-1'' @ crlf) None = Inr (-1, [], [])"
    by (simp add: readChunkHeader_def readLine_def crlf_def nl_def hasSuffix_def hasPrefix_def trimSuffix_def t
        parseInt16_def hexVal_def chunkSignatureOf_def Let_def)
  then show ?thesis unfolding awsChunkedBody_def by (subst readChunks.simps) (simp add: makePanics_def)
qed

end
