(* ===== verification/S3Api.thy ===== *)
theory S3Api
  imports BucketService Chunked Quota
begin

text \<open>
  \<open>internal/s3api\<close>: the HTTP interface. A handler is a call on the daemon's state that returns the
  response it writes; the XML it marshals is kept as the struct of \<open>xml.go\<close>. Only a panic leaves a
  handler without a response. Decoding the XML body of a completion (\<open>encoding/xml\<close>) is a field of
  the dependencies, as the library does it.
\<close>

section \<open>Responses\<close>

record Owner =
  ow_ID :: string
  ow_DisplayName :: string

record BucketEntry =
  be_Name :: string
  be_CreationDate :: string

record ObjectEntry =
  oe_Key :: string
  oe_LastModified :: string
  oe_ETag :: string
  oe_Size :: int
  oe_StorageClass :: string

record ListBucketResult =
  lb_Name :: string
  lb_Prefix :: string
  lb_Delimiter :: string
  lb_MaxKeys :: int
  lb_KeyCount :: int
  lb_IsTruncated :: bool
  lb_NextContinuationToken :: string
  lb_Contents :: "ObjectEntry list"
  lb_CommonPrefixes :: "string list"

record UploadEntry =
  ue_UploadID :: string
  ue_Key :: string
  ue_Initiated :: string

record PartEntry =
  pe_PartNumber :: int
  pe_ETag :: string
  pe_Size :: int

datatype respBody =
    NoBody
  | Contents bytes
  | ErrorResponse string string string
  | ListAllMyBucketsResult Owner "BucketEntry list"
  | ListBucket ListBucketResult
  | InitiateMultipartUploadResult string string string
  | CompleteMultipartUploadResult string string string string
  | ListMultipartUploadsResult string "UploadEntry list"
  | ListPartsResult string string string "PartEntry list"

record response =
  rs_Status :: int
  rs_Header :: "(string \<times> string) list"
  rs_Body :: respBody

definition s3ErrorStatus :: "(string \<times> int) list" where
  "s3ErrorStatus =
     [(''NoSuchBucket'', 404), (''NoSuchKey'', 404), (''NoSuchUpload'', 404), (''BucketAlreadyExists'', 409),
      (''BucketAlreadyOwnedByYou'', 409), (''InvalidBucketName'', 400), (''InvalidPart'', 400), (''QuotaExceeded'', 413),
      (''AccessDenied'', 403), (''InvalidAccessKeyId'', 403), (''SignatureDoesNotMatch'', 403), (''MissingSecurityHeader'', 400),
      (''AuthorizationHeaderMalformed'', 400), (''InvalidArgument'', 400), (''ServiceUnavailable'', 503),
      (''RequestTimeTooSkewed'', 403), (''XAmzContentSHA256Mismatch'', 400), (''InternalError'', 500)]"

definition StatusForCode :: "string \<Rightarrow> int" where
  "StatusForCode code = (case map_of s3ErrorStatus code of Some s \<Rightarrow> s | None \<Rightarrow> 500)"

definition WriteS3Error :: "string \<Rightarrow> string \<Rightarrow> string \<Rightarrow> int \<Rightarrow> response" where
  "WriteS3Error code message requestID status =
     \<lparr>rs_Status = status, rs_Header = [(''Content-Type'', ''application/xml'')], rs_Body = ErrorResponse code message requestID\<rparr>"

definition writeXML :: "int \<Rightarrow> respBody \<Rightarrow> response" where
  "writeXML status v = \<lparr>rs_Status = status, rs_Header = [(''Content-Type'', ''application/xml'')], rs_Body = v\<rparr>"

definition emptyResponse :: "int \<Rightarrow> (string \<times> string) list \<Rightarrow> response" where
  "emptyResponse status hdr = \<lparr>rs_Status = status, rs_Header = hdr, rs_Body = NoBody\<rparr>"

section \<open>Times as text\<close>

text \<open>The date of a day since the epoch, and the two layouts the handlers use, in UTC.\<close>

definition civil :: "int \<Rightarrow> int \<times> int \<times> int" where
  "civil days =
     (let z = days + 719468; era = z div 146097; doe = z mod 146097;
          yoe = (doe - doe div 1460 + doe div 36524 - doe div 146096) div 365;
          doy = doe - (365 * yoe + yoe div 4 - yoe div 100); mp = (5 * doy + 2) div 153;
          m = (if mp < 10 then mp + 3 else mp - 9) in
      (yoe + era * 400 + (if m \<le> 2 then 1 else 0), m, doy - (153 * mp + 2) div 5 + 1))"

definition pad :: "nat \<Rightarrow> int \<Rightarrow> string" where
  "pad w n = (let d = fmtD \<bar>n\<bar> in (if n < 0 then ''-'' else []) @ replicate (w - length d) (CHR ''0'') @ d)"

definition clock :: "gotime \<Rightarrow> string" where
  "clock t = (let s = unixSec t mod 86400 in pad 2 (s div 3600) @ '':'' @ pad 2 (s div 60 mod 60) @ '':'' @ pad 2 (s mod 60))"

definition formatRFC3339Nano :: "gotime \<Rightarrow> string" where
  "formatRFC3339Nano t =
     (let (y, m, d) = civil (unixSec t div 86400); frac = t mod 1000000000 in
      pad 4 y @ ''-'' @ pad 2 m @ ''-'' @ pad 2 d @ ''T'' @ clock t
      @ (if frac = 0 then [] else ''.'' @ trimRightSet (pad 9 frac) ''0'') @ ''Z'')"

definition formatHTTP :: "gotime \<Rightarrow> string" where
  "formatHTTP t =
     (let days = unixSec t div 86400; (y, m, d) = civil days in
      [''Thu'', ''Fri'', ''Sat'', ''Sun'', ''Mon'', ''Tue'', ''Wed''] ! nat (days mod 7) @ '', '' @ pad 2 d @ '' ''
      @ [''Jan'', ''Feb'', ''Mar'', ''Apr'', ''May'', ''Jun'', ''Jul'', ''Aug'', ''Sep'', ''Oct'', ''Nov'', ''Dec''] ! nat (m - 1)
      @ '' '' @ pad 4 y @ '' '' @ clock t @ '' GMT'')"

text \<open>\<open>strconv.Atoi\<close>, \<open>None\<close> for its error.\<close>

definition atoi :: "string \<Rightarrow> int option" where
  "atoi s =
     (let neg = hasPrefix s ''-''; digits = (if neg \<or> hasPrefix s ''+'' then tl s else s);
          n = decimal digits; v = (if neg then - n else n) in
      if digits = [] \<or> \<not> list_all isDigit digits \<or> \<not> is_i64 v then None else Some v)"

section \<open>Dependencies and middleware\<close>

record 'w s3deps =
  dp_svc :: "'w svc"
  dp_region :: string
  dp_flushStructure :: "('w daemon \<Rightarrow> 'w daemon) option"
  dp_decrypt :: "(string \<Rightarrow> gerr + string) option"
  dp_decodeParts :: "stream \<Rightarrow> gerr + CompletePart list"

text \<open>The secret the lookup leaves behind for the handler is a second component of the state.\<close>

definition capturing :: "('s, 'a) act \<Rightarrow> ('s \<times> string, 'a) act" where
  "capturing m = (\<lambda>(s, k). case m s of (r, s') \<Rightarrow> (r, (s', k)))"

definition capture :: "string \<Rightarrow> ('s \<times> string, string) act" where
  "capture secret = (\<lambda>(s, k). (Inr secret, (s, secret)))"

definition authVerifier :: "'w s3deps \<Rightarrow> ('w daemon \<times> string) verifier" where
  "authVerifier D = \<lparr>vf_region = dp_region D, vf_service = ''s3'', vf_now = capturing (timeNow (dp_svc D)),
     vf_sha256 = env_sha256 (svc_env (dp_svc D))\<rparr>"

definition lookupUser :: "'w s3deps \<Rightarrow> string \<Rightarrow> ('w daemon, User) act" where
  "lookupUser D ak = askStructure (dp_svc D) ''structure.GetUserByAccessKey'' (\<lambda>d. GetUserByAccessKey d ak)"

definition lookupSecret :: "'w s3deps \<Rightarrow> string \<Rightarrow> ('w daemon \<times> string, string) act" where
  "lookupSecret D ak =
     bnd (capturing (lookupUser D ak)) (\<lambda>user.
     case dp_decrypt D of
       Some decrypt \<Rightarrow>
         if usr_SecretKeyEnc user \<noteq> [] then bnd (liftE (decrypt (usr_SecretKeyEnc user))) capture
         else capture (usr_SecretKeyHash user)
     | None \<Rightarrow> capture (usr_SecretKeyHash user))"

definition authError :: "string \<Rightarrow> gerr \<Rightarrow> response" where
  "authError reqID e =
     (if errIs ErrMissingAuthHeader e then WriteS3Error ''MissingSecurityHeader'' ''Missing Authorization header.'' reqID 400
      else if errIs ErrInvalidAuthHeader e then WriteS3Error ''AuthorizationHeaderMalformed'' (errText e) reqID 400
      else if errIs ErrSignatureMismatch e then WriteS3Error ''SignatureDoesNotMatch'' ''The request signature we calculated does not match the signature you provided. Check your secret access key and signing method.'' reqID 403
      else if errIs ErrRequestExpired e then WriteS3Error ''RequestTimeTooSkewed'' (errText e) reqID 403
      else if errIs ErrContentHashMismatch e then WriteS3Error ''XAmzContentSHA256Mismatch'' (errText e) reqID 400
      else WriteS3Error ''InvalidAccessKeyId'' ''The AWS access key ID you provided does not exist.'' reqID 403)"

definition sigContextOf :: "'w s3deps \<Rightarrow> request \<Rightarrow> string \<Rightarrow> sigContext option" where
  "sigContextOf D r secretKey =
     (if headerGet r ''Authorization'' = [] \<or> secretKey = [] then None
      else case parseAuthHeader (headerGet r ''Authorization'') of
        Inl e \<Rightarrow> None
      | Inr (cred, _, seedSig) \<Rightarrow>
          (case splitN 5 (CHR ''/'') cred of
             [_, date, region, service, _] \<Rightarrow>
               Some \<lparr>sc_signingKey = deriveSigningKey (env_sha256 (svc_env (dp_svc D))) secretKey date region service,
                     sc_seedSignature = seedSig, sc_credentialScope = joinStr ''/'' [date, region, service, ''aws4_request''],
                     sc_amzDate = headerGet r ''x-amz-date''\<rparr>
           | _ \<Rightarrow> None))"

definition authMiddleware ::
  "'w s3deps \<Rightarrow> string \<Rightarrow> request \<Rightarrow> (User \<Rightarrow> sigContext option \<Rightarrow> ('w daemon, response) act) \<Rightarrow> ('w daemon, response) act" where
  "authMiddleware D reqID r next =
     bnd (attempt (\<lambda>s. case Verify (authVerifier D) r (lookupSecret D) (s, []) of
            (Inl e, (s', _)) \<Rightarrow> (Inl e, s') | (Inr ak, (s', secretKey)) \<Rightarrow> (Inr (ak, secretKey), s'))) (\<lambda>v. case v of
       Inl e \<Rightarrow> ret (authError reqID e)
     | Inr (accessKey, secretKey) \<Rightarrow>
         bnd (attempt (lookupUser D accessKey)) (\<lambda>u. case u of
           Inl _ \<Rightarrow> ret (WriteS3Error ''InvalidAccessKeyId'' ''Access key not found.'' reqID 403)
         | Inr user \<Rightarrow>
             if \<not> usr_Enabled user then ret (WriteS3Error ''AccessDenied'' ''User account is disabled.'' reqID 403)
             else next user (sigContextOf D r secretKey)))"

text \<open>The identifier of the request; a failing random source leaves the buffer zero.\<close>

definition requestIDMiddleware :: "'w s3deps \<Rightarrow> (string \<Rightarrow> ('w daemon, response) act) \<Rightarrow> ('w daemon, response) act" where
  "requestIDMiddleware D next =
     bnd (attempt (onWorld (env_rand (svc_env (dp_svc D)) 16))) (\<lambda>b.
     let reqID = hexEncode (case b of Inr b \<Rightarrow> b | Inl _ \<Rightarrow> replicate 16 (CHR 0x00)) in
     bnd (next reqID) (\<lambda>rs. ret (rs\<lparr>rs_Header := (''X-Amz-Request-Id'', reqID) # rs_Header rs\<rparr>)))"

section \<open>Handlers\<close>

text \<open>What a handler knows: the dependencies, the user, the signature context, and the request.\<close>

record 'w reqCtx =
  rc_deps :: "'w s3deps"
  rc_reqID :: string
  rc_user :: User
  rc_sig :: "sigContext option"
  rc_req :: request

abbreviation rc_svc :: "'w reqCtx \<Rightarrow> 'w svc" where "rc_svc H \<equiv> dp_svc (rc_deps H)"

definition s3err :: "'w reqCtx \<Rightarrow> string \<Rightarrow> string \<Rightarrow> int \<Rightarrow> ('w daemon, response) act" where
  "s3err H code message status = ret (WriteS3Error code message (rc_reqID H) status)"

definition requireBucketOwner ::
  "'w reqCtx \<Rightarrow> string \<Rightarrow> (Bucket \<Rightarrow> ('w daemon, response) act) \<Rightarrow> ('w daemon, response) act" where
  "requireBucketOwner H bucketName k =
     bnd (attempt (askStructure (rc_svc H) ''structure.GetBucket'' (\<lambda>d. GetBucket d bucketName))) (\<lambda>r. case r of
       Inl _ \<Rightarrow> s3err H ''NoSuchBucket'' ''The specified bucket does not exist.'' 404
     | Inr bkt \<Rightarrow>
         if bkt_OwnerUserID bkt \<noteq> usr_ID (rc_user H) then s3err H ''AccessDenied'' ''Access Denied.'' 403
         else k bkt)"

definition handleListBuckets :: "'w reqCtx \<Rightarrow> ('w daemon, response) act" where
  "handleListBuckets H =
     bnd (attempt (svcListBuckets (rc_svc H) (usr_ID (rc_user H)))) (\<lambda>r. case r of
       Inl e \<Rightarrow> s3err H ''InternalError'' (errText e) 500
     | Inr bs \<Rightarrow> ret (writeXML 200 (ListAllMyBucketsResult
          \<lparr>ow_ID = usr_ID (rc_user H), ow_DisplayName = usr_DisplayName (rc_user H)\<rparr>
          (map (\<lambda>b. \<lparr>be_Name = bkt_Name b, be_CreationDate = formatRFC3339Nano (bkt_CreatedAt b)\<rparr>) bs))))"

definition mapBucketError :: "gerr \<Rightarrow> string" where
  "mapBucketError e =
     (let msg = errText e in
      if containsStr msg ''already exists'' then ''BucketAlreadyExists''
      else if containsStr msg ''invalid'' \<or> containsStr msg ''must be'' \<or> containsStr msg ''must not'' then ''InvalidBucketName''
      else if containsStr msg ''not found'' then ''NoSuchBucket''
      else ''InternalError'')"

definition handleCreateBucket :: "'w reqCtx \<Rightarrow> string \<Rightarrow> ('w daemon, response) act" where
  "handleCreateBucket H bucketName =
     bnd (let l = headerGet (rc_req H) ''x-amz-bucket-location'' in
          if l \<noteq> [] then ret l
          else bnd (attempt (askStructure (rc_svc H) ''structure.ListLocations'' (\<lambda>d. Inr (ListLocations d)))) (\<lambda>r.
                 ret (case r of Inr (loc # _) \<Rightarrow> loc_ID loc | _ \<Rightarrow> []))) (\<lambda>locationID.
     bnd (attempt (CreateBucket (rc_svc H) (dp_flushStructure (rc_deps H)) bucketName (usr_ID (rc_user H)) locationID)) (\<lambda>r. case r of
       Inl e \<Rightarrow> (let code = mapBucketError e in s3err H code (errText e) (StatusForCode code))
     | Inr _ \<Rightarrow> ret (emptyResponse 200 [])))"

definition handleDeleteBucket :: "'w reqCtx \<Rightarrow> string \<Rightarrow> ('w daemon, response) act" where
  "handleDeleteBucket H bucketName =
     requireBucketOwner H bucketName (\<lambda>_.
     bnd (attempt (DeleteBucket (rc_svc H) (dp_flushStructure (rc_deps H)) bucketName)) (\<lambda>r. case r of
       Inl e \<Rightarrow> s3err H ''NoSuchBucket'' (errText e) 404
     | Inr _ \<Rightarrow> ret (emptyResponse 204 [])))"

definition maxKeysOf :: "string \<Rightarrow> int" where
  "maxKeysOf s = (case atoi s of Some n \<Rightarrow> if n > 0 then n else 1000 | None \<Rightarrow> 1000)"

definition handleListObjects :: "'w reqCtx \<Rightarrow> string \<Rightarrow> ('w daemon, response) act" where
  "handleListObjects H bucketName =
     requireBucketOwner H bucketName (\<lambda>_.
     let q = queryGet (rc_req H); maxKeys = maxKeysOf (q ''max-keys'') in
     bnd (attempt (objectList (rc_svc H) bucketName (q ''prefix'') (q ''delimiter'') (q ''continuation-token'') maxKeys)) (\<lambda>r. case r of
       Inl e \<Rightarrow> s3err H ''NoSuchBucket'' (errText e) 404
     | Inr result \<Rightarrow>
         ret (writeXML 200 (ListBucket
           \<lparr>lb_Name = bucketName, lb_Prefix = q ''prefix'', lb_Delimiter = q ''delimiter'', lb_MaxKeys = maxKeys,
            lb_KeyCount = int (length (lr_Objects result) + length (lr_CommonPrefixes result)),
            lb_IsTruncated = lr_IsTruncated result, lb_NextContinuationToken = lr_NextContinuationToken result,
            lb_Contents = map (\<lambda>obj. \<lparr>oe_Key = obj_Key obj, oe_LastModified = formatRFC3339Nano (obj_LastModified obj),
               oe_ETag = obj_ETag obj, oe_Size = obj_SizeBytes obj, oe_StorageClass = ''STANDARD''\<rparr>) (lr_Objects result),
            lb_CommonPrefixes = lr_CommonPrefixes result\<rparr>))))"

definition isChunkedBody :: "request \<Rightarrow> bool" where
  "isChunkedBody r \<longleftrightarrow> headerGet r ''Content-Encoding'' = ''aws-chunked''
     \<or> headerGet r ''x-amz-content-sha256'' = ''STREAMING-AWS4-HMAC-SHA256-PAYLOAD''"

definition maybeAWSChunkedBody :: "'w reqCtx \<Rightarrow> stream" where
  "maybeAWSChunkedBody H =
     (if \<not> isChunkedBody (rc_req H) then rq_Body (rc_req H)
      else case rc_sig H of
             Some C \<Rightarrow> awsChunkedBody (env_sha256 (svc_env (rc_svc H))) C (rq_Body (rc_req H))
           | None \<Rightarrow> rq_Body (rc_req H))"

definition contentTypeOf :: "request \<Rightarrow> string" where
  "contentTypeOf r = (let ct = headerGet r ''Content-Type'' in if ct = [] then ''application/octet-stream'' else ct)"

definition quotaCheck :: "'w svc \<Rightarrow> string \<Rightarrow> int \<Rightarrow> ('w daemon, unit) act" where
  "quotaCheck S locationID n = thn (os S ''quota.Check'') (\<lambda>s. (Check (d_structure s) (d_stats s) locationID n, s))"

text \<open>The errors the object handlers share.\<close>

definition unavailable :: "'w reqCtx \<Rightarrow> gerr \<Rightarrow> ('w daemon, response) act \<Rightarrow> ('w daemon, response) act" where
  "unavailable H e k =
     (if errIs ErrUnavailable e then s3err H ''ServiceUnavailable'' (errText e) (StatusForCode ''ServiceUnavailable'') else k)"

definition noSuchUpload :: "'w reqCtx \<Rightarrow> gerr \<Rightarrow> ('w daemon, response) act \<Rightarrow> ('w daemon, response) act" where
  "noSuchUpload H e k =
     (if errIs ErrUploadNotFound e
      then s3err H ''NoSuchUpload'' ''The specified upload does not exist.'' (StatusForCode ''NoSuchUpload'') else k)"

definition handlePutObject :: "'w reqCtx \<Rightarrow> string \<Rightarrow> string \<Rightarrow> ('w daemon, response) act" where
  "handlePutObject H bucketName key =
     requireBucketOwner H bucketName (\<lambda>bkt.
     bnd (if rq_ContentLength (rc_req H) > 0
          then bnd (attempt (quotaCheck (rc_svc H) (bkt_WebDAVLocationID bkt) (rq_ContentLength (rc_req H)))) (\<lambda>r.
                 ret (case r of Inl e \<Rightarrow> IsExceeded e | Inr _ \<Rightarrow> False))
          else ret False) (\<lambda>exceeded.
     if exceeded then s3err H ''QuotaExceeded'' ''Storage quota exceeded.'' (StatusForCode ''QuotaExceeded'')
     else
       bnd (attempt (Put (rc_svc H) bucketName key (contentTypeOf (rc_req H)) (maybeAWSChunkedBody H))) (\<lambda>r. case r of
         Inl e \<Rightarrow> unavailable H e (s3err H ''InternalError'' (errText e) 500)
       | Inr obj \<Rightarrow> ret (emptyResponse 200 [(''ETag'', obj_ETag obj)]))))"

definition objectHeaders :: "Object \<Rightarrow> (string \<times> string) list" where
  "objectHeaders obj =
     [(''Content-Type'', obj_ContentType obj), (''Content-Length'', fmtD (obj_SizeBytes obj)), (''ETag'', obj_ETag obj),
      (''Last-Modified'', formatHTTP (obj_LastModified obj))]"

definition noSuchKey :: "'w reqCtx \<Rightarrow> ('w daemon, response) act" where
  "noSuchKey H = s3err H ''NoSuchKey'' ''The specified key does not exist.'' 404"

definition handleGetObject :: "'w reqCtx \<Rightarrow> string \<Rightarrow> string \<Rightarrow> ('w daemon, response) act" where
  "handleGetObject H bucketName key =
     requireBucketOwner H bucketName (\<lambda>_.
     bnd (attempt (Get (rc_svc H) bucketName key)) (\<lambda>r. case r of
       Inl e \<Rightarrow> noSuchKey H
     | Inr (obj, data) \<Rightarrow> ret \<lparr>rs_Status = 200, rs_Header = objectHeaders obj, rs_Body = Contents data\<rparr>))"

definition handleHeadObject :: "'w reqCtx \<Rightarrow> string \<Rightarrow> string \<Rightarrow> ('w daemon, response) act" where
  "handleHeadObject H bucketName key =
     requireBucketOwner H bucketName (\<lambda>_.
     bnd (attempt (Head (rc_svc H) bucketName key)) (\<lambda>r. case r of
       Inl e \<Rightarrow> noSuchKey H
     | Inr obj \<Rightarrow> ret (emptyResponse 200 (objectHeaders obj))))"

definition handleDeleteObject :: "'w reqCtx \<Rightarrow> string \<Rightarrow> string \<Rightarrow> ('w daemon, response) act" where
  "handleDeleteObject H bucketName key =
     requireBucketOwner H bucketName (\<lambda>_.
     bnd (attempt (Delete (rc_svc H) bucketName key)) (\<lambda>r. case r of
       Inl e \<Rightarrow> unavailable H e (noSuchKey H)
     | Inr _ \<Rightarrow> ret (emptyResponse 204 [])))"

definition handleCreateMultipartUpload :: "'w reqCtx \<Rightarrow> string \<Rightarrow> string \<Rightarrow> ('w daemon, response) act" where
  "handleCreateMultipartUpload H bucketName key =
     requireBucketOwner H bucketName (\<lambda>_.
     bnd (attempt (Create (rc_svc H) bucketName key (contentTypeOf (rc_req H)))) (\<lambda>r. case r of
       Inl e \<Rightarrow> unavailable H e (s3err H ''InternalError'' (errText e) 500)
     | Inr uploadID \<Rightarrow> ret (writeXML 200 (InitiateMultipartUploadResult bucketName key uploadID))))"

definition handleUploadPart :: "'w reqCtx \<Rightarrow> string \<Rightarrow> string \<Rightarrow> ('w daemon, response) act" where
  "handleUploadPart H bucketName key =
     requireBucketOwner H bucketName (\<lambda>_.
     let uploadID = queryGet (rc_req H) ''uploadId'';
         invalid = s3err H ''InvalidArgument'' ''Invalid part number.'' 400 in
     case atoi (queryGet (rc_req H) ''partNumber'') of
       None \<Rightarrow> invalid
     | Some partNum \<Rightarrow>
         if partNum < 1 \<or> partNum > 10000 then invalid
         else
           (let sz = (if isChunkedBody (rc_req H) then -1 else rq_ContentLength (rc_req H)) in
            bnd (attempt (UploadPart (rc_svc H) bucketName key uploadID partNum sz (maybeAWSChunkedBody H))) (\<lambda>r. case r of
              Inl e \<Rightarrow> unavailable H e (noSuchUpload H e (s3err H ''InternalError'' (errText e) 500))
            | Inr etag \<Rightarrow> ret (emptyResponse 200 [(''ETag'', etag)]))))"

definition handleCompleteMultipartUpload :: "'w reqCtx \<Rightarrow> string \<Rightarrow> string \<Rightarrow> ('w daemon, response) act" where
  "handleCompleteMultipartUpload H bucketName key =
     requireBucketOwner H bucketName (\<lambda>_.
     case dp_decodeParts (rc_deps H) (rq_Body (rc_req H)) of
       Inl e \<Rightarrow> s3err H ''MalformedXML'' ''The XML you provided was not well-formed.'' 400
     | Inr parts \<Rightarrow>
         bnd (attempt (Complete (rc_svc H) bucketName key (queryGet (rc_req H) ''uploadId'') parts)) (\<lambda>r. case r of
           Inl e \<Rightarrow> unavailable H e (noSuchUpload H e
             (if errIs ErrPartNotFound e \<or> errIs ErrPartETagMismatch e
              then s3err H ''InvalidPart'' ''One or more of the specified parts could not be found or had an invalid digest.''
                     (StatusForCode ''InvalidPart'')
              else s3err H ''InternalError'' (errText e) 500))
         | Inr obj \<Rightarrow> ret (writeXML 200
             (CompleteMultipartUploadResult (''/'' @ bucketName @ ''/'' @ key) bucketName key (obj_ETag obj)))))"

definition handleAbortMultipartUpload :: "'w reqCtx \<Rightarrow> string \<Rightarrow> string \<Rightarrow> ('w daemon, response) act" where
  "handleAbortMultipartUpload H bucketName key =
     requireBucketOwner H bucketName (\<lambda>_.
     bnd (attempt (Abort (rc_svc H) bucketName (queryGet (rc_req H) ''uploadId''))) (\<lambda>r. case r of
       Inl e \<Rightarrow> unavailable H e (s3err H ''NoSuchUpload'' (errText e) 404)
     | Inr _ \<Rightarrow> ret (emptyResponse 204 [])))"

definition handleListMultipartUploads :: "'w reqCtx \<Rightarrow> string \<Rightarrow> ('w daemon, response) act" where
  "handleListMultipartUploads H bucketName =
     requireBucketOwner H bucketName (\<lambda>_.
     bnd (attempt (ListUploads (rc_svc H) bucketName)) (\<lambda>r. case r of
       Inl e \<Rightarrow> s3err H ''NoSuchBucket'' (errText e) 404
     | Inr ups \<Rightarrow> ret (writeXML 200 (ListMultipartUploadsResult bucketName
          (map (\<lambda>u. \<lparr>ue_UploadID = mpu_ID u, ue_Key = mpu_Key u, ue_Initiated = formatRFC3339Nano (mpu_Initiated u)\<rparr>) ups)))))"

definition handleListParts :: "'w reqCtx \<Rightarrow> string \<Rightarrow> string \<Rightarrow> ('w daemon, response) act" where
  "handleListParts H bucketName key =
     requireBucketOwner H bucketName (\<lambda>_.
     let uploadID = queryGet (rc_req H) ''uploadId'' in
     bnd (attempt (mpListParts (rc_svc H) bucketName uploadID)) (\<lambda>r. case r of
       Inl e \<Rightarrow> s3err H ''NoSuchUpload'' (errText e) 404
     | Inr parts \<Rightarrow> ret (writeXML 200 (ListPartsResult bucketName key uploadID
          (map (\<lambda>p. \<lparr>pe_PartNumber = mpp_PartNumber p, pe_ETag = mpp_ETag p, pe_Size = mpp_SizeBytes p\<rparr>) parts)))))"

section \<open>Routing\<close>

definition pathBucket :: "request \<Rightarrow> string" where
  "pathBucket r = hd (splitN 2 (CHR ''/'') (trimPrefix (rq_Path r) ''/''))"

definition pathKey :: "request \<Rightarrow> string" where
  "pathKey r = (case splitN 2 (CHR ''/'') (trimPrefix (rq_Path r) ''/'') of [_, k] \<Rightarrow> k | _ \<Rightarrow> [])"

definition dispatch :: "'w reqCtx \<Rightarrow> ('w daemon, response) act" where
  "dispatch H =
     (let m = rq_Method (rc_req H); has = queryHas (rc_req H);
          bucketName = pathBucket (rc_req H); key = pathKey (rc_req H) in
      if m = ''GET'' \<and> bucketName = [] then handleListBuckets H
      else if m = ''PUT'' \<and> key = [] \<and> \<not> has ''partNumber'' then handleCreateBucket H bucketName
      else if m = ''DELETE'' \<and> key = [] \<and> \<not> has ''uploadId'' then handleDeleteBucket H bucketName
      else if m = ''GET'' \<and> key = [] \<and> has ''uploads'' then handleListMultipartUploads H bucketName
      else if m = ''GET'' \<and> key = [] then handleListObjects H bucketName
      else if m = ''POST'' \<and> key \<noteq> [] \<and> has ''uploads'' then handleCreateMultipartUpload H bucketName key
      else if m = ''PUT'' \<and> key \<noteq> [] \<and> has ''partNumber'' then handleUploadPart H bucketName key
      else if m = ''POST'' \<and> key \<noteq> [] \<and> has ''uploadId'' then handleCompleteMultipartUpload H bucketName key
      else if m = ''DELETE'' \<and> key \<noteq> [] \<and> has ''uploadId'' then handleAbortMultipartUpload H bucketName key
      else if m = ''GET'' \<and> key \<noteq> [] \<and> has ''uploadId'' then handleListParts H bucketName key
      else if m = ''PUT'' \<and> key \<noteq> [] then handlePutObject H bucketName key
      else if m = ''GET'' \<and> key \<noteq> [] then handleGetObject H bucketName key
      else if m = ''DELETE'' \<and> key \<noteq> [] then handleDeleteObject H bucketName key
      else if m = ''HEAD'' \<and> key \<noteq> [] then handleHeadObject H bucketName key
      else s3err H ''MethodNotAllowed'' ''The specified method is not allowed against this resource.'' 405)"

text \<open>
  \<open>NewRouter\<close>: the multiplexer redirects a path that is not clean (301; its location and body are
  not modelled) before any handler runs, and passes everything else to the chain.
\<close>

definition NewRouter :: "'w s3deps \<Rightarrow> request \<Rightarrow> ('w daemon, response) act" where
  "NewRouter D r =
     (if rq_Method r \<noteq> ''CONNECT'' \<and> cleanPath (rq_EscapedPath r) \<noteq> rq_EscapedPath r then ret (emptyResponse 301 [])
      else requestIDMiddleware D (\<lambda>reqID. authMiddleware D reqID r (\<lambda>user sig.
        dispatch \<lparr>rc_deps = D, rc_reqID = reqID, rc_user = user, rc_sig = sig, rc_req = r\<rparr>)))"

end
