(* ===== verification/Sessions.thy ===== *)
theory Sessions
  imports SigV4 Daemon
begin

text \<open>
  \<open>session.go\<close> of \<open>internal/adminui\<close> and of \<open>internal/webui\<close>: the login sessions of the two web
  interfaces. A store is a map from the random token of a cookie to when the session ends, in the
  user interface with the access key it belongs to. The state of the interfaces is the daemon with
  both stores. A cookie the response sets is kept as a value.
\<close>

record session =
  ss_accessKey :: string
  ss_expiresAt :: gotime

record 'w site =
  st_daemon :: "'w daemon"
  st_admin :: "string \<rightharpoonup> gotime"
  st_web :: "string \<rightharpoonup> session"

definition onDaemon :: "('w daemon, 'a) act \<Rightarrow> ('w site, 'a) act" where
  "onDaemon m s = (case m (st_daemon s) of (r, d) \<Rightarrow> (r, s\<lparr>st_daemon := d\<rparr>))"

definition sessionTTL :: int where
  "sessionTTL = 24 * 3600 * 1000000000"

datatype cookie =
    SetCookie string string bool gotime
  | ClearCookie string

section \<open>The segments of a path\<close>

text \<open>
  \<open>ServeMux\<close> of \<open>net/http\<close> matches the path as it was sent, segment by segment, and decodes each segment; one
  that is not well formed stands for itself.
\<close>

fun percentDecode :: "string \<Rightarrow> string option" where
  "percentDecode [] = Some []"
| "percentDecode (c # cs) =
     (if c = CHR ''%''
      then (case cs of
              a # b # rest \<Rightarrow>
                (case (hexVal a, hexVal b) of
                   (Some x, Some y) \<Rightarrow> map_option ((#) (char_of (16 * x + y))) (percentDecode rest)
                 | _ \<Rightarrow> None)
            | _ \<Rightarrow> None)
      else map_option ((#) c) (percentDecode cs))"

definition pathSegments :: "string \<Rightarrow> string list" where
  "pathSegments p =
     map (\<lambda>seg. case percentDecode seg of Some s \<Rightarrow> s | None \<Rightarrow> seg) (splitOn (CHR ''/'') (trimPrefix p ''/''))"

section \<open>The cookie of a request\<close>

text \<open>\<open>r.Cookie(name)\<close> of \<open>net/http\<close>: the first cookie of that name whose value is well formed.\<close>

definition cookieValue :: "string \<Rightarrow> string option" where
  "cookieValue raw =
     (let v = (if length raw > 1 \<and> hd raw = CHR 0x22 \<and> last raw = CHR 0x22 then butlast (tl raw) else raw) in
      if list_all (\<lambda>c. let n = of_char c :: nat in 32 \<le> n \<and> n < 127 \<and> c \<noteq> CHR 0x22 \<and> c \<noteq> CHR '';'' \<and> c \<noteq> CHR 0x5C) v
      then Some v else None)"

definition cookieSpace :: string where
  "cookieSpace = [CHR '' '', CHR 0x09, CHR 0x0A, CHR 0x0D]"

definition cookiePart :: "string \<Rightarrow> string \<Rightarrow> string option" where
  "cookiePart name part =
     (let p = trimSet part cookieSpace in
      case splitN 2 (CHR ''='') p of
        [n, v] \<Rightarrow> if trimSet n cookieSpace = name then cookieValue v else None
      | _ \<Rightarrow> if p = name then Some [] else None)"

definition requestCookie :: "request \<Rightarrow> string \<Rightarrow> string option" where
  "requestCookie r name =
     (case concat (map (\<lambda>line. List.map_filter (cookiePart name) (splitOn (CHR '';'') line))
             (case map_of (rq_Header r) ''Cookie'' of None \<Rightarrow> [] | Some ls \<Rightarrow> ls)) of
        [] \<Rightarrow> None
      | v # _ \<Rightarrow> Some v)"

text \<open>A fresh token; a failing random source leaves the buffer zero.\<close>

definition newToken :: "'w svc \<Rightarrow> ('w daemon, string) act" where
  "newToken S =
     bnd (attempt (onWorld (env_rand (svc_env S) 32))) (\<lambda>b.
       ret (hexEncode (case b of Inr b \<Rightarrow> b | Inl _ \<Rightarrow> replicate 32 (CHR 0x00))))"

section \<open>The store of the administration interface\<close>

definition adminCookie :: string where
  "adminCookie = ''session''"

definition adminAdd :: "(string \<rightharpoonup> gotime) \<Rightarrow> string \<Rightarrow> gotime \<Rightarrow> (string \<rightharpoonup> gotime)" where
  "adminAdd m token now = m(token \<mapsto> now + sessionTTL)"

definition adminCreate :: "'w svc \<Rightarrow> ('w site, cookie) act" where
  "adminCreate S =
     bnd (onDaemon (newToken S)) (\<lambda>token.
     bnd (onDaemon (timeNow S)) (\<lambda>now.
     thn (modify (\<lambda>s. s\<lparr>st_admin := adminAdd (st_admin s) token now\<rparr>))
    (bnd (onDaemon (timeNow S)) (\<lambda>later.
       ret (SetCookie adminCookie token True (later + sessionTTL))))))"

definition adminCheck :: "(string \<rightharpoonup> gotime) \<Rightarrow> string \<Rightarrow> gotime \<Rightarrow> bool \<times> (string \<rightharpoonup> gotime)" where
  "adminCheck m token now =
     (case m token of
        None \<Rightarrow> (False, m)
      | Some exp \<Rightarrow> if now > exp then (False, m(token := None)) else (True, m))"

definition adminValid :: "'w svc \<Rightarrow> request \<Rightarrow> ('w site, bool) act" where
  "adminValid S r =
     (case requestCookie r adminCookie of
        None \<Rightarrow> ret False
      | Some token \<Rightarrow>
          bnd (gets (\<lambda>s. st_admin s token)) (\<lambda>x. case x of
            None \<Rightarrow> ret False
          | Some _ \<Rightarrow>
              bnd (onDaemon (timeNow S)) (\<lambda>now s.
                case adminCheck (st_admin s) token now of (ok, m) \<Rightarrow> (Inr ok, s\<lparr>st_admin := m\<rparr>))))"

definition adminDelete :: "request \<Rightarrow> ('w site, cookie) act" where
  "adminDelete r =
     thn (case requestCookie r adminCookie of
            None \<Rightarrow> ret ()
          | Some token \<Rightarrow> modify (\<lambda>s. s\<lparr>st_admin := (st_admin s)(token := None)\<rparr>))
         (ret (ClearCookie adminCookie))"

section \<open>The store of the user interface\<close>

definition webCookie :: string where
  "webCookie = ''webui_session''"

text \<open>
  The cookie is marked secure when the request came over TLS, directly or through a proxy that says
  so; \<open>EqualFold\<close> takes the long s for an s.
\<close>

definition secureCookie :: "bool \<Rightarrow> request \<Rightarrow> bool" where
  "secureCookie tls r \<longleftrightarrow> tls
     \<or> map lowerChar (headerGet r ''X-Forwarded-Proto'') \<in> {''https'', ''http'' @ [CHR 0xC5, CHR 0xBF]}"

definition webAdd :: "(string \<rightharpoonup> session) \<Rightarrow> string \<Rightarrow> string \<Rightarrow> gotime \<Rightarrow> (string \<rightharpoonup> session)" where
  "webAdd m token accessKey now = m(token \<mapsto> \<lparr>ss_accessKey = accessKey, ss_expiresAt = now + sessionTTL\<rparr>)"

definition webCreate :: "'w svc \<Rightarrow> bool \<Rightarrow> request \<Rightarrow> string \<Rightarrow> ('w site, cookie) act" where
  "webCreate S tls r accessKey =
     bnd (onDaemon (newToken S)) (\<lambda>token.
     bnd (onDaemon (timeNow S)) (\<lambda>now.
     thn (modify (\<lambda>s. s\<lparr>st_web := webAdd (st_web s) token accessKey now\<rparr>))
         (ret (SetCookie webCookie token (secureCookie tls r) (now + sessionTTL)))))"

definition webCheck :: "(string \<rightharpoonup> session) \<Rightarrow> string \<Rightarrow> gotime \<Rightarrow> string option \<times> (string \<rightharpoonup> session)" where
  "webCheck m token now =
     (case m token of
        None \<Rightarrow> (None, m)
      | Some sess \<Rightarrow> if now > ss_expiresAt sess then (None, m(token := None)) else (Some (ss_accessKey sess), m))"

definition webGet :: "'w svc \<Rightarrow> request \<Rightarrow> ('w site, string option) act" where
  "webGet S r =
     (case requestCookie r webCookie of
        None \<Rightarrow> ret None
      | Some token \<Rightarrow>
          bnd (gets (\<lambda>s. st_web s token)) (\<lambda>x. case x of
            None \<Rightarrow> ret None
          | Some _ \<Rightarrow>
              bnd (onDaemon (timeNow S)) (\<lambda>now s.
                case webCheck (st_web s) token now of (ak, m) \<Rightarrow> (Inr ak, s\<lparr>st_web := m\<rparr>))))"

definition webDelete :: "request \<Rightarrow> ('w site, cookie) act" where
  "webDelete r =
     thn (case requestCookie r webCookie of
            None \<Rightarrow> ret ()
          | Some token \<Rightarrow> modify (\<lambda>s. s\<lparr>st_web := (st_web s)(token := None)\<rparr>))
         (ret (ClearCookie webCookie))"

section \<open>The life of a session\<close>

text \<open>
  What happens to a store: a login, a logout, a request that carries a token. The contract of a
  store: \<open>entry\<close> is what a token stands for and until when.
\<close>

datatype 'a sessionEvent =
    LoggedIn string 'a gotime
  | LoggedOut string
  | Asked string gotime

fun concerns :: "string \<Rightarrow> 'a sessionEvent \<Rightarrow> bool" where
  "concerns token (LoggedIn t a now) \<longleftrightarrow> t = token"
| "concerns token (LoggedOut t) \<longleftrightarrow> t = token"
| "concerns token (Asked t now) \<longleftrightarrow> False"

text \<open>The specification: a token is good for what it was last issued for, for a day, unless it was
  given back since.\<close>

definition openSession :: "'a sessionEvent list \<Rightarrow> string \<Rightarrow> gotime \<Rightarrow> 'a option" where
  "openSession h token now =
     (case List.find (concerns token) (rev h) of
        Some (LoggedIn t a start) \<Rightarrow> if now \<le> start + sessionTTL then Some a else None
      | _ \<Rightarrow> None)"

locale session_store =
  fixes entry :: "'m \<Rightarrow> string \<Rightarrow> ('a \<times> gotime) option"
    and add :: "'m \<Rightarrow> string \<Rightarrow> 'a \<Rightarrow> gotime \<Rightarrow> 'm"
    and remove :: "'m \<Rightarrow> string \<Rightarrow> 'm"
    and check :: "'m \<Rightarrow> string \<Rightarrow> gotime \<Rightarrow> 'a option \<times> 'm"
    and fresh :: 'm
  assumes entry_fresh: "entry fresh t = None"
    and entry_add: "entry (add m t a now) u = (if u = t then Some (a, now + sessionTTL) else entry m u)"
    and entry_remove: "entry (remove m t) u = (if u = t then None else entry m u)"
    and check_value: "fst (check m t now) = (case entry m t of Some (a, e) \<Rightarrow> if now \<le> e then Some a else None | None \<Rightarrow> None)"
    and check_entry: "entry (snd (check m t now)) u =
      (if u = t \<and> fst (check m t now) = None then None else entry m u)"
begin

fun happen :: "'m \<Rightarrow> 'a sessionEvent \<Rightarrow> 'm" where
  "happen m (LoggedIn t a now) = add m t a now"
| "happen m (LoggedOut t) = remove m t"
| "happen m (Asked t now) = snd (check m t now)"

lemma check_history:
  assumes "\<forall>t n. Asked t n \<in> set h \<longrightarrow> n \<le> now"
  shows "fst (check (foldl happen fresh h) token now) = openSession h token now"
  using assms
proof (induction h rule: rev_induct)
  case Nil
  then show ?case by (simp add: check_value entry_fresh openSession_def)
next
  case (snoc e h)
  then have IH: "fst (check (foldl happen fresh h) token now) = openSession h token now" by auto
  show ?case
  proof (cases e)
    case (LoggedIn t a start)
    with IH show ?thesis by (auto simp: check_value entry_add openSession_def)
  next
    case (LoggedOut t)
    with IH show ?thesis by (auto simp: check_value entry_remove openSession_def)
  next
    case (Asked t n)
    with snoc.prems have n: "n \<le> now" by auto
    have "fst (check (snd (check m t n)) token now) = fst (check m token now)" for m
      using n by (auto simp: check_value check_entry split: option.split)
    with Asked IH show ?thesis by (simp add: openSession_def)
  qed
qed

end

interpretation webStore: session_store "\<lambda>m t. map_option (\<lambda>x. (ss_accessKey x, ss_expiresAt x)) (m t)" webAdd
    "\<lambda>m t. m(t := None)" webCheck Map.empty
  by unfold_locales (auto simp: webAdd_def webCheck_def split: option.split)

interpretation adminStore: session_store "\<lambda>m t. map_option (Pair ()) (m t)" "\<lambda>m t (a :: unit) now. adminAdd m t now"
    "\<lambda>m t. m(t := None)" "\<lambda>m t now. map_prod (\<lambda>ok. if ok then Some () else None) id (adminCheck m t now)" Map.empty
  by unfold_locales (auto simp: adminAdd_def adminCheck_def split: option.split)

end
