(* ===== verification/WebUI.thy ===== *)
theory WebUI
  imports Sessions BucketService
begin

text \<open>
  \<open>internal/webui\<close>: the interface a user browses buckets with. A handler is a call on the daemon with
  the session stores that returns what it writes: the status, the header lines and cookies it sets,
  and the page, kept as the template's data. \<open>bcrypt\<close> is a parameter. The request comes with what the
  library parses of it: the form, the name in the path, the uploaded file.

  The three loops over the pages of a listing take fuel; running out of it is a panic of the model,
  which \<open>WebUIFacts\<close> excludes where the source's loop ends.
\<close>

section \<open>Requests and responses\<close>

record uiRequest =
  ur_req :: request
  ur_tls :: bool
  ur_form :: "gerr + (string \<times> string list) list"
  ur_name :: string
  ur_upload :: "(string \<times> string \<times> stream) option"

record 'p uiResponse =
  up_Status :: int
  up_Header :: "(string \<times> string) list"
  up_Cookies :: "cookie list"
  up_Page :: 'p

datatype webPage =
    Redirected string
  | PlainError string
  | LoginPage string
  | BucketsPage "Bucket list" int string bool
  | BrowsePage bool Bucket "Bucket list" int string "Object list" "string list"
  | Download bytes

abbreviation formValue :: "(string \<times> string list) list \<Rightarrow> string \<Rightarrow> string" where
  "formValue form key \<equiv> (case map_of form key of Some (v # _) \<Rightarrow> v | _ \<Rightarrow> [])"

definition page :: "int \<Rightarrow> 'p \<Rightarrow> 'p uiResponse" where
  "page status p = \<lparr>up_Status = status, up_Header = [], up_Cookies = [], up_Page = p\<rparr>"

definition redirect :: "string \<Rightarrow> webPage uiResponse" where
  "redirect url = page 303 (Redirected url)"

definition httpError :: "string \<Rightarrow> int \<Rightarrow> webPage uiResponse" where
  "httpError text status = page status (PlainError text)"

text \<open>\<open>url.QueryEscape\<close>, \<open>path.Base\<close>.\<close>

definition queryEscape :: "string \<Rightarrow> string" where
  "queryEscape s = concat (map (\<lambda>c. if isUnreserved c then [c] else if c = CHR '' '' then ''+''
     else [CHR ''%'', hexUpper (of_char c div 16), hexUpper (of_char c mod 16)]) s)"

definition pathBase :: "string \<Rightarrow> string" where
  "pathBase p =
     (if p = [] then ''.''
      else let q = trimRightSet p ''/'' in if q = [] then ''/'' else last (splitOn (CHR ''/'') q))"

section \<open>Dependencies and sessions\<close>

record 'w webDeps =
  wd_svc :: "'w svc"
  wd_flush :: "('w daemon \<Rightarrow> 'w daemon) option"
  wd_bcrypt :: "string \<Rightarrow> string \<Rightarrow> bool"
  wd_fuel :: nat

definition requireSession ::
  "'w webDeps \<Rightarrow> uiRequest \<Rightarrow> (User \<Rightarrow> ('w site, webPage uiResponse) act) \<Rightarrow> ('w site, webPage uiResponse) act" where
  "requireSession W r next =
     bnd (webGet (wd_svc W) (ur_req r)) (\<lambda>ak. case ak of
       None \<Rightarrow> ret (redirect ''/login'')
     | Some accessKey \<Rightarrow>
         bnd (attempt (onDaemon (askStructure (wd_svc W) ''structure.GetUserByAccessKey'' (\<lambda>d. GetUserByAccessKey d accessKey)))) (\<lambda>u.
         case u of
           Inr user \<Rightarrow>
             if usr_Enabled user then next user
             else bnd (webDelete (ur_req r)) (\<lambda>c. ret (redirect ''/login''\<lparr>up_Cookies := [c]\<rparr>))
         | Inl _ \<Rightarrow> bnd (webDelete (ur_req r)) (\<lambda>c. ret (redirect ''/login''\<lparr>up_Cookies := [c]\<rparr>))))"

definition handleGetLogin :: "'w webDeps \<Rightarrow> uiRequest \<Rightarrow> ('w site, webPage uiResponse) act" where
  "handleGetLogin W r =
     bnd (webGet (wd_svc W) (ur_req r)) (\<lambda>ak.
       ret (if ak \<noteq> None then redirect ''/buckets'' else page 200 (LoginPage [])))"

definition renderLogin :: "string \<Rightarrow> webPage uiResponse" where
  "renderLogin errorMsg = page 200 (LoginPage errorMsg)"

definition handlePostLogin :: "'w webDeps \<Rightarrow> uiRequest \<Rightarrow> ('w site, webPage uiResponse) act" where
  "handlePostLogin W r =
     (case ur_form r of
        Inl _ \<Rightarrow> ret (httpError ''bad form'' 400)
      | Inr form \<Rightarrow>
          (let accessKey = formValue form ''access_key''; password = formValue form ''password'' in
           bnd (attempt (onDaemon (askStructure (wd_svc W) ''structure.GetUserByAccessKey'' (\<lambda>d. GetUserByAccessKey d accessKey)))) (\<lambda>u.
           case u of
             Inl _ \<Rightarrow> ret (renderLogin ''Invalid credentials'')
           | Inr user \<Rightarrow>
               if \<not> usr_Enabled user \<or> usr_WebPasswordHash user = [] then ret (renderLogin ''Invalid credentials'')
               else if \<not> wd_bcrypt W (usr_WebPasswordHash user) password then ret (renderLogin ''Invalid credentials'')
               else bnd (webCreate (wd_svc W) (ur_tls r) (ur_req r) accessKey) (\<lambda>c.
                      ret (redirect ''/buckets''\<lparr>up_Cookies := [c]\<rparr>)))))"

definition handlePostLogout :: "uiRequest \<Rightarrow> ('w site, webPage uiResponse) act" where
  "handlePostLogout r = bnd (webDelete (ur_req r)) (\<lambda>c. ret (redirect ''/login''\<lparr>up_Cookies := [c]\<rparr>))"

definition handleRootRedirect :: "('w daemon, webPage uiResponse) act" where
  "handleRootRedirect = ret (redirect ''/buckets'')"

section \<open>Buckets\<close>

text \<open>What an error leaves of a list: Go's zero value.\<close>

definition orNil :: "('w daemon, 'a list) act \<Rightarrow> ('w daemon, 'a list) act" where
  "orNil m = bnd (attempt m) (\<lambda>r. ret (case r of Inl _ \<Rightarrow> [] | Inr xs \<Rightarrow> xs))"

definition listLocations :: "'w svc \<Rightarrow> ('w daemon, Location list) act" where
  "listLocations S = orNil (askStructure S ''structure.ListLocations'' (\<lambda>d. Inr (ListLocations d)))"

definition hasLocations :: "'w svc \<Rightarrow> ('w daemon, bool) act" where
  "hasLocations S = bnd (listLocations S) (\<lambda>locs. ret (locs \<noteq> []))"

definition addSizes :: "int \<Rightarrow> Object list \<Rightarrow> int" where
  "addSizes acc objs = foldl (\<lambda>n obj. i64 (n + obj_SizeBytes obj)) acc objs"

text \<open>The pages of one bucket; an error ends the loop with what was added up so far.\<close>

fun storagePages :: "'w svc \<Rightarrow> string \<Rightarrow> nat \<Rightarrow> string \<Rightarrow> int \<Rightarrow> ('w daemon, int) act" where
  "storagePages S bucketName 0 token acc = fail (EAbort ''storageUsedBytes: out of fuel'')"
| "storagePages S bucketName (Suc n) token acc =
     bnd (attempt (objectList S bucketName [] [] token 1000)) (\<lambda>r. case r of
       Inl _ \<Rightarrow> ret acc
     | Inr result \<Rightarrow>
         (let acc = addSizes acc (lr_Objects result) in
          if \<not> lr_IsTruncated result \<or> lr_NextContinuationToken result = [] then ret acc
          else storagePages S bucketName n (lr_NextContinuationToken result) acc))"

fun storageUsedBytes :: "'w svc \<Rightarrow> nat \<Rightarrow> Bucket list \<Rightarrow> int \<Rightarrow> ('w daemon, int) act" where
  "storageUsedBytes S n [] acc = ret acc"
| "storageUsedBytes S n (b # bs) acc =
     bnd (storagePages S (bkt_Name b) n [] acc) (storageUsedBytes S n bs)"

definition renderListBuckets :: "'w webDeps \<Rightarrow> User \<Rightarrow> string \<Rightarrow> ('w daemon, webPage uiResponse) act" where
  "renderListBuckets W user errorMsg =
     bnd (orNil (svcListBuckets (wd_svc W) (usr_ID user))) (\<lambda>bs.
     bnd (storageUsedBytes (wd_svc W) (wd_fuel W) bs 0) (\<lambda>used.
     bnd (hasLocations (wd_svc W)) (\<lambda>has.
       ret (page 200 (BucketsPage bs used errorMsg has)))))"

definition handleListBuckets :: "'w webDeps \<Rightarrow> User \<Rightarrow> ('w daemon, webPage uiResponse) act" where
  "handleListBuckets W user =
     bnd (attempt (svcListBuckets (wd_svc W) (usr_ID user))) (\<lambda>r. case r of
       Inl e \<Rightarrow> ret (httpError (errText e) 500)
     | Inr bs \<Rightarrow>
         bnd (storageUsedBytes (wd_svc W) (wd_fuel W) bs 0) (\<lambda>used.
         bnd (hasLocations (wd_svc W)) (\<lambda>has.
           ret (page 200 (BucketsPage bs used [] has)))))"

definition handleCreateBucket :: "'w webDeps \<Rightarrow> User \<Rightarrow> uiRequest \<Rightarrow> ('w daemon, webPage uiResponse) act" where
  "handleCreateBucket W user r =
     (case ur_form r of
        Inl _ \<Rightarrow> ret (httpError ''bad form'' 400)
      | Inr form \<Rightarrow>
          bnd (listLocations (wd_svc W)) (\<lambda>locs.
          let locID = (case locs of [] \<Rightarrow> [] | loc # _ \<Rightarrow> loc_ID loc) in
          if locID = []
          then renderListBuckets W user ''No WebDAV location configured. Ask an administrator to add one first.''
          else bnd (attempt (CreateBucket (wd_svc W) (wd_flush W) (formValue form ''name'') (usr_ID user) locID)) (\<lambda>x. case x of
                 Inl e \<Rightarrow> renderListBuckets W user (errText e)
               | Inr _ \<Rightarrow> ret (redirect ''/buckets''))))"

definition handleDeleteBucket :: "'w webDeps \<Rightarrow> uiRequest \<Rightarrow> ('w daemon, webPage uiResponse) act" where
  "handleDeleteBucket W r =
     (case ur_form r of
        Inl _ \<Rightarrow> ret (httpError ''bad form'' 400)
      | Inr _ \<Rightarrow>
          bnd (attempt (DeleteBucket (wd_svc W) (wd_flush W) (ur_name r))) (\<lambda>x. ret (case x of
            Inl e \<Rightarrow> httpError (errText e) 500
          | Inr _ \<Rightarrow> redirect ''/buckets'')))"

definition requireBucketAccess ::
  "'w webDeps \<Rightarrow> User \<Rightarrow> uiRequest \<Rightarrow> (Bucket \<Rightarrow> ('w daemon, webPage uiResponse) act) \<Rightarrow> ('w daemon, webPage uiResponse) act" where
  "requireBucketAccess W user r k =
     bnd (attempt (askStructure (wd_svc W) ''structure.GetBucket'' (\<lambda>d. GetBucket d (ur_name r)))) (\<lambda>x. case x of
       Inl _ \<Rightarrow> ret (httpError ''bucket not found'' 403)
     | Inr bkt \<Rightarrow> if bkt_OwnerUserID bkt \<noteq> usr_ID user then ret (httpError ''forbidden'' 403) else k bkt)"

section \<open>Objects\<close>

definition objectPrefixFromKey :: "string \<Rightarrow> string" where
  "objectPrefixFromKey key =
     (let dir = pathDir (trimSuffix key ''/'') in
      if dir = ''.'' \<or> dir = ''/'' then [] else dir @ ''/'')"

definition redirectToBrowse :: "string \<Rightarrow> string \<Rightarrow> webPage uiResponse" where
  "redirectToBrowse bucketName pref =
     redirect (''/buckets/'' @ bucketName @ ''/browse'' @ (if pref \<noteq> [] then ''?prefix='' @ queryEscape pref else []))"

definition hideCurrentFolderMarker :: "Object list \<Rightarrow> string \<Rightarrow> Object list" where
  "hideCurrentFolderMarker objs pref =
     (if pref = [] then objs else filter (\<lambda>obj. obj_Key obj \<noteq> pref) objs)"

definition isHTMX :: "request \<Rightarrow> bool" where
  "isHTMX r \<longleftrightarrow> headerGet r ''HX-Request'' = ''true''"

definition handleBrowse :: "'w webDeps \<Rightarrow> User \<Rightarrow> uiRequest \<Rightarrow> ('w daemon, webPage uiResponse) act" where
  "handleBrowse W user r =
     requireBucketAccess W user r (\<lambda>bkt.
     let pref = queryGet (ur_req r) ''prefix'' in
     bnd (attempt (objectList (wd_svc W) (bkt_Name bkt) pref ''/'' [] 1000)) (\<lambda>x. case x of
       Inl e \<Rightarrow> ret (httpError (errText e) 500)
     | Inr result \<Rightarrow>
         bnd (orNil (svcListBuckets (wd_svc W) (usr_ID user))) (\<lambda>sidebar.
         bnd (storageUsedBytes (wd_svc W) (wd_fuel W) sidebar 0) (\<lambda>used.
           ret (page 200 (BrowsePage (isHTMX (ur_req r)) bkt sidebar used pref
             (hideCurrentFolderMarker (lr_Objects result) pref) (lr_CommonPrefixes result)))))))"

definition handleDownload :: "'w webDeps \<Rightarrow> User \<Rightarrow> uiRequest \<Rightarrow> ('w daemon, webPage uiResponse) act" where
  "handleDownload W user r =
     requireBucketAccess W user r (\<lambda>bkt.
     let key = queryGet (ur_req r) ''key'' in
     if key = [] then ret (httpError ''missing key'' 400)
     else bnd (attempt (Get (wd_svc W) (bkt_Name bkt) key)) (\<lambda>x. ret (case x of
            Inl e \<Rightarrow> httpError (errText e) 404
          | Inr (obj, data) \<Rightarrow> page 200 (Download data)\<lparr>up_Header :=
              [(''Content-Type'', obj_ContentType obj), (''Content-Length'', fmtD (obj_SizeBytes obj)),
               (''Content-Disposition'', ''attachment; filename='' @ [CHR 0x22] @ pathBase key @ [CHR 0x22])]\<rparr>)))"

definition handleUpload :: "'w webDeps \<Rightarrow> User \<Rightarrow> uiRequest \<Rightarrow> ('w daemon, webPage uiResponse) act" where
  "handleUpload W user r =
     (case ur_form r of
        Inl _ \<Rightarrow> ret (httpError ''bad upload'' 400)
      | Inr form \<Rightarrow> requireBucketAccess W user r (\<lambda>bkt.
          case ur_upload r of
            None \<Rightarrow> ret (httpError ''missing file'' 400)
          | Some (filename, ct, contents) \<Rightarrow>
              (let pref = formValue form ''prefix''; contentType = (if ct = [] then ''application/octet-stream'' else ct) in
               bnd (attempt (Put (wd_svc W) (bkt_Name bkt) (pref @ filename) contentType contents)) (\<lambda>x. ret (case x of
                 Inl e \<Rightarrow> httpError (errText e) 500
               | Inr _ \<Rightarrow> redirectToBrowse (bkt_Name bkt) pref)))))"

definition handleMkdir :: "'w webDeps \<Rightarrow> User \<Rightarrow> uiRequest \<Rightarrow> ('w daemon, webPage uiResponse) act" where
  "handleMkdir W user r =
     (case ur_form r of
        Inl _ \<Rightarrow> ret (httpError ''bad form'' 400)
      | Inr form \<Rightarrow> requireBucketAccess W user r (\<lambda>bkt.
          let pref = formValue form ''prefix''; key = pref @ formValue form ''name'' @ ''/'' in
          bnd (attempt (Put (wd_svc W) (bkt_Name bkt) key ''application/x-directory'' ([], None))) (\<lambda>x. ret (case x of
            Inl e \<Rightarrow> httpError (errText e) 500
          | Inr _ \<Rightarrow> redirectToBrowse (bkt_Name bkt) pref))))"

text \<open>
  The loop both prefix operations run: \<open>f\<close> on every object of every page, then the next page; the
  result tells whether there was an object at all.
\<close>

fun forEach :: "('a \<Rightarrow> ('s, unit) act) \<Rightarrow> 'a list \<Rightarrow> ('s, unit) act" where
  "forEach f [] = ret ()"
| "forEach f (x # xs) = thn (f x) (forEach f xs)"

fun prefixPages ::
  "'w svc \<Rightarrow> string \<Rightarrow> string \<Rightarrow> (Object \<Rightarrow> ('w daemon, unit) act) \<Rightarrow> nat \<Rightarrow> string \<Rightarrow> bool \<Rightarrow> ('w daemon, bool) act" where
  "prefixPages S bucketName pref f 0 token any = fail (EAbort ''prefixPages: out of fuel'')"
| "prefixPages S bucketName pref f (Suc n) token any =
     bnd (objectList S bucketName pref [] token 1000) (\<lambda>result.
     thn (forEach f (lr_Objects result))
    (let any = (any \<or> lr_Objects result \<noteq> []) in
     if \<not> lr_IsTruncated result \<or> lr_NextContinuationToken result = [] then ret any
     else prefixPages S bucketName pref f n (lr_NextContinuationToken result) any))"

definition deletePrefix :: "'w webDeps \<Rightarrow> string \<Rightarrow> string \<Rightarrow> ('w daemon, unit) act" where
  "deletePrefix W bucketName pref =
     bnd (prefixPages (wd_svc W) bucketName pref (\<lambda>listed. Delete (wd_svc W) bucketName (obj_Key listed)) (wd_fuel W) [] False)
       (\<lambda>deleted. if \<not> deleted then fail (ESent ErrObjectNotFound) else ret ())"

definition handleDeleteObject :: "'w webDeps \<Rightarrow> User \<Rightarrow> uiRequest \<Rightarrow> ('w daemon, webPage uiResponse) act" where
  "handleDeleteObject W user r =
     (case ur_form r of
        Inl _ \<Rightarrow> ret (httpError ''bad form'' 400)
      | Inr form \<Rightarrow> requireBucketAccess W user r (\<lambda>bkt.
          let key = formValue form ''key'' in
          bnd (attempt (if hasSuffix key ''/'' then deletePrefix W (bkt_Name bkt) key
                        else Delete (wd_svc W) (bkt_Name bkt) key)) (\<lambda>x. ret (case x of
            Inl e \<Rightarrow> httpError (errText e) 500
          | Inr _ \<Rightarrow> redirectToBrowse (bkt_Name bkt) (objectPrefixFromKey key)))))"

definition copyObject :: "'w svc \<Rightarrow> string \<Rightarrow> string \<Rightarrow> string \<Rightarrow> ('w daemon, unit) act" where
  "copyObject S bucketName oldKey newKey =
     bnd (Get S bucketName oldKey) (\<lambda>(obj, data).
     thn (Put S bucketName newKey (obj_ContentType obj) (data, None)) (ret ()))"

definition renamePrefix :: "'w webDeps \<Rightarrow> string \<Rightarrow> string \<Rightarrow> string \<Rightarrow> ('w daemon, unit) act" where
  "renamePrefix W bucketName oldPrefix newPrefix =
     (if oldPrefix = newPrefix then ret ()
      else bnd (prefixPages (wd_svc W) bucketName oldPrefix (\<lambda>listed.
             thn (copyObject (wd_svc W) bucketName (obj_Key listed) (newPrefix @ trimPrefix (obj_Key listed) oldPrefix))
            (thn (attempt (Delete (wd_svc W) bucketName (obj_Key listed))) (ret ()))) (wd_fuel W) [] False)
       (\<lambda>moved. if \<not> moved then fail (ESent ErrObjectNotFound) else ret ()))"

definition normalizeRenameKey :: "string \<Rightarrow> string \<Rightarrow> string" where
  "normalizeRenameKey oldKey newKey =
     (let newKey = trimSpace (trimPrefix newKey ''/'') in
      if newKey = [] then oldKey
      else if containsStr newKey ''/'' then newKey
      else objectPrefixFromKey oldKey @ newKey)"

definition handleRenameObject :: "'w webDeps \<Rightarrow> User \<Rightarrow> uiRequest \<Rightarrow> ('w daemon, webPage uiResponse) act" where
  "handleRenameObject W user r =
     (case ur_form r of
        Inl _ \<Rightarrow> ret (httpError ''bad form'' 400)
      | Inr form \<Rightarrow> requireBucketAccess W user r (\<lambda>bkt.
          let oldKey = formValue form ''key''; newKey = normalizeRenameKey oldKey (formValue form ''newKey'') in
          if hasSuffix oldKey ''/'' then
            (let newKey = trimSuffix newKey ''/'' @ ''/'' in
             bnd (attempt (renamePrefix W (bkt_Name bkt) oldKey newKey)) (\<lambda>x. ret (case x of
               Inl e \<Rightarrow> httpError (errText e) 404
             | Inr _ \<Rightarrow> redirectToBrowse (bkt_Name bkt) (objectPrefixFromKey newKey))))
          else
            bnd (attempt (Get (wd_svc W) (bkt_Name bkt) oldKey)) (\<lambda>x. case x of
              Inl e \<Rightarrow> ret (httpError (errText e) 404)
            | Inr (obj, data) \<Rightarrow>
                bnd (attempt (Put (wd_svc W) (bkt_Name bkt) newKey (obj_ContentType obj) (data, None))) (\<lambda>y. case y of
                  Inl e \<Rightarrow> ret (httpError (errText e) 500)
                | Inr _ \<Rightarrow>
                    thn (attempt (Delete (wd_svc W) (bkt_Name bkt) oldKey))
                      (ret (redirectToBrowse (bkt_Name bkt) (objectPrefixFromKey newKey)))))))"

section \<open>Routing\<close>

text \<open>
  \<open>NewServer\<close>: the patterns of the multiplexer, most specific first; the static files are not
  modelled. A pattern for \<open>GET\<close> also takes \<open>HEAD\<close>; what matches another method's pattern only is
  answered 405.
\<close>

definition authenticated :: "'w webDeps \<Rightarrow> uiRequest \<Rightarrow> (User \<Rightarrow> ('w daemon, webPage uiResponse) act) \<Rightarrow> ('w site, webPage uiResponse) act" where
  "authenticated W r h = requireSession W r (\<lambda>user. onDaemon (h user))"

definition webRoute :: "'w webDeps \<Rightarrow> uiRequest \<Rightarrow> ('w site, webPage uiResponse) act" where
  "webRoute W r =
     (if rq_Method (ur_req r) \<noteq> ''CONNECT'' \<and> cleanPath (rq_EscapedPath (ur_req r)) \<noteq> rq_EscapedPath (ur_req r)
      then ret (page 301 (Redirected (cleanPath (rq_EscapedPath (ur_req r)))))
      else let m = rq_Method (ur_req r); isGet = (m = ''GET'' \<or> m = ''HEAD'');
          segs = pathSegments (rq_EscapedPath (ur_req r)) in
      if segs = [''login''] \<and> isGet then handleGetLogin W r
      else if segs = [''login''] \<and> m = ''POST'' then handlePostLogin W r
      else if segs = [''logout''] \<and> m = ''POST'' then handlePostLogout r
      else if segs = [''buckets''] \<and> isGet then authenticated W r (handleListBuckets W)
      else if segs = [''buckets''] \<and> m = ''POST'' then authenticated W r (\<lambda>user. handleCreateBucket W user r)
      else
        (case segs of
           [b, name, op] \<Rightarrow>
             if b = ''buckets'' \<and> name \<noteq> [] \<and> m = ''POST'' \<and> op = ''delete'' then authenticated W r (\<lambda>_. handleDeleteBucket W (r\<lparr>ur_name := name\<rparr>))
             else if b = ''buckets'' \<and> name \<noteq> [] \<and> isGet \<and> op = ''browse'' then authenticated W r (\<lambda>user. handleBrowse W user (r\<lparr>ur_name := name\<rparr>))
             else if b = ''buckets'' \<and> name \<noteq> [] \<and> isGet \<and> op = ''download'' then authenticated W r (\<lambda>user. handleDownload W user (r\<lparr>ur_name := name\<rparr>))
             else if b = ''buckets'' \<and> name \<noteq> [] \<and> m = ''POST'' \<and> op = ''upload'' then authenticated W r (\<lambda>user. handleUpload W user (r\<lparr>ur_name := name\<rparr>))
             else if b = ''buckets'' \<and> name \<noteq> [] \<and> m = ''POST'' \<and> op = ''mkdir'' then authenticated W r (\<lambda>user. handleMkdir W user (r\<lparr>ur_name := name\<rparr>))
             else if isGet then authenticated W r (\<lambda>_. handleRootRedirect)
             else ret (httpError ''Method Not Allowed'' 405)
         | [b, name, o', op] \<Rightarrow>
             if b = ''buckets'' \<and> name \<noteq> [] \<and> m = ''POST'' \<and> o' = ''objects'' \<and> op = ''delete'' then authenticated W r (\<lambda>user. handleDeleteObject W user (r\<lparr>ur_name := name\<rparr>))
             else if b = ''buckets'' \<and> name \<noteq> [] \<and> m = ''POST'' \<and> o' = ''objects'' \<and> op = ''rename'' then authenticated W r (\<lambda>user. handleRenameObject W user (r\<lparr>ur_name := name\<rparr>))
             else if isGet then authenticated W r (\<lambda>_. handleRootRedirect)
             else ret (httpError ''Method Not Allowed'' 405)
         | _ \<Rightarrow>
             if isGet then authenticated W r (\<lambda>_. handleRootRedirect)
             else ret (httpError ''Method Not Allowed'' 405)))"

end
