(* ===== verification/Crypto.thy ===== *)
theory Crypto
  imports WebDAV Base64
begin

text \<open>
  \<open>internal/adminui/crypto.go\<close>: how passwords and secret keys are kept in the structure database. The
  block cipher in Galois counter mode is a parameter: sealing and opening under a key of 32 bytes
  and a nonce of 12.
\<close>

record aead =
  gcm_Seal :: "bytes \<Rightarrow> bytes \<Rightarrow> bytes \<Rightarrow> bytes"
  gcm_Open :: "bytes \<Rightarrow> bytes \<Rightarrow> bytes \<Rightarrow> gerr + bytes"

text \<open>What an authenticated cipher promises: what was sealed opens, under the same key and nonce.\<close>

definition aead_ok :: "aead \<Rightarrow> bool" where
  "aead_ok A \<longleftrightarrow> (\<forall>key nonce text. gcm_Open A key nonce (gcm_Seal A key nonce text) = Inr text)"

definition nonceSize :: nat where
  "nonceSize = 12"

definition illegalBase64 :: gerr where
  "illegalBase64 = EExt None ''illegal base64 data''"

definition decodeKey :: "string \<Rightarrow> gerr + bytes" where
  "decodeKey base64Key =
     (case base64Decode base64Key of
        None \<Rightarrow> Inl (wrapAs ''decode base64 key'' illegalBase64)
      | Some key \<Rightarrow>
          if length key \<noteq> 32
          then Inl (ENew (''key must be 32 bytes for AES-256 (got '' @ fmtD (int (length key)) @ '')''))
          else Inr key)"

definition EncryptPassword :: "aead \<Rightarrow> 'w env \<Rightarrow> string \<Rightarrow> string \<Rightarrow> ('w, string) act" where
  "EncryptPassword A E plaintext base64Key =
     bnd (liftE (decodeKey base64Key)) (\<lambda>key.
     bnd (wrapE (wrapAs ''generate nonce'') (env_rand E nonceSize)) (\<lambda>nonce.
       ret (base64Encode (nonce @ gcm_Seal A key nonce plaintext))))"

definition DecryptPassword :: "aead \<Rightarrow> string \<Rightarrow> string \<Rightarrow> gerr + string" where
  "DecryptPassword A ciphertext base64Key =
     (case decodeKey base64Key of
        Inl e \<Rightarrow> Inl e
      | Inr key \<Rightarrow>
          (case base64Decode ciphertext of
             None \<Rightarrow> Inl (wrapAs ''decode base64 ciphertext'' illegalBase64)
           | Some raw \<Rightarrow>
               if length raw < nonceSize
               then Inl (ENew (''ciphertext too short: '' @ fmtD (int (length raw)) @ '' bytes (need at least ''
                      @ fmtD (int nonceSize) @ '')''))
               else case gcm_Open A key (take nonceSize raw) (drop nonceSize raw) of
                      Inl e \<Rightarrow> Inl (wrapAs ''decrypt'' e)
                    | Inr plaintext \<Rightarrow> Inr plaintext))"

definition encodePassword :: "aead \<Rightarrow> 'w env \<Rightarrow> string \<Rightarrow> string \<Rightarrow> ('w, string) act" where
  "encodePassword A E plaintext base64Key =
     (if base64Key = []
      then fail (ENew ''encryption key is not configured; refusing to store credentials in plaintext'')
      else EncryptPassword A E plaintext base64Key)"

lemma decodeKey_Inr: "decodeKey k = Inr key \<longleftrightarrow> base64Decode k = Some key \<and> length key = 32"
  by (auto simp: decodeKey_def split: option.split)

lemma EncryptPassword_Inr:
  assumes "EncryptPassword A E p k w = (Inr c, w')"
  obtains key nonce where "decodeKey k = Inr key" and "env_rand E nonceSize w = (Inr nonce, w')"
    and "c = base64Encode (nonce @ gcm_Seal A key nonce p)"
  using assms by (auto simp: EncryptPassword_def liftE_def ret_def elim!: bnd_InrE dest!: wrapE_InrD)

lemma Encrypt_Decrypt:
  assumes "aead_ok A" and "env_ok E" and "EncryptPassword A E p k w = (Inr c, w')"
  shows "DecryptPassword A c k = Inr p"
proof -
  from EncryptPassword_Inr [OF assms(3)] obtain key nonce where
    k: "decodeKey k = Inr key" and n: "env_rand E nonceSize w = (Inr nonce, w')"
    and c: "c = base64Encode (nonce @ gcm_Seal A key nonce p)" .
  from assms(2) n have l: "length nonce = nonceSize" unfolding env_ok_def by blast
  have "base64Decode c = Some (nonce @ gcm_Seal A key nonce p)" by (simp add: c base64_roundtrip)
  then show ?thesis using assms(1) k l by (simp add: DecryptPassword_def aead_ok_def)
qed

text \<open>The credentials the server stores are never the plain ones: storing needs a key of 32 bytes.\<close>

lemma encodePassword_Inr:
  "encodePassword A E p k w = (Inr c, w') \<Longrightarrow> EncryptPassword A E p k w = (Inr c, w') \<and> k \<noteq> []"
  by (simp add: encodePassword_def fail_def split: if_splits)

section \<open>Property\<close>

text \<open>A cipher to try things on: it appends the key to the text.\<close>

definition demoCipher :: aead where
  "demoCipher = \<lparr>gcm_Seal = (\<lambda>key nonce text. text @ key),
     gcm_Open = (\<lambda>key nonce c. if hasSuffix c key then Inr (trimSuffix c key) else Inl (ENew ''message authentication failed''))\<rparr>"

lemma demoCipher_ok: "aead_ok demoCipher"
  by (simp add: aead_ok_def demoCipher_def)

definition demoKey :: string where
  "demoKey = base64Encode (replicate 32 (CHR ''k''))"

text \<open>C29: a stored credential can be read back. If encrypting a text under a key succeeds, decrypting
  the result under that key gives the text.\<close>

theorem EncryptPassword_DecryptPassword:
  assumes "aead_ok A" and "env_ok E" and "EncryptPassword A E plaintext k w = (Inr c, w')"
  shows "DecryptPassword A c k = Inr plaintext"
  using assms by (rule Encrypt_Decrypt)

theorem EncryptPassword_DecryptPassword_witness:
  "\<exists>c w. EncryptPassword demoCipher demoEnv ''pw'' demoKey [] = (Inr c, w) \<and> DecryptPassword demoCipher c demoKey = Inr ''pw''"
proof -
  have "decodeKey demoKey = Inr (replicate 32 (CHR ''k''))" by (simp add: decodeKey_Inr demoKey_def base64_roundtrip)
  then obtain c w where "EncryptPassword demoCipher demoEnv ''pw'' demoKey [] = (Inr c, w)"
    by (simp add: EncryptPassword_def demoEnv_def act_defs)
  with EncryptPassword_DecryptPassword [OF demoCipher_ok demoEnv_ok this] show ?thesis by blast
qed

end
