(* ===== verification/AdminUI.thy ===== *)
theory AdminUI
  imports WebUI Crypto Sync "HOL-Library.AList"
begin

text \<open>
  \<open>internal/adminui/server.go\<close>: the interface of the administrator. A handler is a call on the daemon
  that returns the page it renders, as the data of the template; \<open>bcrypt\<close>, the random numbers of
  \<open>crypto/rand\<close>, the sync engine and the two callbacks are fields of the dependencies, as in
  \<open>AdminDeps\<close>.
\<close>

section \<open>Pages and dependencies\<close>

record locStat =
  ls_Location :: Location
  ls_UsageBytes :: int
  ls_ActualBytes :: int
  ls_SavedBytes :: int

datatype adminPage =
    AdminLogin
  | Dashboard "locStat list" int int int
  | LocationsPage "Location list"
  | LocationNew
  | LocationDetail Location int
  | LocationEdit Location
  | UsersPage "User list" bool
  | UserNew bool string
  | UserCreated User string string string string string
  | UserDetail User "Bucket list"
  | UserEdit User
  | AdminBuckets "Bucket list" "string \<rightharpoonup> string" bool
  | BucketNew "User list" "Location list"
  | BucketDetail Bucket
  | ConnectionTest "gerr option"
  | AdminText string
  | AdminRedirect string
  | AdminError string

record 'w adminDeps =
  ad_AdminPasswordHash :: string
  ad_AdminUsername :: string
  ad_EncryptionKey :: string
  ad_svc :: "'w svc"
  ad_SyncEngine :: "(string \<Rightarrow> ('w daemon, unit) act) option"
  ad_RefreshWebDAV :: "('w daemon \<Rightarrow> 'w daemon) option"
  ad_FlushStructure :: "('w daemon \<Rightarrow> 'w daemon) option"
  ad_cipher :: aead
  ad_bcryptCompare :: "string \<Rightarrow> string \<Rightarrow> bool"
  ad_bcryptGenerate :: "string \<Rightarrow> ('w, string) act"
  ad_randInt :: "int \<Rightarrow> ('w, int) act"
  ad_newClient :: "string \<Rightarrow> string \<Rightarrow> string \<Rightarrow> ('w, 'w Client) act"

type_synonym 'w adminAct = "('w daemon, adminPage uiResponse) act"

definition adminRedirect :: "string \<Rightarrow> adminPage uiResponse" where
  "adminRedirect url = page 303 (AdminRedirect url)"

definition adminError :: "string \<Rightarrow> int \<Rightarrow> adminPage uiResponse" where
  "adminError text status = page status (AdminError text)"

definition notFound :: "adminPage uiResponse" where
  "notFound = adminError ''404 page not found'' 404"

text \<open>Calls on the structure database whose error the handler answers itself.\<close>

definition ask :: "'w adminDeps \<Rightarrow> string \<Rightarrow> (structureDB \<Rightarrow> gerr + 'a) \<Rightarrow> ('w daemon, gerr + 'a) act" where
  "ask A label f = attempt (askStructure (ad_svc A) label f)"

definition asks :: "'w adminDeps \<Rightarrow> string \<Rightarrow> (structureDB \<Rightarrow> 'a list) \<Rightarrow> ('w daemon, 'a list) act" where
  "asks A label f = orNil (askStructure (ad_svc A) label (\<lambda>d. Inr (f d)))"

definition change :: "'w adminDeps \<Rightarrow> string \<Rightarrow> (structureDB \<Rightarrow> gerr + structureDB) \<Rightarrow> ('w daemon, gerr + unit) act" where
  "change A label f = attempt (changeStructure (ad_svc A) label f)"

section \<open>Helpers\<close>

definition alphanumerics :: string where
  "alphanumerics = ''ABCDEFGHIJKLMNOPQRSTUVWXYZabcdefghijklmnopqrstuvwxyz0123456789''"

text \<open>A failing random source leaves \<open>idx\<close> nil, and reading it panics.\<close>

fun randomAlphanumeric :: "'w adminDeps \<Rightarrow> nat \<Rightarrow> ('w daemon, string) act" where
  "randomAlphanumeric A 0 = ret []"
| "randomAlphanumeric A (Suc n) =
     bnd (orElse (onWorld (ad_randInt A (int (length alphanumerics)))) (\<lambda>_. fail (EAbort ''nil *big.Int''))) (\<lambda>idx.
     bnd (randomAlphanumeric A n) (\<lambda>s. ret (alphanumerics ! nat idx # s)))"

text \<open>\<open>newAdminUUID\<close> ignores an error of the random source.\<close>

definition newAdminUUID :: "'w adminDeps \<Rightarrow> ('w daemon, string) act" where
  "newAdminUUID A =
     bnd (attempt (onWorld (env_rand (svc_env (ad_svc A)) 16))) (\<lambda>b.
       ret (uuidText (case b of Inr b \<Rightarrow> b | Inl _ \<Rightarrow> replicate 16 (CHR 0x00))))"

definition encode :: "'w adminDeps \<Rightarrow> string \<Rightarrow> ('w daemon, gerr + string) act" where
  "encode A plaintext = attempt (onWorld (encodePassword (ad_cipher A) (svc_env (ad_svc A)) plaintext (ad_EncryptionKey A)))"

definition bcryptGenerate :: "'w adminDeps \<Rightarrow> string \<Rightarrow> ('w daemon, gerr + string) act" where
  "bcryptGenerate A password = attempt (onWorld (ad_bcryptGenerate A password))"

text \<open>\<open>strconv.ParseInt(s, 10, 64)\<close> with its error ignored: 0 for what is no number, the nearest limit beyond 64 bits.\<close>

definition parseInt10 :: "string \<Rightarrow> int" where
  "parseInt10 s =
     (let neg = hasPrefix s ''-''; digits = (if neg \<or> hasPrefix s ''+'' then tl s else s);
          n = decimal digits; v = (if neg then - n else n) in
      if digits = [] \<or> \<not> list_all isDigit digits then 0
      else max (- (2 ^ 63)) (min (2 ^ 63 - 1) v))"

definition quotaBytes :: "string \<Rightarrow> int" where
  "quotaBytes quotaGB = i64 (parseInt10 quotaGB * 2 ^ 30)"

section \<open>Sessions\<close>

definition adminSession :: "'w adminDeps \<Rightarrow> uiRequest \<Rightarrow> ('w site, adminPage uiResponse) act \<Rightarrow> ('w site, adminPage uiResponse) act" where
  "adminSession A r next =
     bnd (adminValid (ad_svc A) (ur_req r)) (\<lambda>ok.
       if \<not> ok then ret (adminRedirect ''/admin/login'') else next)"

definition adminPostLogin :: "'w adminDeps \<Rightarrow> uiRequest \<Rightarrow> ('w site, adminPage uiResponse) act" where
  "adminPostLogin A r =
     (case ur_form r of
        Inl _ \<Rightarrow> ret (adminError ''bad form'' 400)
      | Inr form \<Rightarrow>
          if formValue form ''username'' \<noteq> ad_AdminUsername A then ret (adminError ''Unauthorized'' 401)
          else if \<not> ad_bcryptCompare A (ad_AdminPasswordHash A) (formValue form ''password'')
          then ret (adminError ''Unauthorized'' 401)
          else bnd (adminCreate (ad_svc A)) (\<lambda>c. ret (adminRedirect ''/admin/''\<lparr>up_Cookies := [c]\<rparr>)))"

definition adminPostLogout :: "uiRequest \<Rightarrow> ('w site, adminPage uiResponse) act" where
  "adminPostLogout r = bnd (adminDelete (ur_req r)) (\<lambda>c. ret (adminRedirect ''/admin/login''\<lparr>up_Cookies := [c]\<rparr>))"

section \<open>The dashboard\<close>

text \<open>What a bucket database stores of one object: its file, or its chunks.\<close>

definition addPhysical :: "bucketDB \<Rightarrow> (string \<times> int) list \<Rightarrow> Object \<Rightarrow> (string \<times> int) list" where
  "addPhysical b unique obj =
     (let obj = (case GetObject b (obj_Key obj) of Inr full \<Rightarrow> full | Inl _ \<Rightarrow> obj) in
      if obj_Chunks obj = [] then AList.update (obj_HashPath obj) (obj_SizeBytes obj) unique
      else foldl (\<lambda>u c. AList.update (chk_Path c) (chk_Size c) u) unique (obj_Chunks obj))"

text \<open>Reading the record of an object may fail too; then the listed one is taken, without its chunks.\<close>

fun physicalObjects :: "'w adminDeps \<Rightarrow> bucketDB \<Rightarrow> Object list \<Rightarrow> (string \<times> int) list \<Rightarrow> ('w daemon, (string \<times> int) list) act" where
  "physicalObjects A b [] unique = ret unique"
| "physicalObjects A b (obj # objs) unique =
     bnd (attempt (os (ad_svc A) ''bdb.GetObject'')) (\<lambda>r.
       physicalObjects A b objs (case r of
         Inr _ \<Rightarrow> addPhysical b unique obj
       | Inl _ \<Rightarrow> addPhysical emptyBucketDB unique obj))"

fun actualUsage :: "'w adminDeps \<Rightarrow> string \<Rightarrow> Bucket list \<Rightarrow> (string \<times> int) list \<Rightarrow> ('w daemon, (string \<times> int) list) act" where
  "actualUsage A locationID [] unique = ret unique"
| "actualUsage A locationID (b # bs) unique =
     (if bkt_WebDAVLocationID b \<noteq> locationID then actualUsage A locationID bs unique
      else
        bnd (attempt (os (ad_svc A) ''stat'')) (\<lambda>st.
        bnd (gets (\<lambda>s. d_bdb s (bkt_ID b))) (\<lambda>db.
        if (case st of Inl _ \<Rightarrow> True | Inr _ \<Rightarrow> db = None) then actualUsage A locationID bs unique
        else bnd (attempt (os (ad_svc A) ''OpenBucketDB'')) (\<lambda>op.
          case (op, db) of
            (Inr _, Some (Inr bdb)) \<Rightarrow>
              bnd (attempt (thn (os (ad_svc A) ''bdb.ListObjects'') (liftE (ListObjects bdb [] [] [] 0)))) (\<lambda>l. case l of
                Inl _ \<Rightarrow> actualUsage A locationID bs unique
              | Inr (objs, _) \<Rightarrow>
                  bnd (physicalObjects A bdb objs unique) (\<lambda>unique'. actualUsage A locationID bs unique'))
          | _ \<Rightarrow> actualUsage A locationID bs unique))))"

definition actualUsageBytes :: "'w adminDeps \<Rightarrow> string \<Rightarrow> Bucket list \<Rightarrow> ('w daemon, int) act" where
  "actualUsageBytes A locationID bs =
     (if svc_cacheDir (ad_svc A) = [] then ret 0
      else bnd (actualUsage A locationID bs []) (\<lambda>unique. ret (foldl (\<lambda>n (_, size). i64 (n + size)) 0 unique)))"

definition usageOf :: "'w adminDeps \<Rightarrow> string \<Rightarrow> ('w daemon, int) act" where
  "usageOf A locationID =
     bnd (attempt (thn (os (ad_svc A) ''stats.GetTotalUsage'') (\<lambda>s. (GetTotalUsage (d_stats s) locationID, s)))) (\<lambda>r.
       ret (case r of Inl _ \<Rightarrow> 0 | Inr n \<Rightarrow> n))"

fun locStats :: "'w adminDeps \<Rightarrow> Bucket list \<Rightarrow> Location list \<Rightarrow> ('w daemon, locStat list) act" where
  "locStats A bs [] = ret []"
| "locStats A bs (loc # locs) =
     bnd (usageOf A (loc_ID loc)) (\<lambda>usage.
     bnd (actualUsageBytes A (loc_ID loc) bs) (\<lambda>actual.
     let saved = i64 (usage - actual) in
     bnd (locStats A bs locs) (\<lambda>rest.
       ret (\<lparr>ls_Location = loc, ls_UsageBytes = usage, ls_ActualBytes = actual,
             ls_SavedBytes = (if saved < 0 then 0 else saved)\<rparr> # rest))))"

definition handleDashboard :: "'w adminDeps \<Rightarrow> 'w adminAct" where
  "handleDashboard A =
     bnd (asks A ''structure.ListLocations'' ListLocations) (\<lambda>locs.
     bnd (asks A ''structure.ListUsers'' ListUsers) (\<lambda>us.
     bnd (asks A ''structure.ListBuckets'' ListBuckets) (\<lambda>bs.
     bnd (locStats A bs locs) (\<lambda>stats.
       ret (page 200 (Dashboard stats (int (length us)) (int (length bs)) (int (length locs))))))))"

section \<open>Locations\<close>

definition handleListLocations :: "'w adminDeps \<Rightarrow> 'w adminAct" where
  "handleListLocations A = bnd (asks A ''structure.ListLocations'' ListLocations) (\<lambda>locs. ret (page 200 (LocationsPage locs)))"

definition handleGetNewLocation :: "'w adminAct" where
  "handleGetNewLocation = ret (page 200 LocationNew)"

text \<open>An empty password in the form of an existing location stands for the stored one.\<close>

definition testPassword :: "'w adminDeps \<Rightarrow> string \<Rightarrow> string \<Rightarrow> ('w daemon, string) act" where
  "testPassword A password locationID =
     (if password = [] \<and> locationID \<noteq> [] \<and> ad_EncryptionKey A \<noteq> []
      then bnd (ask A ''structure.GetLocation'' (\<lambda>d. GetLocation d locationID)) (\<lambda>r.
             ret (case r of
               Inr loc \<Rightarrow>
                 if loc_PasswordEnc loc \<noteq> []
                 then (case DecryptPassword (ad_cipher A) (loc_PasswordEnc loc) (ad_EncryptionKey A) of
                         Inr decrypted \<Rightarrow> decrypted | Inl _ \<Rightarrow> password)
                 else password
             | Inl _ \<Rightarrow> password))
      else ret password)"

definition handleTestLocation :: "'w adminDeps \<Rightarrow> uiRequest \<Rightarrow> 'w adminAct" where
  "handleTestLocation A r =
     (case ur_form r of
        Inl _ \<Rightarrow> ret (adminError ''bad form'' 400)
      | Inr form \<Rightarrow>
          bnd (testPassword A (formValue form ''password'') (formValue form ''location_id'')) (\<lambda>password.
          if formValue form ''url'' = [] then ret (adminError ''WebDAV URL is required'' 400)
          else
            bnd (onWorld (ad_newClient A (formValue form ''url'') (formValue form ''username'') password)) (\<lambda>c.
            bnd (attempt (onClient c cl_Ping)) (\<lambda>x. ret (page 200 (ConnectionTest (case x of Inl e \<Rightarrow> Some e | Inr _ \<Rightarrow> None)))))))"

definition handlePostNewLocation :: "'w adminDeps \<Rightarrow> uiRequest \<Rightarrow> 'w adminAct" where
  "handlePostNewLocation A r =
     (case ur_form r of
        Inl _ \<Rightarrow> ret (adminError ''bad form'' 400)
      | Inr form \<Rightarrow>
          bnd (encode A (formValue form ''password'')) (\<lambda>enc. case enc of
            Inl _ \<Rightarrow> ret (adminError ''password encryption failed'' 500)
          | Inr passEnc \<Rightarrow>
              bnd (newAdminUUID A) (\<lambda>ident.
              bnd (timeNow (ad_svc A)) (\<lambda>now.
              bnd (change A ''structure.AddLocation'' (\<lambda>d. AddLocation d
                     \<lparr>loc_ID = ident, loc_URL = formValue form ''url'', loc_Username = formValue form ''username'',
                      loc_PasswordEnc = passEnc, loc_DisplayName = formValue form ''display_name'',
                      loc_QuotaBytes = quotaBytes (formValue form ''quota_gb''),
                      loc_BaseDir = NormalizeBaseDir (formValue form ''base_dir''), loc_CreatedAt = now\<rparr>)) (\<lambda>x. case x of
                Inl e \<Rightarrow> ret (adminError (errText e) 500)
              | Inr _ \<Rightarrow>
                  thn (runFlush (ad_RefreshWebDAV A))
                 (case ad_SyncEngine A of
                    None \<Rightarrow> ret (adminRedirect ''/admin/locations'')
                  | Some sync \<Rightarrow> bnd (attempt (sync ident)) (\<lambda>y. ret (case y of
                      Inl e \<Rightarrow> adminError (''sync failed: '' @ errText e) 500
                    | Inr _ \<Rightarrow> adminRedirect ''/admin/locations''))))))))"

definition handleLocationDetail :: "'w adminDeps \<Rightarrow> string \<Rightarrow> 'w adminAct" where
  "handleLocationDetail A ident =
     bnd (ask A ''structure.GetLocation'' (\<lambda>d. GetLocation d ident)) (\<lambda>x. case x of
       Inl _ \<Rightarrow> ret notFound
     | Inr loc \<Rightarrow> bnd (usageOf A ident) (\<lambda>usage. ret (page 200 (LocationDetail loc usage))))"

definition handleEditLocation :: "'w adminDeps \<Rightarrow> string \<Rightarrow> 'w adminAct" where
  "handleEditLocation A ident =
     bnd (ask A ''structure.GetLocation'' (\<lambda>d. GetLocation d ident)) (\<lambda>x. ret (case x of
       Inl _ \<Rightarrow> notFound | Inr loc \<Rightarrow> page 200 (LocationEdit loc)))"

definition handlePostEditLocation :: "'w adminDeps \<Rightarrow> string \<Rightarrow> uiRequest \<Rightarrow> 'w adminAct" where
  "handlePostEditLocation A ident r =
     bnd (ask A ''structure.GetLocation'' (\<lambda>d. GetLocation d ident)) (\<lambda>x. case x of
       Inl _ \<Rightarrow> ret notFound
     | Inr loc \<Rightarrow>
         (case ur_form r of
            Inl _ \<Rightarrow> ret (adminError ''bad form'' 400)
          | Inr form \<Rightarrow>
              (let password = formValue form ''password'' in
               bnd (if password \<noteq> [] then encode A password else ret (Inr (loc_PasswordEnc loc))) (\<lambda>enc. case enc of
                 Inl _ \<Rightarrow> ret (adminError ''password encryption failed'' 500)
               | Inr passwordEnc \<Rightarrow>
                   bnd (change A ''structure.UpdateLocation'' (\<lambda>d. Inr (UpdateLocation d (loc\<lparr>loc_URL := formValue form ''url'',
                          loc_Username := formValue form ''username'', loc_PasswordEnc := passwordEnc,
                          loc_DisplayName := formValue form ''display_name'',
                          loc_QuotaBytes := quotaBytes (formValue form ''quota_gb''),
                          loc_BaseDir := NormalizeBaseDir (formValue form ''base_dir'')\<rparr>)))) (\<lambda>y. case y of
                     Inl e \<Rightarrow> ret (adminError (errText e) 500)
                   | Inr _ \<Rightarrow> thn (runFlush (ad_RefreshWebDAV A)) (ret (adminRedirect (''/admin/locations/'' @ ident))))))))"

definition handleDeleteLocation :: "'w adminDeps \<Rightarrow> string \<Rightarrow> 'w adminAct" where
  "handleDeleteLocation A ident =
     bnd (change A ''structure.DeleteLocation'' (\<lambda>d. DeleteLocation d ident)) (\<lambda>x. case x of
       Inl e \<Rightarrow> ret (adminError (errText e) 500)
     | Inr _ \<Rightarrow> thn (runFlush (ad_RefreshWebDAV A)) (ret (adminRedirect ''/admin/locations'')))"

definition handleLocationSync :: "'w adminDeps \<Rightarrow> string \<Rightarrow> 'w adminAct" where
  "handleLocationSync A ident =
     (case ad_SyncEngine A of
        None \<Rightarrow> ret (adminError ''sync engine not configured'' 503)
      | Some sync \<Rightarrow> bnd (attempt (sync ident)) (\<lambda>x. ret (case x of
          Inl e \<Rightarrow> adminError (''sync failed: '' @ errText e) 500
        | Inr _ \<Rightarrow> page 200 (AdminText ''Sync complete''))))"

section \<open>Users\<close>

definition handleListUsers :: "'w adminDeps \<Rightarrow> 'w adminAct" where
  "handleListUsers A =
     bnd (asks A ''structure.ListUsers'' ListUsers) (\<lambda>us.
     bnd (asks A ''structure.ListLocations'' ListLocations) (\<lambda>locs.
       ret (page 200 (UsersPage us (locs \<noteq> [])))))"

definition handleGetNewUser :: "'w adminDeps \<Rightarrow> 'w adminAct" where
  "handleGetNewUser A =
     bnd (asks A ''structure.ListLocations'' ListLocations) (\<lambda>locs. ret (page 200 (UserNew (locs \<noteq> []) [])))"

definition handlePostNewUser :: "'w adminDeps \<Rightarrow> uiRequest \<Rightarrow> 'w adminAct" where
  "handlePostNewUser A r =
     (case ur_form r of
        Inl _ \<Rightarrow> ret (adminError ''bad form'' 400)
      | Inr form \<Rightarrow>
          bnd (asks A ''structure.ListLocations'' ListLocations) (\<lambda>locs.
          if locs = [] then ret (page 200 (UserNew False ''Add a WebDAV location before creating users.''))
          else
            bnd (randomAlphanumeric A 20) (\<lambda>accessKey.
            bnd (randomAlphanumeric A 40) (\<lambda>secretKey.
            bnd (randomAlphanumeric A 20) (\<lambda>webPassword.
            bnd (bcryptGenerate A secretKey) (\<lambda>h. case h of Inl _ \<Rightarrow> ret (adminError ''key generation failed'' 500) | Inr hash \<Rightarrow>
            bnd (bcryptGenerate A webPassword) (\<lambda>wh. case wh of Inl _ \<Rightarrow> ret (adminError ''password generation failed'' 500) | Inr webHash \<Rightarrow>
            bnd (encode A secretKey) (\<lambda>e. case e of Inl _ \<Rightarrow> ret (adminError ''secret key encryption failed'' 500) | Inr secretKeyEnc \<Rightarrow>
            bnd (encode A webPassword) (\<lambda>we. case we of Inl _ \<Rightarrow> ret (adminError ''password encryption failed'' 500) | Inr webPasswordEnc \<Rightarrow>
            bnd (newAdminUUID A) (\<lambda>ident.
            bnd (timeNow (ad_svc A)) (\<lambda>now.
            let user = \<lparr>usr_ID = ident, usr_AccessKey = accessKey, usr_SecretKeyHash = hash, usr_SecretKeyEnc = secretKeyEnc,
                        usr_WebPasswordHash = webHash, usr_WebPasswordEnc = webPasswordEnc,
                        usr_DisplayName = formValue form ''display_name'', usr_Enabled = True, usr_CreatedAt = now\<rparr> in
            bnd (change A ''structure.AddUser'' (\<lambda>d. AddUser d user)) (\<lambda>x. case x of
              Inl err \<Rightarrow> ret (adminError (errText err) 500)
            | Inr _ \<Rightarrow>
                thn (runFlush (ad_FlushStructure A))
                  (ret (page 200 (UserCreated user accessKey secretKey webPassword ''User Created''
                     ''Save these credentials - the secret key and web password are shown only once.'')))))))))))))))"

definition handleUserDetail :: "'w adminDeps \<Rightarrow> string \<Rightarrow> 'w adminAct" where
  "handleUserDetail A ident =
     bnd (ask A ''structure.GetUser'' (\<lambda>d. GetUser d ident)) (\<lambda>x. case x of
       Inl _ \<Rightarrow> ret notFound
     | Inr user \<Rightarrow> bnd (asks A ''structure.ListBucketsByUser'' (\<lambda>d. ListBucketsByUser d ident)) (\<lambda>bs.
         ret (page 200 (UserDetail user bs))))"

definition handleEditUser :: "'w adminDeps \<Rightarrow> string \<Rightarrow> 'w adminAct" where
  "handleEditUser A ident =
     bnd (ask A ''structure.GetUser'' (\<lambda>d. GetUser d ident)) (\<lambda>x. ret (case x of
       Inl _ \<Rightarrow> notFound | Inr user \<Rightarrow> page 200 (UserEdit user)))"

definition handlePostEditUser :: "'w adminDeps \<Rightarrow> string \<Rightarrow> uiRequest \<Rightarrow> 'w adminAct" where
  "handlePostEditUser A ident r =
     bnd (ask A ''structure.GetUser'' (\<lambda>d. GetUser d ident)) (\<lambda>x. case x of
       Inl _ \<Rightarrow> ret notFound
     | Inr user \<Rightarrow>
         (case ur_form r of
            Inl _ \<Rightarrow> ret (adminError ''bad form'' 400)
          | Inr form \<Rightarrow>
              bnd (change A ''structure.UpdateUser'' (\<lambda>d. UpdateUser d (user\<lparr>usr_DisplayName := formValue form ''display_name''\<rparr>))) (\<lambda>y.
              case y of
                Inl e \<Rightarrow> ret (adminError (errText e) 500)
              | Inr _ \<Rightarrow> thn (runFlush (ad_FlushStructure A)) (ret (adminRedirect (''/admin/users/'' @ ident))))))"

definition handleDeleteUser :: "'w adminDeps \<Rightarrow> string \<Rightarrow> 'w adminAct" where
  "handleDeleteUser A ident =
     bnd (change A ''structure.DeleteUser'' (\<lambda>d. DeleteUser d ident)) (\<lambda>x. case x of
       Inl e \<Rightarrow> ret (adminError (errText e) 500)
     | Inr _ \<Rightarrow> thn (runFlush (ad_FlushStructure A)) (ret (adminRedirect ''/admin/users'')))"

definition handleUserToggle :: "'w adminDeps \<Rightarrow> string \<Rightarrow> 'w adminAct" where
  "handleUserToggle A ident =
     bnd (ask A ''structure.GetUser'' (\<lambda>d. GetUser d ident)) (\<lambda>x. case x of
       Inl _ \<Rightarrow> ret notFound
     | Inr user \<Rightarrow>
         bnd (change A ''structure.SetUserEnabled'' (\<lambda>d. Inr (SetUserEnabled d ident (\<not> usr_Enabled user)))) (\<lambda>y. ret (case y of
           Inl e \<Rightarrow> adminError (errText e) 500
         | Inr _ \<Rightarrow> adminRedirect (''/admin/users/'' @ ident))))"

definition handleRegenerateSecret :: "'w adminDeps \<Rightarrow> string \<Rightarrow> 'w adminAct" where
  "handleRegenerateSecret A ident =
     bnd (ask A ''structure.GetUser'' (\<lambda>d. GetUser d ident)) (\<lambda>x. case x of
       Inl _ \<Rightarrow> ret notFound
     | Inr user \<Rightarrow>
         bnd (randomAlphanumeric A 40) (\<lambda>secretKey.
         bnd (bcryptGenerate A secretKey) (\<lambda>h. case h of Inl _ \<Rightarrow> ret (adminError ''key generation failed'' 500) | Inr hash \<Rightarrow>
         bnd (encode A secretKey) (\<lambda>e. case e of Inl _ \<Rightarrow> ret (adminError ''secret key encryption failed'' 500) | Inr secretKeyEnc \<Rightarrow>
         let user = user\<lparr>usr_SecretKeyHash := hash, usr_SecretKeyEnc := secretKeyEnc\<rparr> in
         bnd (change A ''structure.UpdateUser'' (\<lambda>d. UpdateUser d user)) (\<lambda>y. ret (case y of
           Inl err \<Rightarrow> adminError (errText err) 500
         | Inr _ \<Rightarrow> page 200 (UserCreated user (usr_AccessKey user) secretKey [] ''Secret Key Regenerated'' [])))))))"

definition handleResetWebPassword :: "'w adminDeps \<Rightarrow> string \<Rightarrow> 'w adminAct" where
  "handleResetWebPassword A ident =
     bnd (ask A ''structure.GetUser'' (\<lambda>d. GetUser d ident)) (\<lambda>x. case x of
       Inl _ \<Rightarrow> ret notFound
     | Inr user \<Rightarrow>
         bnd (randomAlphanumeric A 20) (\<lambda>webPassword.
         bnd (bcryptGenerate A webPassword) (\<lambda>h. case h of Inl _ \<Rightarrow> ret (adminError ''password generation failed'' 500) | Inr hash \<Rightarrow>
         bnd (encode A webPassword) (\<lambda>e. case e of Inl _ \<Rightarrow> ret (adminError ''password encryption failed'' 500) | Inr webPasswordEnc \<Rightarrow>
         let user = user\<lparr>usr_WebPasswordHash := hash, usr_WebPasswordEnc := webPasswordEnc\<rparr> in
         bnd (change A ''structure.SetUserWebPasswordAndEnc''
                (\<lambda>d. Inr (SetUserWebPasswordAndEnc d ident (usr_WebPasswordHash user) (usr_WebPasswordEnc user)))) (\<lambda>y. case y of
           Inl err \<Rightarrow> ret (adminError (errText err) 500)
         | Inr _ \<Rightarrow>
             thn (runFlush (ad_FlushStructure A))
               (ret (page 200 (UserCreated user (usr_AccessKey user) [] webPassword ''Web Password Reset''
                  ''Save this web password - it is shown only once.''))))))))"

section \<open>Buckets\<close>

definition adminListBuckets :: "'w adminDeps \<Rightarrow> 'w adminAct" where
  "adminListBuckets A =
     bnd (asks A ''structure.ListBuckets'' ListBuckets) (\<lambda>bs.
     bnd (asks A ''structure.ListUsers'' ListUsers) (\<lambda>us.
     bnd (asks A ''structure.ListLocations'' ListLocations) (\<lambda>locs.
       ret (page 200 (AdminBuckets bs (foldl (\<lambda>m u. m(usr_ID u \<mapsto> usr_DisplayName u)) Map.empty us) (locs \<noteq> []))))))"

definition handleGetNewBucket :: "'w adminDeps \<Rightarrow> 'w adminAct" where
  "handleGetNewBucket A =
     bnd (asks A ''structure.ListUsers'' ListUsers) (\<lambda>us.
     bnd (asks A ''structure.ListLocations'' ListLocations) (\<lambda>locs.
       ret (page 200 (BucketNew us locs))))"

definition handlePostNewBucket :: "'w adminDeps \<Rightarrow> uiRequest \<Rightarrow> 'w adminAct" where
  "handlePostNewBucket A r =
     (case ur_form r of
        Inl _ \<Rightarrow> ret (adminError ''bad form'' 400)
      | Inr form \<Rightarrow>
          bnd (if formValue form ''location_id'' \<noteq> [] then ret (formValue form ''location_id'')
               else bnd (asks A ''structure.ListLocations'' ListLocations) (\<lambda>locs.
                      ret (case locs of [] \<Rightarrow> [] | loc # _ \<Rightarrow> loc_ID loc))) (\<lambda>locID.
          if locID = [] then ret (adminError ''no webdav location configured'' 400)
          else bnd (attempt (CreateBucket (ad_svc A) (ad_FlushStructure A) (formValue form ''name'')
                       (formValue form ''owner_user_id'') locID)) (\<lambda>x. ret (case x of
                 Inl e \<Rightarrow> adminError (errText e) 500
               | Inr _ \<Rightarrow> adminRedirect ''/admin/buckets''))))"

definition handleBucketDetail :: "'w adminDeps \<Rightarrow> string \<Rightarrow> 'w adminAct" where
  "handleBucketDetail A name =
     bnd (ask A ''structure.GetBucket'' (\<lambda>d. GetBucket d name)) (\<lambda>x. ret (case x of
       Inl _ \<Rightarrow> notFound | Inr b \<Rightarrow> page 200 (BucketDetail b)))"

definition adminDeleteBucket :: "'w adminDeps \<Rightarrow> string \<Rightarrow> 'w adminAct" where
  "adminDeleteBucket A name =
     bnd (attempt (DeleteBucket (ad_svc A) (ad_FlushStructure A) name)) (\<lambda>x. ret (case x of
       Inl e \<Rightarrow> adminError (errText e) 500
     | Inr _ \<Rightarrow> adminRedirect ''/admin/buckets''))"

section \<open>Routing\<close>

text \<open>The pages below \<open>/admin/\<close> that need a session: the multiplexer's patterns, then the dashboard for the rest; the static files are not modelled.\<close>

definition adminDispatch :: "'w adminDeps \<Rightarrow> uiRequest \<Rightarrow> string list \<Rightarrow> 'w adminAct" where
  "adminDispatch A r segs =
     (let m = rq_Method (ur_req r); isGet = (m = ''GET'' \<or> m = ''HEAD''); isPost = (m = ''POST'') in
      case segs of
        [k] \<Rightarrow>
          if k = ''locations'' \<and> isGet then handleListLocations A
          else if k = ''users'' \<and> isGet then handleListUsers A
          else if k = ''buckets'' \<and> isGet then adminListBuckets A
          else handleDashboard A
      | [k, x] \<Rightarrow>
          if k = ''locations'' \<and> x = ''new'' \<and> isGet then handleGetNewLocation
          else if k = ''locations'' \<and> x = ''new'' \<and> isPost then handlePostNewLocation A r
          else if k = ''locations'' \<and> x = ''test'' \<and> isPost then handleTestLocation A r
          else if k = ''locations'' \<and> x \<noteq> [] \<and> isGet then handleLocationDetail A x
          else if k = ''users'' \<and> x = ''new'' \<and> isGet then handleGetNewUser A
          else if k = ''users'' \<and> x = ''new'' \<and> isPost then handlePostNewUser A r
          else if k = ''users'' \<and> x \<noteq> [] \<and> isGet then handleUserDetail A x
          else if k = ''buckets'' \<and> x = ''new'' \<and> isGet then handleGetNewBucket A
          else if k = ''buckets'' \<and> x = ''new'' \<and> isPost then handlePostNewBucket A r
          else if k = ''buckets'' \<and> x \<noteq> [] \<and> isGet then handleBucketDetail A x
          else handleDashboard A
      | [k, x, op] \<Rightarrow>
          if x = [] then handleDashboard A
          else if k = ''locations'' \<and> op = ''edit'' \<and> isGet then handleEditLocation A x
          else if k = ''locations'' \<and> op = ''edit'' \<and> isPost then handlePostEditLocation A x r
          else if k = ''locations'' \<and> op = ''delete'' \<and> isPost then handleDeleteLocation A x
          else if k = ''locations'' \<and> op = ''sync'' \<and> isPost then handleLocationSync A x
          else if k = ''users'' \<and> op = ''edit'' \<and> isGet then handleEditUser A x
          else if k = ''users'' \<and> op = ''edit'' \<and> isPost then handlePostEditUser A x r
          else if k = ''users'' \<and> op = ''delete'' \<and> isPost then handleDeleteUser A x
          else if k = ''users'' \<and> op = ''toggle'' \<and> isPost then handleUserToggle A x
          else if k = ''users'' \<and> op = ''regenerate'' \<and> isPost then handleRegenerateSecret A x
          else if k = ''users'' \<and> op = ''reset-password'' \<and> isPost then handleResetWebPassword A x
          else if k = ''buckets'' \<and> op = ''delete'' \<and> isPost then adminDeleteBucket A x
          else handleDashboard A
      | _ \<Rightarrow> handleDashboard A)"

definition adminRoute :: "'w adminDeps \<Rightarrow> uiRequest \<Rightarrow> ('w site, adminPage uiResponse) act" where
  "adminRoute A r =
     (if rq_Method (ur_req r) \<noteq> ''CONNECT'' \<and> cleanPath (rq_EscapedPath (ur_req r)) \<noteq> rq_EscapedPath (ur_req r)
      then ret (page 301 (AdminRedirect (cleanPath (rq_EscapedPath (ur_req r)))))
      else if rq_Method (ur_req r) \<noteq> ''CONNECT'' \<and> pathSegments (rq_EscapedPath (ur_req r)) = [''admin'']
      then ret (page 301 (AdminRedirect ''/admin/''))
      else
        (let m = rq_Method (ur_req r);
             segs = tl (pathSegments (rq_EscapedPath (ur_req r))) in
         if segs = [''login''] \<and> (m = ''GET'' \<or> m = ''HEAD'') then ret (page 200 AdminLogin)
         else if segs = [''login''] \<and> m = ''POST'' then adminPostLogin A r
         else if segs = [''logout''] \<and> m = ''POST'' then adminPostLogout r
         else adminSession A r (onDaemon (adminDispatch A r segs))))"

end
