(* ===== verification/Provision.thy ===== *)
theory Provision
  imports Sync Crypto BucketService SigV4
begin

text \<open>
  \<open>internal/provisioning\<close>: the file that describes users, locations and buckets, its validation, its
  application when a daemon starts for the first time, and the dump of a running configuration into
  such a file. Parsing and printing YAML, and \<open>bcrypt\<close>, are parameters.
\<close>

section \<open>The document\<close>

record BucketSpec =
  bs_Name :: string
  bs_Owner :: string

record UserSpec =
  us_Slug :: string
  us_DisplayName :: string
  us_AccessKey :: string
  us_SecretKey :: string
  us_WebPassword :: string
  us_Enabled :: "bool option"

record LocationSpec =
  lp_Slug :: string
  lp_DisplayName :: string
  lp_URL :: string
  lp_Username :: string
  lp_Password :: string
  lp_QuotaGB :: int
  lp_BaseDir :: string
  lp_Buckets :: "BucketSpec list"

record Document =
  doc_Users :: "UserSpec list"
  doc_Locations :: "LocationSpec list"

definition Normalize :: "Document \<Rightarrow> Document" where
  "Normalize d = d\<lparr>
     doc_Users := map (\<lambda>u. if us_Enabled u = None then u\<lparr>us_Enabled := Some True\<rparr> else u) (doc_Users d),
     doc_Locations := map (\<lambda>l. l\<lparr>lp_BaseDir := NormalizeBaseDir (lp_BaseDir l)\<rparr>) (doc_Locations d)\<rparr>"

section \<open>Slugs\<close>

text \<open>
  \<open>strings.ToLower\<close> as far as it produces letters the pattern keeps: the ASCII letters, the Kelvin sign
  and the capital I with a dot.
\<close>

fun lowerSlug :: "string \<Rightarrow> string" where
  "lowerSlug [] = []"
| "lowerSlug (c # s) =
     (if c = CHR 0xE2 \<and> take 2 s = [CHR 0x84, CHR 0xAA] then CHR ''k'' # lowerSlug (drop 2 s)
      else if c = CHR 0xC4 \<and> take 1 s = [CHR 0xB0] then CHR ''i'' # lowerSlug (drop 1 s)
      else lowerChar c # lowerSlug s)"

text \<open>Every run of characters outside \<open>[a-z0-9]\<close> becomes one hyphen.\<close>

fun hyphenate :: "bool \<Rightarrow> string \<Rightarrow> string" where
  "hyphenate inRun [] = []"
| "hyphenate inRun (c # s) =
     (if nameChar c then c # hyphenate False s
      else if inRun then hyphenate True s else CHR ''-'' # hyphenate True s)"

definition slugify :: "string \<Rightarrow> string" where
  "slugify s =
     (let t = trimSet (hyphenate False (lowerSlug (trimSpace s))) ''-'' in if t = [] then ''item'' else t)"

definition uniqueSlug :: "string \<Rightarrow> (string \<rightharpoonup> int) \<Rightarrow> string \<times> (string \<rightharpoonup> int)" where
  "uniqueSlug base seen =
     (case seen base of
        None \<Rightarrow> (base, seen(base \<mapsto> 1))
      | Some n \<Rightarrow> (base @ ''-'' @ fmtD (n + 1), seen(base \<mapsto> n + 1)))"

section \<open>Validation\<close>

definition blank :: "string \<Rightarrow> bool" where
  "blank s \<longleftrightarrow> trimSpace s = []"

fun validateUsers :: "UserSpec list \<Rightarrow> string set \<Rightarrow> string set \<Rightarrow> gerr + string set" where
  "validateUsers [] slugs keys = Inr slugs"
| "validateUsers (u # us) slugs keys =
     (let slug = trimSpace (us_Slug u); key = trimSpace (us_AccessKey u) in
      if slug = [] then Inl (ENew ''users.slug is required'')
      else if blank (us_DisplayName u) then Inl (ENew ''users.display_name is required'')
      else if key = [] then Inl (ENew ''users.access_key is required'')
      else if blank (us_SecretKey u) then Inl (ENew ''users.secret_key is required'')
      else if blank (us_WebPassword u) then Inl (ENew ''users.web_password is required'')
      else if slug \<in> slugs then Inl (ENew (''duplicate user slug '' @ fmtQ slug))
      else if key \<in> keys then Inl (ENew (''duplicate access key '' @ fmtQ key))
      else validateUsers us (insert slug slugs) (insert key keys))"

fun validateBuckets :: "BucketSpec list \<Rightarrow> string set \<Rightarrow> string set \<Rightarrow> gerr + string set" where
  "validateBuckets [] owners names = Inr names"
| "validateBuckets (b # bs) owners names =
     (let name = trimSpace (bs_Name b); owner = trimSpace (bs_Owner b) in
      if name = [] then Inl (ENew ''buckets.name is required'')
      else if owner = [] then Inl (ENew ''buckets.owner is required'')
      else if owner \<notin> owners then Inl (ENew (''bucket '' @ fmtQ name @ '' references unknown owner '' @ fmtQ owner))
      else if name \<in> names then Inl (ENew (''duplicate bucket name '' @ fmtQ name))
      else validateBuckets bs owners (insert name names))"

fun validateLocations :: "LocationSpec list \<Rightarrow> string set \<Rightarrow> string set \<Rightarrow> string set \<Rightarrow> gerr + unit" where
  "validateLocations [] owners slugs names = Inr ()"
| "validateLocations (l # ls) owners slugs names =
     (let slug = trimSpace (lp_Slug l) in
      if slug = [] then Inl (ENew ''locations.slug is required'')
      else if blank (lp_DisplayName l) then Inl (ENew ''locations.display_name is required'')
      else if blank (lp_URL l) then Inl (ENew ''locations.url is required'')
      else if blank (lp_Username l) then Inl (ENew ''locations.username is required'')
      else if blank (lp_Password l) then Inl (ENew ''locations.password is required'')
      else if slug \<in> slugs then Inl (ENew (''duplicate location slug '' @ fmtQ slug))
      else case validateBuckets (lp_Buckets l) owners names of
             Inl e \<Rightarrow> Inl e
           | Inr names' \<Rightarrow> validateLocations ls owners (insert slug slugs) names')"

definition Validate :: "Document \<Rightarrow> gerr + unit" where
  "Validate d =
     (case validateUsers (doc_Users d) {} {} of
        Inl e \<Rightarrow> Inl e
      | Inr userSlugs \<Rightarrow> validateLocations (doc_Locations d) userSlugs {} {})"

section \<open>Applying a file\<close>

text \<open>
  The file and the marker are outside; \<open>ac_statMarker\<close> tells whether the marker exists. \<open>ac_order\<close> is the
  order in which Go happens to visit the map of locations.
\<close>

record 'w applyConfig =
  ac_FilePath :: string
  ac_EncryptionKey :: string
  ac_svc :: "'w svc"
  ac_flush :: "('w daemon \<Rightarrow> 'w daemon) option"
  ac_RefreshWebDAV :: "('w daemon \<Rightarrow> 'w daemon) option"
  ac_SyncEngine :: "'w engine option"
  ac_cipher :: aead
  ac_bcryptGenerate :: "string \<Rightarrow> ('w, string) act"
  ac_readFile :: "string \<Rightarrow> ('w, bytes) act"
  ac_yaml :: "bytes \<Rightarrow> gerr + Document"
  ac_statMarker :: "string \<Rightarrow> ('w, bool) act"
  ac_writeMarker :: "string \<Rightarrow> gotime \<Rightarrow> ('w, unit) act"
  ac_order :: "string list \<Rightarrow> string list"

definition ParseFile :: "'w applyConfig \<Rightarrow> ('w daemon, Document) act" where
  "ParseFile P = bnd (onWorld (ac_readFile P (ac_FilePath P))) (\<lambda>data. liftE (ac_yaml P data))"

definition ProvisioningAllowed :: "'w applyConfig \<Rightarrow> string \<Rightarrow> ('w daemon, unit) act" where
  "ProvisioningAllowed P markerPath =
     bnd (wrapE (wrapAs ''stat marker'') (onWorld (ac_statMarker P markerPath))) (\<lambda>there.
       if there
       then fail (EWrap [] (ESent ErrProvisioningSkipped) ('': marker file already exists at '' @ markerPath))
       else ret ())"

definition encryptFor :: "'w applyConfig \<Rightarrow> string \<Rightarrow> string \<Rightarrow> ('w daemon, string) act" where
  "encryptFor P what text =
     wrapE (wrapAs what) (onWorld (EncryptPassword (ac_cipher P) (svc_env (ac_svc P)) text (ac_EncryptionKey P)))"

fun addLocations :: "'w applyConfig \<Rightarrow> LocationSpec list \<Rightarrow> (string \<rightharpoonup> string) \<Rightarrow> ('w daemon, string \<rightharpoonup> string) act" where
  "addLocations P [] ids = ret ids"
| "addLocations P (spec # specs) ids =
     bnd (encryptFor P (''encrypt location password for '' @ lp_Slug spec) (lp_Password spec)) (\<lambda>passwordEnc.
     bnd (newUUID (ac_svc P)) (\<lambda>ident.
     bnd (timeNow (ac_svc P)) (\<lambda>now.
     thn (wrapE (wrapAs (''add location '' @ lp_Slug spec))
            (changeStructure (ac_svc P) ''structure.AddLocation'' (\<lambda>d. AddLocation d
               \<lparr>loc_ID = ident, loc_URL = lp_URL spec, loc_Username = lp_Username spec, loc_PasswordEnc = passwordEnc,
                loc_DisplayName = lp_DisplayName spec, loc_QuotaBytes = i64 (lp_QuotaGB spec * 2 ^ 30),
                loc_BaseDir = lp_BaseDir spec, loc_CreatedAt = now\<rparr>)))
         (addLocations P specs (ids(lp_Slug spec \<mapsto> ident))))))"

text \<open>A location the remote side knows under another identifier gets that identifier.\<close>

definition adoptID :: "'w applyConfig \<Rightarrow> string \<Rightarrow> string \<Rightarrow> string \<Rightarrow> ('w daemon, unit) act" where
  "adoptID P slug provisionalID remoteID =
     bnd (wrapE (wrapAs (''get provisional location '' @ slug))
            (askStructure (ac_svc P) ''structure.GetLocation'' (\<lambda>d. GetLocation d provisionalID))) (\<lambda>loc.
     thn (wrapE (wrapAs (''delete provisional location '' @ slug))
            (changeStructure (ac_svc P) ''structure.DeleteLocation'' (\<lambda>d. DeleteLocation d provisionalID)))
         (wrapE (wrapAs (''re-add location '' @ slug @ '' with remote id '' @ remoteID))
            (changeStructure (ac_svc P) ''structure.AddLocation'' (\<lambda>d. AddLocation d (loc\<lparr>loc_ID := remoteID\<rparr>)))))"

fun reconcile :: "'w applyConfig \<Rightarrow> 'w engine \<Rightarrow> string list \<Rightarrow> (string \<rightharpoonup> string) \<Rightarrow> ('w daemon, string \<rightharpoonup> string) act" where
  "reconcile P E [] ids = ret ids"
| "reconcile P E (slug # slugs) ids =
     (let provisionalID = the (ids slug) in
      bnd (attempt (FindRemoteLocationID E provisionalID)) (\<lambda>r. case r of
        Inl _ \<Rightarrow> reconcile P E slugs ids
      | Inr (remoteID, found) \<Rightarrow>
          if \<not> found then reconcile P E slugs ids
          else thn (adoptID P slug provisionalID remoteID) (reconcile P E slugs (ids(slug \<mapsto> remoteID)))))"

text \<open>A missing key of a Go map reads as the empty string.\<close>

definition idFor :: "(string \<rightharpoonup> string) \<Rightarrow> string \<Rightarrow> string" where
  "idFor ids slug = (case ids slug of Some i \<Rightarrow> i | None \<Rightarrow> [])"

fun syncLocations :: "'w engine \<Rightarrow> (string \<rightharpoonup> string) \<Rightarrow> LocationSpec list \<Rightarrow> ('w daemon, unit) act" where
  "syncLocations E ids [] = ret ()"
| "syncLocations E ids (spec # specs) =
     thn (attempt (SyncFromWebDAV E (idFor ids (lp_Slug spec)))) (syncLocations E ids specs)"

definition hashFor :: "'w applyConfig \<Rightarrow> string \<Rightarrow> string \<Rightarrow> ('w daemon, string) act" where
  "hashFor P what text = wrapE (wrapAs what) (onWorld (ac_bcryptGenerate P text))"

fun addUsers :: "'w applyConfig \<Rightarrow> UserSpec list \<Rightarrow> (string \<rightharpoonup> string) \<Rightarrow> ('w daemon, string \<rightharpoonup> string) act" where
  "addUsers P [] ids = ret ids"
| "addUsers P (spec # specs) ids =
     bnd (attempt (askStructure (ac_svc P) ''structure.GetUserByAccessKey'' (\<lambda>d. GetUserByAccessKey d (us_AccessKey spec)))) (\<lambda>r.
     case r of
       Inr existing \<Rightarrow> addUsers P specs (ids(us_Slug spec \<mapsto> usr_ID existing))
     | Inl _ \<Rightarrow>
         bnd (hashFor P (''hash user secret key for '' @ us_Slug spec) (us_SecretKey spec)) (\<lambda>secretHash.
         bnd (hashFor P (''hash web password for '' @ us_Slug spec) (us_WebPassword spec)) (\<lambda>webHash.
         bnd (encryptFor P (''encrypt user secret key for '' @ us_Slug spec) (us_SecretKey spec)) (\<lambda>secretEnc.
         bnd (encryptFor P (''encrypt web password for '' @ us_Slug spec) (us_WebPassword spec)) (\<lambda>webEnc.
         bnd (newUUID (ac_svc P)) (\<lambda>ident.
         bnd (case us_Enabled spec of None \<Rightarrow> fail (EAbort ''nil pointer'') | Some enabled \<Rightarrow> ret enabled) (\<lambda>enabled.
         bnd (timeNow (ac_svc P)) (\<lambda>now.
         thn (wrapE (wrapAs (''add user '' @ us_Slug spec))
                (changeStructure (ac_svc P) ''structure.AddUser'' (\<lambda>d. AddUser d
                   \<lparr>usr_ID = ident, usr_AccessKey = us_AccessKey spec, usr_SecretKeyHash = secretHash,
                    usr_SecretKeyEnc = secretEnc, usr_WebPasswordHash = webHash, usr_WebPasswordEnc = webEnc,
                    usr_DisplayName = us_DisplayName spec, usr_Enabled = enabled, usr_CreatedAt = now\<rparr>)))
             (addUsers P specs (ids(us_Slug spec \<mapsto> ident)))))))))))"

fun addBuckets ::
  "'w applyConfig \<Rightarrow> (string \<rightharpoonup> string) \<Rightarrow> string \<Rightarrow> BucketSpec list \<Rightarrow> ('w daemon, unit) act" where
  "addBuckets P userIDs locationID [] = ret ()"
| "addBuckets P userIDs locationID (b # bs) =
     bnd (attempt (askStructure (ac_svc P) ''structure.GetBucket'' (\<lambda>d. GetBucket d (bs_Name b)))) (\<lambda>r.
     thn (case r of
            Inr _ \<Rightarrow> ret ()
          | Inl _ \<Rightarrow> wrapE (wrapAs (''create bucket '' @ bs_Name b))
              (CreateBucket (ac_svc P) (ac_flush P) (bs_Name b) (idFor userIDs (bs_Owner b)) locationID))
         (addBuckets P userIDs locationID bs))"

fun addAllBuckets ::
  "'w applyConfig \<Rightarrow> (string \<rightharpoonup> string) \<Rightarrow> (string \<rightharpoonup> string) \<Rightarrow> LocationSpec list \<Rightarrow> ('w daemon, unit) act" where
  "addAllBuckets P userIDs locationIDs [] = ret ()"
| "addAllBuckets P userIDs locationIDs (l # ls) =
     thn (addBuckets P userIDs (idFor locationIDs (lp_Slug l)) (lp_Buckets l)) (addAllBuckets P userIDs locationIDs ls)"

definition markerOf :: "'w applyConfig \<Rightarrow> string" where
  "markerOf P = pathJoin [svc_cacheDir (ac_svc P), ''provisioned.flag'']"

definition applyDocument :: "'w applyConfig \<Rightarrow> Document \<Rightarrow> ('w daemon, unit) act" where
  "applyDocument P d =
     bnd (addLocations P (doc_Locations d) Map.empty) (\<lambda>ids.
     bnd (case ac_SyncEngine P of
            None \<Rightarrow> ret ids
          | Some E \<Rightarrow> reconcile P E (ac_order P (map lp_Slug (doc_Locations d))) ids) (\<lambda>locationIDs.
     thn (runFlush (ac_RefreshWebDAV P))
    (thn (case ac_SyncEngine P of None \<Rightarrow> ret () | Some E \<Rightarrow> syncLocations E locationIDs (doc_Locations d))
    (bnd (addUsers P (doc_Users d) Map.empty) (\<lambda>userIDs.
     thn (addAllBuckets P userIDs locationIDs (doc_Locations d))
    (bnd (timeNow (ac_svc P)) (\<lambda>now.
     wrapE (wrapAs ''write marker'') (onWorld (ac_writeMarker P (markerOf P) now)))))))))"

definition ApplyStartupProvisioning :: "'w applyConfig \<Rightarrow> ('w daemon, unit) act" where
  "ApplyStartupProvisioning P =
     (if ac_FilePath P = [] then ret ()
      else if svc_cacheDir (ac_svc P) = [] then fail (ENew ''provisioning requires local_cache_dir'')
      else
        bnd (wrapE (wrapAs ''parse provision file'') (ParseFile P)) (\<lambda>parsed.
        let d = Normalize parsed in
        thn (wrapE (wrapAs ''validate provision file'') (liftE (Validate d)))
       (bnd (attempt (ProvisioningAllowed P (markerOf P))) (\<lambda>r. case r of
          Inl e \<Rightarrow> if errIs ErrProvisioningSkipped e then ret () else fail e
        | Inr _ \<Rightarrow> applyDocument P d))))"

section \<open>Dumping a configuration\<close>

record dumpConfig =
  dc_EncryptionKey :: string
  dc_cipher :: aead
  dc_dbError :: "string \<Rightarrow> gerr option"

text \<open>A listing the driver fails is an error; the integer division of Go truncates towards zero.\<close>

definition listed :: "dumpConfig \<Rightarrow> string \<Rightarrow> 'a list \<Rightarrow> gerr + 'a list" where
  "listed C what xs = (case dc_dbError C what of Some e \<Rightarrow> Inl (wrapAs what e) | None \<Rightarrow> Inr xs)"

definition quot64 :: "int \<Rightarrow> int \<Rightarrow> int" where
  "quot64 a b = sgn a * sgn b * (\<bar>a\<bar> div \<bar>b\<bar>)"

fun dumpUsers ::
  "dumpConfig \<Rightarrow> User list \<Rightarrow> (string \<rightharpoonup> int) \<Rightarrow> (string \<rightharpoonup> string) \<Rightarrow> gerr + UserSpec list \<times> (string \<rightharpoonup> string)" where
  "dumpUsers C [] seen slugs = Inr ([], slugs)"
| "dumpUsers C (u # us) seen slugs =
     (case DecryptPassword (dc_cipher C) (usr_SecretKeyEnc u) (dc_EncryptionKey C) of
        Inl e \<Rightarrow> Inl (wrapAs (''decrypt user secret key for '' @ usr_ID u) e)
      | Inr secretKey \<Rightarrow>
          (case DecryptPassword (dc_cipher C) (usr_WebPasswordEnc u) (dc_EncryptionKey C) of
             Inl e \<Rightarrow> Inl (wrapAs (''decrypt user web password for '' @ usr_ID u) e)
           | Inr webPassword \<Rightarrow>
               (case uniqueSlug (slugify (usr_DisplayName u)) seen of (slug, seen') \<Rightarrow>
                  (case dumpUsers C us seen' (slugs(usr_ID u \<mapsto> slug)) of
                     Inl e \<Rightarrow> Inl e
                   | Inr (specs, slugs') \<Rightarrow>
                       Inr (\<lparr>us_Slug = slug, us_DisplayName = usr_DisplayName u, us_AccessKey = usr_AccessKey u,
                             us_SecretKey = secretKey, us_WebPassword = webPassword,
                             us_Enabled = Some (usr_Enabled u)\<rparr> # specs, slugs')))))"

fun dumpLocations ::
  "dumpConfig \<Rightarrow> Location list \<Rightarrow> (string \<rightharpoonup> int) \<Rightarrow> gerr + (string \<times> LocationSpec) list" where
  "dumpLocations C [] seen = Inr []"
| "dumpLocations C (l # ls) seen =
     (case DecryptPassword (dc_cipher C) (loc_PasswordEnc l) (dc_EncryptionKey C) of
        Inl e \<Rightarrow> Inl (wrapAs (''decrypt location password for '' @ loc_ID l) e)
      | Inr password \<Rightarrow>
          (case uniqueSlug (slugify (loc_DisplayName l)) seen of (slug, seen') \<Rightarrow>
             (case dumpLocations C ls seen' of
                Inl e \<Rightarrow> Inl e
              | Inr specs \<Rightarrow>
                  Inr ((loc_ID l, \<lparr>lp_Slug = slug, lp_DisplayName = loc_DisplayName l, lp_URL = loc_URL l,
                        lp_Username = loc_Username l, lp_Password = password, lp_QuotaGB = quot64 (loc_QuotaBytes l) (2 ^ 30),
                        lp_BaseDir = loc_BaseDir l, lp_Buckets = []\<rparr>) # specs))))"

text \<open>A bucket goes to the last location listed with its identifier.\<close>

definition placeBucket :: "BucketSpec \<Rightarrow> string \<Rightarrow> (string \<times> LocationSpec) list \<Rightarrow> (string \<times> LocationSpec) list" where
  "placeBucket b ident specs =
     map (\<lambda>(i, spec). if i = ident then (i, spec\<lparr>lp_Buckets := lp_Buckets spec @ [b]\<rparr>) else (i, spec)) specs"

fun dumpBuckets ::
  "(string \<rightharpoonup> string) \<Rightarrow> Bucket list \<Rightarrow> (string \<times> LocationSpec) list \<Rightarrow> gerr + (string \<times> LocationSpec) list" where
  "dumpBuckets slugs [] specs = Inr specs"
| "dumpBuckets slugs (b # bs) specs =
     (if bkt_WebDAVLocationID b \<notin> fst ` set specs
      then Inl (ENew (''bucket '' @ bkt_Name b @ '' references unknown location '' @ bkt_WebDAVLocationID b))
      else case slugs (bkt_OwnerUserID b) of
             None \<Rightarrow> Inl (ENew (''bucket '' @ bkt_Name b @ '' references unknown owner '' @ bkt_OwnerUserID b))
           | Some owner \<Rightarrow>
               dumpBuckets slugs bs (placeBucket \<lparr>bs_Name = bkt_Name b, bs_Owner = owner\<rparr> (bkt_WebDAVLocationID b) specs))"

text \<open>\<open>Dump\<close> up to the encoder: the document it prints. The identifiers of locations are unique.\<close>

definition Dump :: "dumpConfig \<Rightarrow> structureDB \<Rightarrow> gerr + Document" where
  "Dump C s =
     (case listed C ''list users'' (ListUsers s) of Inl e \<Rightarrow> Inl e | Inr allUsers \<Rightarrow>
     (case listed C ''list locations'' (ListLocations s) of Inl e \<Rightarrow> Inl e | Inr allLocations \<Rightarrow>
     (case listed C ''list buckets'' (ListBuckets s) of Inl e \<Rightarrow> Inl e | Inr allBuckets \<Rightarrow>
     (case dumpUsers C allUsers Map.empty Map.empty of Inl e \<Rightarrow> Inl e | Inr (us, slugs) \<Rightarrow>
     (case dumpLocations C allLocations Map.empty of Inl e \<Rightarrow> Inl e | Inr specs \<Rightarrow>
     (case dumpBuckets slugs allBuckets specs of Inl e \<Rightarrow> Inl e | Inr specs' \<Rightarrow>
        Inr \<lparr>doc_Users = us, doc_Locations = map snd specs'\<rparr>))))))"

end
