(* ===== verification/Configuration.thy ===== *)
theory Configuration
  imports S3Api AdminUI Provision
begin

text \<open>
  \<open>cmd/webdavs3/config.go\<close> and \<open>setup.go\<close>, and the small pieces of \<open>main.go\<close> around the daemon: the
  configuration with its defaults and overrides, the identity of the daemon, the address the health
  check asks, the command line, and the first-run wizard. \<open>host\<close> is what the program gets from the
  machine it runs on; YAML, \<open>bcrypt\<close>, the WebDAV library and the HTTP client are fields of it.
\<close>

section \<open>The host\<close>

record Config =
  cf_S3Listen :: string
  cf_AdminListen :: string
  cf_AdminUsername :: string
  cf_AdminPasswordHash :: string
  cf_EncryptionKey :: string
  cf_LocalCacheDir :: string
  cf_ProvisionFile :: string
  cf_BucketCacheSize :: int
  cf_SyncInterval :: string
  cf_StatsFlusInterval :: string
  cf_DaemonID :: string
  cf_LogFormat :: string
  cf_LogLevel :: string
  cf_Region :: string
  cf_ChunkThresholdMB :: int
  cf_ChunkSizeMB :: int

text \<open>
  \<open>ho_stat\<close> and \<open>ho_readFile\<close> tell a file that is not there (\<open>None\<close>) from one that cannot be looked at
  or read.
\<close>

record 'w host =
  ho_env :: "'w env"
  ho_getenv :: "string \<Rightarrow> string"
  ho_stat :: "string \<Rightarrow> ('w, fileInfo option) act"
  ho_readFile :: "string \<Rightarrow> ('w, bytes option) act"
  ho_writeFile :: "string \<Rightarrow> bytes \<Rightarrow> ('w, unit) act"
  ho_yamlConfig :: "bytes \<Rightarrow> Config \<Rightarrow> gerr + Config"
  ho_yamlDocument :: "bytes \<Rightarrow> gerr + Document"
  ho_gowebdav :: "string \<Rightarrow> string \<Rightarrow> string \<Rightarrow> 'w gowebdav \<times> 'w gowebdav"
  ho_cipher :: aead
  ho_bcryptCompare :: "string \<Rightarrow> string \<Rightarrow> bool"
  ho_bcryptGenerate :: "string \<Rightarrow> ('w, string) act"
  ho_randInt :: "int \<Rightarrow> ('w, int) act"
  ho_decodeParts :: "stream \<Rightarrow> gerr + CompletePart list"
  ho_httpGet :: "string \<Rightarrow> ('w, int) act"
  ho_prompt :: "('w, string) act"
  ho_promptPassword :: "('w, string) act"
  ho_mapOrder :: "string list \<Rightarrow> string list"
  ho_fuel :: nat

section \<open>config.go\<close>

definition defaultConfig :: Config where
  "defaultConfig =
     \<lparr>cf_S3Listen = '':9000'', cf_AdminListen = '':9001'', cf_AdminUsername = ''admin'',
      cf_AdminPasswordHash = ''$2a$10$ZZUgrqwRYiIDrxpxFcqS5uRBB3bRKNRKLL5kwRHDyBQh8x.WiHyGa'', cf_EncryptionKey = [],
      cf_LocalCacheDir = [], cf_ProvisionFile = [], cf_BucketCacheSize = 50, cf_SyncInterval = ''5m'',
      cf_StatsFlusInterval = ''1m'', cf_DaemonID = [], cf_LogFormat = ''json'', cf_LogLevel = ''info'',
      cf_Region = ''us-east-1'', cf_ChunkThresholdMB = 0, cf_ChunkSizeMB = 100\<rparr>"

definition overrideStr :: "'w host \<Rightarrow> string \<Rightarrow> string \<Rightarrow> string" where
  "overrideStr H old env = (let v = ho_getenv H env in if v \<noteq> [] then v else old)"

definition overrideInt :: "'w host \<Rightarrow> int \<Rightarrow> string \<Rightarrow> int" where
  "overrideInt H old env =
     (let v = ho_getenv H env in if v \<noteq> [] then (case atoi v of Some n \<Rightarrow> n | None \<Rightarrow> old) else old)"

definition overrideConfig :: "'w host \<Rightarrow> Config \<Rightarrow> Config" where
  "overrideConfig H c =
     \<lparr>cf_S3Listen = overrideStr H (cf_S3Listen c) ''WEBDAV3S_S3_LISTEN'',
      cf_AdminListen = overrideStr H (cf_AdminListen c) ''WEBDAV3S_ADMIN_LISTEN'',
      cf_AdminUsername = overrideStr H (cf_AdminUsername c) ''WEBDAV3S_ADMIN_USERNAME'',
      cf_AdminPasswordHash = overrideStr H (cf_AdminPasswordHash c) ''WEBDAV3S_ADMIN_PASSWORD_HASH'',
      cf_EncryptionKey = overrideStr H (cf_EncryptionKey c) ''WEBDAV3S_ENCRYPTION_KEY'',
      cf_LocalCacheDir = overrideStr H (cf_LocalCacheDir c) ''WEBDAV3S_LOCAL_CACHE_DIR'',
      cf_ProvisionFile = overrideStr H (cf_ProvisionFile c) ''WEBDAV3S_PROVISION_FILE'',
      cf_BucketCacheSize = overrideInt H (cf_BucketCacheSize c) ''WEBDAV3S_BUCKET_CACHE_SIZE'',
      cf_SyncInterval = overrideStr H (cf_SyncInterval c) ''WEBDAV3S_SYNC_INTERVAL'',
      cf_StatsFlusInterval = overrideStr H (cf_StatsFlusInterval c) ''WEBDAV3S_STATS_FLUSH_INTERVAL'',
      cf_DaemonID = overrideStr H (cf_DaemonID c) ''WEBDAV3S_DAEMON_ID'',
      cf_LogFormat = overrideStr H (cf_LogFormat c) ''WEBDAV3S_LOG_FORMAT'',
      cf_LogLevel = overrideStr H (cf_LogLevel c) ''WEBDAV3S_LOG_LEVEL'',
      cf_Region = overrideStr H (cf_Region c) ''WEBDAV3S_REGION'',
      cf_ChunkThresholdMB = overrideInt H (cf_ChunkThresholdMB c) ''WEBDAV3S_CHUNK_THRESHOLD_MB'',
      cf_ChunkSizeMB = overrideInt H (cf_ChunkSizeMB c) ''WEBDAV3S_CHUNK_SIZE_MB''\<rparr>"

definition LoadConfig :: "'w host \<Rightarrow> string \<Rightarrow> ('w, Config) act" where
  "LoadConfig H path =
     bnd (if path = [] then ret defaultConfig
          else bnd (ho_readFile H path) (\<lambda>f. case f of
                 None \<Rightarrow> ret defaultConfig
               | Some data \<Rightarrow> liftE (ho_yamlConfig H data defaultConfig)))
       (\<lambda>cfg. ret (overrideConfig H cfg))"

section \<open>The command line\<close>

datatype command =
    RunDaemon string
  | RunSetup string
  | RunInspect string bool string
  | RunGC string bool
  | RunHealthcheck string
  | RunProvisionDump string
  | ShowUsage

text \<open>\<open>inspect\<close>: the first pass takes \<open>--json\<close> and \<open>--bucket=name\<close>, the second \<open>--bucket name\<close>.\<close>

definition inspectFlags :: "string list \<Rightarrow> bool \<times> string \<times> string list" where
  "inspectFlags args =
     (''--json'' \<in> set args,
      foldl (\<lambda>f a. if a \<noteq> ''--json'' \<and> hasPrefix a ''--bucket='' then trimPrefix a ''--bucket='' else f) [] args,
      filter (\<lambda>a. a \<noteq> ''--json'' \<and> \<not> hasPrefix a ''--bucket='') args)"

fun bucketFlag :: "string \<Rightarrow> string list \<Rightarrow> string \<times> string list" where
  "bucketFlag b [] = (b, [])"
| "bucketFlag b (a # args) =
     (case args of
        v # rest \<Rightarrow>
          if a = ''--bucket'' then bucketFlag v rest
          else (case bucketFlag b args of (b', filtered) \<Rightarrow> (b', a # filtered))
      | [] \<Rightarrow> (b, [a]))"

definition firstOr :: "string \<Rightarrow> string list \<Rightarrow> string" where
  "firstOr d xs = (case xs of [] \<Rightarrow> d | x # _ \<Rightarrow> x)"

text \<open>The arguments after the name of the program; \<open>provision\<close> without \<open>dump\<close> starts the daemon.\<close>

definition parseArgs :: "string list \<Rightarrow> command" where
  "parseArgs args =
     (case args of
        [] \<Rightarrow> RunDaemon ''config.yaml''
      | cmd # rest \<Rightarrow>
          if cmd = ''setup'' then RunSetup (firstOr ''config.yaml'' rest)
          else if cmd = ''inspect'' then
            (case inspectFlags rest of (json, b, remaining) \<Rightarrow>
               (case bucketFlag b remaining of (b', filtered) \<Rightarrow> RunInspect (firstOr ''config.yaml'' filtered) json b'))
          else if cmd = ''gc'' then RunGC (firstOr ''config.yaml'' (filter (\<lambda>a. a \<noteq> ''--force'') rest)) (''--force'' \<in> set rest)
          else if cmd = ''healthcheck'' then RunHealthcheck (firstOr ''config.yaml'' rest)
          else if cmd = ''provision'' then
            (case rest of
               what # args' \<Rightarrow> if what = ''dump'' then RunProvisionDump (firstOr ''config.yaml'' args') else RunDaemon ''config.yaml''
             | [] \<Rightarrow> RunDaemon ''config.yaml'')
          else if cmd \<in> {''-h'', ''--help'', ''help''} then ShowUsage
          else RunDaemon cmd)"

section \<open>The health check\<close>

text \<open>\<open>net.SplitHostPort\<close> and \<open>net.JoinHostPort\<close>.\<close>

definition addrErr :: "string \<Rightarrow> string \<Rightarrow> gerr" where
  "addrErr addr why = ENew (''address '' @ addr @ '': '' @ why)"

definition beforeLast :: "char \<Rightarrow> string \<Rightarrow> string" where
  "beforeLast c s = joinStr [c] (butlast (splitOn c s))"

definition SplitHostPort :: "string \<Rightarrow> gerr + string \<times> string" where
  "SplitHostPort s =
     (if CHR '':'' \<notin> set s then Inl (addrErr s ''missing port in address'')
      else let port = last (splitOn (CHR '':'') s); front = beforeLast (CHR '':'') s in
        if hd s = CHR ''['' then
          (let host = takeWhile (\<lambda>c. c \<noteq> CHR '']'') (tl s); after = drop (length host + 2) s in
           if CHR '']'' \<notin> set s then Inl (addrErr s ''missing ']' in address'')
           else if after = [] then Inl (addrErr s ''missing port in address'')
           else if length host + 2 \<noteq> length front
           then Inl (addrErr s (if hd after = CHR '':'' then ''too many colons in address'' else ''missing port in address''))
           else if CHR ''['' \<in> set (tl s) then Inl (addrErr s ''unexpected '[' in address'')
           else if CHR '']'' \<in> set after then Inl (addrErr s ''unexpected ']' in address'')
           else Inr (host, port))
        else if CHR '':'' \<in> set front then Inl (addrErr s ''too many colons in address'')
        else if CHR ''['' \<in> set s then Inl (addrErr s ''unexpected '[' in address'')
        else if CHR '']'' \<in> set s then Inl (addrErr s ''unexpected ']' in address'')
        else Inr (front, port))"

definition JoinHostPort :: "string \<Rightarrow> string \<Rightarrow> string" where
  "JoinHostPort host port = (if CHR '':'' \<in> set host then ''['' @ host @ '']:'' @ port else host @ '':'' @ port)"

definition adminHealthcheckURL :: "string \<Rightarrow> gerr + string" where
  "adminHealthcheckURL listen =
     (case SplitHostPort listen of
        Inl e \<Rightarrow> Inl (wrapAs (''parse admin_listen '' @ fmtQ listen) e)
      | Inr (host, port) \<Rightarrow>
          (let host = (if host \<in> {[], ''0.0.0.0'', ''::'', ''[::]''} then ''127.0.0.1'' else host) in
           Inr (''http://'' @ JoinHostPort host port @ ''/admin/login'')))"

definition runHealthcheck :: "'w host \<Rightarrow> string \<Rightarrow> ('w, unit) act" where
  "runHealthcheck H cfgPath =
     bnd (wrapE (wrapAs ''load config'') (LoadConfig H cfgPath)) (\<lambda>cfg.
     bnd (liftE (adminHealthcheckURL (cf_AdminListen cfg))) (\<lambda>url.
     bnd (wrapE (wrapAs (''GET '' @ url)) (ho_httpGet H url)) (\<lambda>status.
       if status \<noteq> 200 then fail (ENew (''GET '' @ url @ '': unexpected status '' @ fmtD status)) else ret ())))"

section \<open>The identity of the daemon\<close>

definition generateUUID :: "'w host \<Rightarrow> ('w, string) act" where
  "generateUUID H =
     bnd (orElse (env_rand (ho_env H) 16) (\<lambda>e. fail (EAbort (''generateUUID: '' @ errText e)))) (\<lambda>b. ret (uuidText b))"

definition loadOrCreateDaemonID :: "'w host \<Rightarrow> string \<Rightarrow> ('w, string) act" where
  "loadOrCreateDaemonID H dir =
     (if dir = [] then generateUUID H
      else let path = pathJoin [dir, ''daemon.id''] in
        bnd (ho_readFile H path) (\<lambda>f. case f of
          Some data \<Rightarrow> ret (trimSpace data)
        | None \<Rightarrow> bnd (generateUUID H) (\<lambda>ident. thn (ho_writeFile H path ident) (ret ident))))"

section \<open>setup.go\<close>

text \<open>Leaving with \<open>os.Exit(1)\<close> is an error of its own; the text of the file is as in the source, comments included.\<close>

definition exitOne :: "string \<Rightarrow> ('w, 'a) act" where
  "exitOne message = fail (EAbort message)"

definition setupConfig :: "string \<Rightarrow> string \<Rightarrow> string \<Rightarrow> string" where
  "setupConfig username hash encKey =
     (let nl = [CHR 0x0A]; q = [CHR 0x22] in
      ''s3_listen: '' @ q @ '':9000'' @ q @ nl @ ''admin_listen: '' @ q @ '':9001'' @ q @ nl @ nl
      @ ''admin_username: '' @ fmtQ username @ nl @ ''admin_password_hash: '' @ fmtQ hash @ nl @ nl
      @ ''# AES-256-GCM key '' @ [CHR 0xE2, CHR 0x80, CHR 0x94] @ '' encrypts WebDAV passwords and S3 user secrets at rest.'' @ nl
      @ ''# Keep this secret. Loss means all stored credentials must be re-entered.'' @ nl
      @ ''encryption_key: '' @ fmtQ encKey @ nl @ nl
      @ ''# Local directory for SQLite cache files and daemon.id.'' @ nl @ ''local_cache_dir: '' @ q @ q @ nl @ nl
      @ ''# S3 region returned to clients.'' @ nl @ ''region: '' @ q @ ''us-east-1'' @ q @ nl @ nl
      @ ''# Maximum number of bucket databases to keep open simultaneously (LRU).'' @ nl @ ''bucket_cache_size: 50'' @ nl @ nl
      @ ''# How often to pull metadata from WebDAV.'' @ nl @ ''sync_interval: '' @ q @ ''5m'' @ q @ nl @ nl
      @ ''# How often to flush local usage stats to WebDAV.'' @ nl @ ''stats_flush_interval: '' @ q @ ''1m'' @ q @ nl @ nl
      @ ''# log_format: json | text'' @ nl @ ''# log_level:  debug | info | warn | error'' @ nl
      @ ''log_format: '' @ q @ ''json'' @ q @ nl @ ''log_level: '' @ q @ ''info'' @ q @ nl)"

definition runSetup :: "'w host \<Rightarrow> string \<Rightarrow> ('w, unit) act" where
  "runSetup H cfgPath =
     bnd (attempt (ho_stat H cfgPath)) (\<lambda>there.
     thn (case there of Inr (Some _) \<Rightarrow> exitOne (''config file '' @ cfgPath @ '' already exists'') | _ \<Rightarrow> ret ())
    (bnd (ho_prompt H) (\<lambda>line.
     let username = (if line = [] then ''admin'' else line) in
     bnd (wrapE (wrapAs ''read password'') (ho_promptPassword H)) (\<lambda>password.
     bnd (wrapE (wrapAs ''read password confirmation'') (ho_promptPassword H)) (\<lambda>confirm.
     if password \<noteq> confirm then exitOne ''passwords do not match''
     else if length password < 8 then exitOne ''password must be at least 8 characters''
     else
       bnd (wrapE (wrapAs ''bcrypt'') (ho_bcryptGenerate H password)) (\<lambda>hash.
       bnd (wrapE (wrapAs ''generate encryption key'') (env_rand (ho_env H) 32)) (\<lambda>keyBytes.
         wrapE (wrapAs (''write '' @ cfgPath))
           (ho_writeFile H cfgPath (setupConfig username hash (base64Encode keyBytes))))))))))"

end
