(* ===== verification/GC.thy ===== *)
theory GC
  imports ObjectFacts
begin

text \<open>
  \<open>internal/object/gc.go\<close>: \<open>GarbageCollect\<close>, which removes what nothing on the location refers to.
  First every bucket of the location is read and the referenced files and upload directories are
  collected; then \<open>_data/\<close> and \<open>_parts/\<close> are listed and the rest is deleted. The two maps of the
  source are lists of their keys.
\<close>

section \<open>Collecting the references\<close>

text \<open>The upload a chunk path belongs to: the path element after \<open>{baseDir}_parts/\<close>.\<close>

definition chunkUpload :: "string \<Rightarrow> string \<Rightarrow> string option" where
  "chunkUpload partsPrefix path =
     (let rel = trimPrefix path partsPrefix in
      if rel = path then None else map_option (\<lambda>i. take i rel) (indexOf rel ''/''))"

fun gcObjects ::
  "'w svc \<Rightarrow> string \<Rightarrow> string \<Rightarrow> Object list \<Rightarrow> string list \<times> string list \<Rightarrow> ('w daemon, string list \<times> string list) act" where
  "gcObjects S bucketID partsPrefix [] acc = ret acc"
| "gcObjects S bucketID partsPrefix (obj # rest) (refs, ups) =
     (if obj_HashPath obj \<noteq> [] then gcObjects S bucketID partsPrefix rest (obj_HashPath obj # refs, ups)
      else bnd (attempt (askBucket S bucketID ''bdb.GetObject'' (\<lambda>b. GetObject b (obj_Key obj)))) (\<lambda>r.
        case r of
          Inl e \<Rightarrow> gcObjects S bucketID partsPrefix rest (refs, ups)
        | Inr full \<Rightarrow> gcObjects S bucketID partsPrefix rest
            (refs, List.map_filter (\<lambda>c. chunkUpload partsPrefix (chk_Path c)) (obj_Chunks full) @ ups)))"

fun gcBuckets ::
  "'w svc \<Rightarrow> string \<Rightarrow> string \<Rightarrow> Bucket list \<Rightarrow> string list \<times> string list \<Rightarrow> ('w daemon, string list \<times> string list) act" where
  "gcBuckets S locationID baseDir [] acc = ret acc"
| "gcBuckets S locationID baseDir (bkt # bkts) acc =
     (if bkt_WebDAVLocationID bkt \<noteq> locationID then gcBuckets S locationID baseDir bkts acc
      else
        thn (wrapE (wrapAs (''open bucket db '' @ bkt_ID bkt)) (cacheGet S (bkt_ID bkt)))
       (bnd (wrapE (wrapAs (''list objects in bucket '' @ bkt_ID bkt))
               (askBucket S (bkt_ID bkt) ''bdb.ListObjects'' (\<lambda>b. ListObjects b [] [] [] 0))) (\<lambda>(objs, _).
        bnd (gcObjects S (bkt_ID bkt) (baseDir @ ''_parts/'') objs acc) (\<lambda>(refs, ups).
        bnd (wrapE (wrapAs (''list multipart uploads in bucket '' @ bkt_ID bkt))
               (askBucket S (bkt_ID bkt) ''bdb.ListMultipartUploads'' (\<lambda>b. Inr (ListMultipartUploads b))))
          (\<lambda>uploads. gcBuckets S locationID baseDir bkts (refs, map mpu_ID uploads @ ups))))))"

section \<open>Deleting the rest\<close>

text \<open>Both passes delete the listed names of a directory that are not kept; a failing call is skipped.\<close>

fun gcSweep :: "'w svc \<Rightarrow> string \<Rightarrow> (string \<Rightarrow> bool) \<Rightarrow> string list \<Rightarrow> int \<Rightarrow> ('w daemon, int) act" where
  "gcSweep S dir keep [] deleted = ret deleted"
| "gcSweep S dir keep (name # names) deleted =
     (if keep name then gcSweep S dir keep names deleted
      else bnd (attempt (wdc S (\<lambda>c. cl_Delete c (dir @ name)))) (\<lambda>r.
        case r of Inl e \<Rightarrow> gcSweep S dir keep names deleted
        | Inr _ \<Rightarrow> gcSweep S dir keep names (deleted + 1)))"

fun gcData :: "'w svc \<Rightarrow> string \<Rightarrow> string list \<Rightarrow> string list \<Rightarrow> int \<Rightarrow> ('w daemon, int) act" where
  "gcData S dataDir refs [] deleted = ret deleted"
| "gcData S dataDir refs (pre # pres) deleted =
     (if pre = ''.tmp'' then gcData S dataDir refs pres deleted
      else (let dirPath = dataDir @ pre in
        bnd (attempt (wdc S (\<lambda>c. cl_ReadDir c dirPath))) (\<lambda>r.
        case r of
          Inl e \<Rightarrow> gcData S dataDir refs pres deleted
        | Inr files \<Rightarrow>
            bnd (gcSweep S (dirPath @ ''/'') (\<lambda>name. dirPath @ ''/'' @ name \<in> set refs) files deleted)
              (gcData S dataDir refs pres))))"

text \<open>The two passes, given the two maps; an unlistable directory ends its pass.\<close>

definition gcDelete :: "'w svc \<Rightarrow> string \<Rightarrow> string list \<times> string list \<Rightarrow> ('w daemon, int) act" where
  "gcDelete S baseDir acc =
     (let dataDir = baseDir @ ''_data/''; partsDir = baseDir @ ''_parts/'' in
     bnd (attempt (wdc S (\<lambda>c. cl_ReadDir c dataDir))) (\<lambda>r.
     bnd (case r of Inl e \<Rightarrow> ret 0 | Inr prefixDirs \<Rightarrow> gcData S dataDir (fst acc) prefixDirs 0) (\<lambda>deleted.
     bnd (attempt (wdc S (\<lambda>c. cl_ReadDir c partsDir))) (\<lambda>r.
       case r of
         Inl e \<Rightarrow> ret deleted
       | Inr uploadDirs \<Rightarrow> gcSweep S partsDir (\<lambda>dir. dir \<in> set (snd acc)) uploadDirs deleted))))"

definition GarbageCollect :: "'w svc \<Rightarrow> string \<Rightarrow> ('w daemon, int) act" where
  "GarbageCollect S locationID =
     bnd (wrapE (wrapAs ''get location'')
            (askStructure S ''structure.GetLocation'' (\<lambda>d. GetLocation d locationID))) (\<lambda>loc.
     bnd (wrapE (wrapAs ''list buckets'')
            (askStructure S ''structure.ListBuckets'' (\<lambda>d. Inr (ListBuckets d)))) (\<lambda>allBuckets.
     bnd (gcBuckets S locationID (loc_BaseDir loc) allBuckets ([], []))
       (gcDelete S (loc_BaseDir loc))))"

section \<open>What is collected\<close>

text \<open>
  The references of a bucket database: the data files of its complete objects, its active uploads,
  and, when no read of an object failed, the uploads that the chunks of its complete objects are in.
\<close>

definition readsObjects :: "'w svc \<Rightarrow> bool" where
  "readsObjects S \<longleftrightarrow> (\<forall>w. \<exists>w'. env_os (svc_env S) ''bdb.GetObject'' w = (Inr (), w'))"

definition seen :: "bool \<Rightarrow> string \<Rightarrow> bucketDB \<Rightarrow> Object \<Rightarrow> string list \<times> string list \<Rightarrow> bool" where
  "seen nf pp b r acc \<longleftrightarrow>
     (if obj_HashPath r \<noteq> [] then obj_HashPath r \<in> set (fst acc)
      else nf \<longrightarrow> set (List.map_filter (\<lambda>c. chunkUpload pp (chk_Path c)) (loadChunks b (obj_Key r))) \<subseteq> set (snd acc))"

definition covered :: "bool \<Rightarrow> string \<Rightarrow> bucketDB \<Rightarrow> string list \<times> string list \<Rightarrow> bool" where
  "covered nf pp b acc \<longleftrightarrow>
     (\<forall>r \<in> set (objects b). obj_UploadComplete r \<longrightarrow> seen nf pp b r acc)
     \<and> (\<forall>u \<in> set (multipart_uploads b). mpu_ID u \<in> set (snd acc))"

definition collected :: "'w svc \<Rightarrow> 'w daemon \<Rightarrow> string \<Rightarrow> string \<Rightarrow> string list \<times> string list \<Rightarrow> bool" where
  "collected S s l base acc \<longleftrightarrow> (\<forall>b \<in> set (ListBuckets (d_structure s)). bkt_WebDAVLocationID b = l \<longrightarrow>
     covered (readsObjects S) (base @ ''_parts/'') (bdbOf s (bkt_ID b)) acc)"

definition grows :: "string list \<times> string list \<Rightarrow> string list \<times> string list \<Rightarrow> bool" where
  "grows a b \<longleftrightarrow> set (fst a) \<subseteq> set (fst b) \<and> set (snd a) \<subseteq> set (snd b)"

lemma collected_data:
  "collected S s l base acc \<Longrightarrow> b \<in> set (ListBuckets (d_structure s)) \<Longrightarrow> bkt_WebDAVLocationID b = l \<Longrightarrow>
   r \<in> set (objects (bdbOf s (bkt_ID b))) \<Longrightarrow> obj_UploadComplete r \<Longrightarrow> obj_HashPath r \<noteq> [] \<Longrightarrow>
   obj_HashPath r \<in> set (fst acc)"
  unfolding collected_def covered_def seen_def by metis

lemma collected_upload:
  "collected S s l base acc \<Longrightarrow> b \<in> set (ListBuckets (d_structure s)) \<Longrightarrow> bkt_WebDAVLocationID b = l \<Longrightarrow>
   u \<in> set (multipart_uploads (bdbOf s (bkt_ID b))) \<Longrightarrow> mpu_ID u \<in> set (snd acc)"
  unfolding collected_def covered_def by metis

lemma collected_chunk:
  assumes "collected S s l base acc" "b \<in> set (ListBuckets (d_structure s))" "bkt_WebDAVLocationID b = l"
    and "r \<in> set (objects (bdbOf s (bkt_ID b)))" "obj_UploadComplete r" "obj_HashPath r = []" "readsObjects S"
    and c: "c \<in> set (loadChunks (bdbOf s (bkt_ID b)) (obj_Key r))" "chunkUpload (base @ ''_parts/'') (chk_Path c) = Some u"
  shows "u \<in> set (snd acc)"
proof -
  let ?f = "\<lambda>c. chunkUpload (base @ ''_parts/'') (chk_Path c)"
  have "set (List.map_filter ?f (loadChunks (bdbOf s (bkt_ID b)) (obj_Key r))) \<subseteq> set (snd acc)"
    using assms(1-7) unfolding collected_def covered_def seen_def by metis
  moreover have "u \<in> set (List.map_filter ?f (loadChunks (bdbOf s (bkt_ID b)) (obj_Key r)))"
    using c by (force simp: List.map_filter_def)
  ultimately show ?thesis by blast
qed

lemma grows_refl [simp]: "grows a a"
  by (simp add: grows_def)

lemma grows_trans: "grows a b \<Longrightarrow> grows b c \<Longrightarrow> grows a c"
  by (auto simp: grows_def)

lemma seen_grows: "seen nf pp b r a \<Longrightarrow> grows a a' \<Longrightarrow> seen nf pp b r a'"
  by (auto simp: seen_def grows_def split: if_splits)

lemma covered_grows: "covered nf pp b a \<Longrightarrow> grows a a' \<Longrightarrow> covered nf pp b a'"
  unfolding covered_def using seen_grows [of nf pp b _ a a'] by (auto simp: grows_def)

lemma all_objects: "ListObjects b [] [] [] 0 = Inr (map scanObject (matching b [] []), [])"
  by (simp add: ListObjects_def listObjectsSingleQuery_def buildListQuery_take)

lemma set_all_objects: "r \<in> set (matching b [] []) \<longleftrightarrow> r \<in> set (objects b) \<and> obj_UploadComplete r"
  by (simp add: set_matching)

lemma askBucket_reads:
  "readsObjects S \<Longrightarrow> askBucket S i ''bdb.GetObject'' f s = (Inl e, t) \<Longrightarrow> f (bdbOf s i) = Inl e"
  unfolding askBucket_def os_def onWorld_def readsObjects_def
  by (auto simp: thn_def bnd_def bdbOf_def split: prod.splits sum.splits dest: spec [of _ "d_world s"])

context daemon_server
begin

lemma kept_gcObjects [keeps]: "kept (reach T B s) (gcObjects S i pp objs acc)"
  by (induction objs arbitrary: acc) (auto intro!: keeps split: sum.split prod.split)

lemma kept_gcBuckets [keeps]: "kept (reach T B s) (gcBuckets S l base bkts acc)"
  by (induction bkts arbitrary: acc) (auto intro!: keeps split: prod.split)

lemma gcObjects_Inr:
  assumes "gcObjects S i pp objs acc s = (Inr acc', t)"
  shows "grows acc acc' \<and> (\<forall>obj \<in> set objs. (\<exists>r \<in> set (objects (bdbOf s i)). obj_Key r = obj_Key obj) \<longrightarrow>
     seen (readsObjects S) pp (bdbOf s i) obj acc')"
  using assms
proof (induction objs arbitrary: acc s)
  case Nil
  then show ?case by simp
next
  case (Cons obj objs)
  let ?b = "bdbOf s i"
  obtain refs ups where acc: "acc = (refs, ups)" by (cases acc)
  have fin: ?case if rest: "gcObjects S i pp objs acc1 s1 = (Inr acc', t)" and same: "bdbOf s1 i = ?b"
    and grow: "grows acc acc1"
    and here: "(\<exists>r \<in> set (objects ?b). obj_Key r = obj_Key obj) \<Longrightarrow> seen (readsObjects S) pp ?b obj acc1" for acc1 s1
    using Cons.IH [OF rest] grows_trans [OF grow] seen_grows [OF here] by (auto simp: same)
  show ?case
  proof (cases "obj_HashPath obj = []")
    case False
    with Cons.prems have "gcObjects S i pp objs (obj_HashPath obj # refs, ups) s = (Inr acc', t)" by (simp add: acc)
    then show ?thesis by (rule fin [OF _ refl]) (auto simp: acc grows_def seen_def False)
  next
    case True
    with Cons.prems obtain r s1 where
      ask: "askBucket S i ''bdb.GetObject'' (\<lambda>b. GetObject b (obj_Key obj)) s = (r, s1)"
      and rest: "gcObjects S i pp objs (case r of Inl e \<Rightarrow> (refs, ups) | Inr full \<Rightarrow> (refs,
          List.map_filter (\<lambda>c. chunkUpload pp (chk_Path c)) (obj_Chunks full) @ ups)) s1 = (Inr acc', t)"
      by (auto simp: acc elim!: bnd_InrE dest!: attempt_InrD split: sum.splits)
    have same: "bdbOf s1 i = ?b"
      using withinD(2) [OF reachD [OF kept_askBucket ask, where T = "{}" and B = "{}"]] by simp
    show ?thesis
    proof (cases r)
      case (Inl e)
      with askBucket_reads [OF _ ask [unfolded Inl]] have
        "readsObjects S \<Longrightarrow> \<not> (\<exists>r \<in> set (objects ?b). obj_Key r = obj_Key obj)"
        by (auto simp: GetObject_def selectOne_def find_None_iff split: option.splits)
      with True show ?thesis by (intro fin [OF rest same]) (auto simp: acc Inl seen_def)
    next
      case (Inr full)
      have "obj_Chunks full = loadChunks ?b (obj_Key obj)"
        using askBucket_Inr [OF ask [unfolded Inr]] by (auto simp: GetObject_def split: option.splits)
      with True show ?thesis by (intro fin [OF rest same]) (auto simp: acc Inr grows_def seen_def)
    qed
  qed
qed

lemma gcBuckets_Inr:
  assumes "gcBuckets S l base bkts acc s = (Inr acc', t)"
  shows "grows acc acc' \<and> (\<forall>b \<in> set bkts. bkt_WebDAVLocationID b = l \<longrightarrow>
     covered (readsObjects S) (base @ ''_parts/'') (bdbOf s (bkt_ID b)) acc')"
  using assms
proof (induction bkts arbitrary: acc s)
  case Nil
  then show ?case by simp
next
  case (Cons b bkts)
  show ?case
  proof (cases "bkt_WebDAVLocationID b = l")
    case False
    with Cons show ?thesis by simp
  next
    case True
    let ?i = "bkt_ID b" and ?pp = "base @ ''_parts/''"
    from Cons.prems True obtain s1 s2 s3 s4 u objs cps refs ups uploads where
      1: "cacheGet S ?i s = (Inr u, s1)"
      and 2: "askBucket S ?i ''bdb.ListObjects'' (\<lambda>b. ListObjects b [] [] [] 0) s1 = (Inr (objs, cps), s2)"
      and 3: "gcObjects S ?i ?pp objs acc s2 = (Inr (refs, ups), s3)"
      and 4: "askBucket S ?i ''bdb.ListMultipartUploads'' (\<lambda>b. Inr (ListMultipartUploads b)) s3 = (Inr uploads, s4)"
      and 5: "gcBuckets S l base bkts (refs, map mpu_ID uploads @ ups) s4 = (Inr acc', t)"
      by (auto elim!: act_elims dest!: wrapE_InrD split: prod.splits)
    have b1: "bdbOf s1 j = bdbOf s j" and b2: "bdbOf s2 j = bdbOf s1 j"
      and b3: "bdbOf s3 j = bdbOf s2 j" and b4: "bdbOf s4 j = bdbOf s3 j" for j
      using withinD(2) [OF reachD [OF kept_cacheGet 1, where T = "{}" and B = "{}"]]
        withinD(2) [OF reachD [OF kept_askBucket 2, where T = "{}" and B = "{}"]]
        withinD(2) [OF reachD [OF kept_gcObjects 3, where T = "{}" and B = "{}"]]
        withinD(2) [OF reachD [OF kept_askBucket 4, where T = "{}" and B = "{}"]] by simp_all
    from askBucket_Inr [OF 2] have objs: "objs = map scanObject (matching (bdbOf s ?i) [] [])"
      by (simp add: all_objects b1)
    from askBucket_Inr [OF 4] have ups: "uploads = ListMultipartUploads (bdbOf s ?i)" by (simp add: b1 b2 b3)
    have cov: "covered (readsObjects S) ?pp (bdbOf s ?i) (refs, map mpu_ID uploads @ ups)"
      using gcObjects_Inr [OF 3]
      by (fastforce simp: covered_def seen_def objs ups ListMultipartUploads_def scanUpload_def scanObject_def
          b1 b2 set_all_objects split: if_splits)
    have "grows acc (refs, map mpu_ID uploads @ ups)"
      using gcObjects_Inr [OF 3] by (auto simp: grows_def)
    with Cons.IH [OF 5] cov show ?thesis
      by (auto simp: b1 b2 b3 b4 intro: grows_trans covered_grows)
  qed
qed

end

section \<open>What is left alone\<close>

lemma split_at: "a @ x # s = b @ x # r \<Longrightarrow> x \<notin> set a \<Longrightarrow> x \<notin> set b \<Longrightarrow> a = b \<and> s = r"
proof (induction a arbitrary: b)
  case Nil
  then show ?case by (cases b) auto
next
  case (Cons y a)
  then show ?case by (cases b) auto
qed

lemma trimSuffix_name: "n \<noteq> [] \<Longrightarrow> CHR ''/'' \<notin> set n \<Longrightarrow> trimSuffix (d @ n) ''/'' = d @ n"
proof -
  assume n: "n \<noteq> []" "CHR ''/'' \<notin> set n"
  have "\<not> hasSuffix (d @ n) ''/''"
  proof
    assume "hasSuffix (d @ n) ''/''"
    then obtain t where "d @ n = t @ ''/''" by (auto simp: hasSuffix_iff)
    then have "last (d @ n) = CHR ''/''" by simp
    with n show False by (metis last_appendR last_in_set)
  qed
  then show ?thesis by (simp add: trimSuffix_def)
qed

text \<open>A file two names below a directory is under an entry of that directory only if the first name
  is that entry; a file one name below only if the names are the same.\<close>

lemma under_entry2:
  assumes "atOrUnder (d @ x @ ''/'' @ y) (d @ n)" and "n \<noteq> []" "CHR ''/'' \<notin> set n" and "CHR ''/'' \<notin> set x"
  shows "n = x"
proof -
  have "n \<noteq> x @ ''/'' @ y" using assms(3) by auto
  with assms(1) obtain t where "x @ CHR ''/'' # y = n @ CHR ''/'' # t"
    by (auto simp: atOrUnder_def trimSuffix_name [OF assms(2,3)] hasPrefix_iff)
  from split_at [OF this assms(4,3)] show ?thesis by simp
qed

lemma under_entry1:
  assumes "atOrUnder (d @ y) (d @ n)" and "n \<noteq> []" "CHR ''/'' \<notin> set n" and "CHR ''/'' \<notin> set y"
  shows "n = y"
proof -
  have "y \<noteq> n @ CHR ''/'' # t" for t using assms(4) by auto
  with assms(1) show ?thesis
    by (auto simp: atOrUnder_def trimSuffix_name [OF assms(2,3)] hasPrefix_iff)
qed

lemma under_other: "atOrUnder q p \<Longrightarrow> \<not> hasPrefix q d \<Longrightarrow> p = d @ n \<Longrightarrow> False"
  using under_hasPrefix by (fastforce simp: hasPrefix_iff)

context daemon_server
begin

lemma kept_file:
  assumes m: "\<And>s. kept (reach {} {} s) m"
  shows "kept (\<lambda>t. content (d_world t) q = v) m"
proof (rule keptI)
  fix s :: "'w daemon"
  assume v: "content (d_world s) q = v"
  have "reach {} {} s (snd (m s))" by (rule keptD [OF m within_refl])
  from withinD(3) [OF this, of q] v show "content (d_world (snd (m s))) q = v" by simp
qed

text \<open>What a listing returns are names, so what follows a listing may rely on that.\<close>

lemma kept_readDir:
  assumes k: "kept I (wdc S (\<lambda>c. cl_ReadDir c p))"
    and "\<And>e. kept I (f (Inl e))" and "\<And>ns. \<forall>n \<in> set ns. n \<noteq> [] \<and> CHR ''/'' \<notin> set n \<Longrightarrow> kept I (f (Inr ns))"
  shows "kept I (bnd (attempt (wdc S (\<lambda>c. cl_ReadDir c p))) f)"
proof (rule keptI)
  fix s
  assume I: "I s"
  obtain r t where at: "attempt (wdc S (\<lambda>c. cl_ReadDir c p)) s = (r, t)" by (cases "attempt (wdc S (\<lambda>c. cl_ReadDir c p)) s")
  have It: "I t" by (rule keptD' [OF kept_attempt [OF k] I at])
  show "I (snd (bnd (attempt (wdc S (\<lambda>c. cl_ReadDir c p))) f s))"
  proof (cases r)
    case (Inl e)
    with at It show ?thesis by simp
  next
    case (Inr r')
    have "kept I (f r')"
    proof (cases r')
      case (Inr ns)
      with attempt_InrD [OF at [unfolded \<open>r = Inr r'\<close>]] have "\<forall>n \<in> set ns. n \<noteq> [] \<and> CHR ''/'' \<notin> set n"
        unfolding wdc_def by (auto dest!: onWorld_InrD dest: readdir_names)
      then show ?thesis unfolding Inr by (rule assms(3))
    qed (simp add: assms(2))
    with at It Inr show ?thesis by (simp add: keptD)
  qed
qed

lemma kept_delete_file:
  "\<not> atOrUnder q p \<Longrightarrow> kept (\<lambda>t. content (d_world t) q = v) (wdc S (\<lambda>c. cl_Delete c p))"
  using delete_under by (intro keptI) (auto simp: wdc_def onWorld_def split: prod.split dest: sym, metis snd_conv)

lemma kept_gcSweep:
  "\<forall>n \<in> set names. \<not> keep n \<longrightarrow> \<not> atOrUnder q (dir @ n) \<Longrightarrow>
   kept (\<lambda>t. content (d_world t) q = v) (gcSweep S dir keep names n0)"
  by (induction names arbitrary: n0) (auto intro!: keeps kept_delete_file split: sum.split)

lemma kept_gcData:
  assumes "\<forall>d \<in> set pres. \<forall>n. n \<noteq> [] \<longrightarrow> CHR ''/'' \<notin> set n \<longrightarrow> dataDir @ d @ ''/'' @ n \<notin> set refs
      \<longrightarrow> \<not> atOrUnder q (dataDir @ d @ ''/'' @ n)"
  shows "kept (\<lambda>t. content (d_world t) q = v) (gcData S dataDir refs pres n0)"
  using assms
proof (induction pres arbitrary: n0)
  case Nil
  then show ?case by (simp add: kept_ret)
next
  case (Cons d pres)
  have sweep: "kept (\<lambda>t. content (d_world t) q = v)
      (gcSweep S (dataDir @ d @ ''/'') (\<lambda>name. dataDir @ d @ ''/'' @ name \<in> set refs) ns n0)"
    if "\<forall>n \<in> set ns. n \<noteq> [] \<and> CHR ''/'' \<notin> set n" for ns
    using Cons.prems that by (intro kept_gcSweep) simp
  have rest: "kept (\<lambda>t. content (d_world t) q = v) (gcData S dataDir refs pres n1)" for n1
    using Cons by simp
  have "kept (\<lambda>t. content (d_world t) q = v) (bnd (attempt (wdc S (\<lambda>c. cl_ReadDir c (dataDir @ d)))) (\<lambda>r.
        case r of
          Inl e \<Rightarrow> gcData S dataDir refs pres n0
        | Inr files \<Rightarrow>
            bnd (gcSweep S ((dataDir @ d) @ ''/'') (\<lambda>name. (dataDir @ d) @ ''/'' @ name \<in> set refs) files n0)
              (gcData S dataDir refs pres)))"
    by (rule kept_readDir [OF kept_file [OF kept_wdc_reads(3)]])
      (simp_all only: sum.case append_assoc rest kept_bnd [OF sweep rest])
  then show ?case unfolding gcData.simps Let_def using rest by (rule kept_if [rotated])
qed

text \<open>
  \<open>GarbageCollect\<close> leaves the databases as they are, and a file as it is unless one of its sweeps
  deletes something the file is in.
\<close>

lemma kept_gcDelete:
  assumes data: "\<And>d n. n \<noteq> [] \<Longrightarrow> CHR ''/'' \<notin> set n \<Longrightarrow> CHR ''/'' \<notin> set d \<Longrightarrow>
      (base @ ''_data/'') @ d @ ''/'' @ n \<notin> set (fst acc) \<Longrightarrow> \<not> atOrUnder q ((base @ ''_data/'') @ d @ ''/'' @ n)"
    and parts: "\<And>n. n \<noteq> [] \<Longrightarrow> CHR ''/'' \<notin> set n \<Longrightarrow> n \<notin> set (snd acc) \<Longrightarrow>
      \<not> atOrUnder q ((base @ ''_parts/'') @ n)"
  shows "kept (\<lambda>t. content (d_world t) q = v) (gcDelete S base acc)"
proof -
  let ?I = "\<lambda>t. content (d_world t) q = v"
  have p: "kept ?I (bnd (attempt (wdc S (\<lambda>c. cl_ReadDir c (base @ ''_parts/'')))) (\<lambda>r.
     case r of Inl e \<Rightarrow> ret deleted
     | Inr ns \<Rightarrow> gcSweep S (base @ ''_parts/'') (\<lambda>dir. dir \<in> set (snd acc)) ns deleted))" for deleted
    by (rule kept_readDir [OF kept_file [OF kept_wdc_reads(3)]])
      (use parts in \<open>auto simp del: append_assoc intro!: kept_ret kept_gcSweep\<close>)
  have d: "kept ?I (gcData S (base @ ''_data/'') (fst acc) ns 0)" if "\<forall>n \<in> set ns. n \<noteq> [] \<and> CHR ''/'' \<notin> set n" for ns
    using data that by (intro kept_gcData) blast
  show ?thesis unfolding gcDelete_def Let_def
    by (rule kept_readDir [OF kept_file [OF kept_wdc_reads(3)]]) (simp_all add: kept_bnd p d kept_ret)
qed

lemma GarbageCollect_file:
  assumes loc: "GetLocation (d_structure s) l = Inr loc"
    and del: "\<And>acc. collected S s l (loc_BaseDir loc) acc \<Longrightarrow>
      kept (\<lambda>t. content (d_world t) q = content (d_world s) q) (gcDelete S (loc_BaseDir loc) acc)"
  shows "content (d_world (snd (GarbageCollect S l s))) q = content (d_world s) q"
proof -
  let ?I = "\<lambda>t. content (d_world t) q = content (d_world s) q" and ?R = "reach {} {} s"
  have quiet: "?I t" if "?R t" for t using withinD(3) [OF that, of q] by simp
  have 1: "hoare ?R (wrapE g (askStructure S lb (\<lambda>d. GetLocation d l))) (\<lambda>x t. ?R t \<and> x = loc) (\<lambda>_. ?R)" for g lb
    using loc by (intro hoare_frame keeps) (auto dest!: wrapE_InrD askStructure_Inr simp: withinD(1))
  have 2: "hoare ?R (wrapE g (askStructure S lb (\<lambda>d. Inr (ListBuckets d))))
      (\<lambda>bs t. ?R t \<and> bs = ListBuckets (d_structure s)) (\<lambda>_. ?R)" for g lb
    by (intro hoare_frame keeps) (auto dest!: wrapE_InrD askStructure_Inr simp: withinD(1))
  have 3: "hoare ?R (gcBuckets S l (loc_BaseDir loc) (ListBuckets (d_structure s)) ([], []))
      (\<lambda>acc t. ?R t \<and> collected S s l (loc_BaseDir loc) acc) (\<lambda>_. ?R)"
    by (intro hoare_frame keeps) (auto dest!: gcBuckets_Inr simp: withinD(2) collected_def)
  have 4: "hoare (\<lambda>t. ?R t \<and> collected S s l (loc_BaseDir loc) acc) (gcDelete S (loc_BaseDir loc) acc) (\<lambda>_. ?I) (\<lambda>_. ?I)" for acc
    by (rule hoare_fact, rule hoare_pre [OF hoare_kept [OF del]]) (use quiet in blast)+
  have 5: "hoare (\<lambda>t. ?R t \<and> bs = ListBuckets (d_structure s))
      (bnd (gcBuckets S l (loc_BaseDir loc) bs ([], [])) (gcDelete S (loc_BaseDir loc))) (\<lambda>_. ?I) (\<lambda>_. ?I)" for bs
    by (rule hoare_fact, hypsubst, rule hoare_bnd [OF 4 hoare_post [OF 3]]) (use quiet in blast)+
  have 6: "hoare (\<lambda>t. ?R t \<and> x = loc) (bnd (wrapE g (askStructure S lb (\<lambda>d. Inr (ListBuckets d)))) (\<lambda>bs.
          bnd (gcBuckets S l (loc_BaseDir x) bs ([], [])) (gcDelete S (loc_BaseDir x)))) (\<lambda>_. ?I) (\<lambda>_. ?I)" for x g lb
    by (rule hoare_fact, hypsubst, rule hoare_bnd [OF 5 hoare_post [OF 2]]) (use quiet in blast)+
  have "hoare ?R (GarbageCollect S l) (\<lambda>_. ?I) (\<lambda>_. ?I)"
    unfolding GarbageCollect_def by (rule hoare_bnd [OF 6 hoare_post [OF 1]]) (use quiet in blast)+
  from hoare_both [OF this within_refl] show ?thesis .
qed

end

lemma indexOf_slash: "CHR ''/'' \<notin> set u \<Longrightarrow> indexOf (u @ ''/'' @ y) ''/'' = Some (length u)"
  by (induction u) (subst indexOf.simps, auto)+

lemma chunkUpload_part: "CHR ''/'' \<notin> set u \<Longrightarrow> pp \<noteq> [] \<Longrightarrow> chunkUpload pp (pp @ u @ ''/'' @ y) = Some u"
  using indexOf_slash [of u y] by (simp add: chunkUpload_def)

text \<open>A data file is under an entry of a prefix directory only if it is that entry.\<close>

lemma under_data:
  assumes "atOrUnder (base @ x @ ''/'' @ y) (base @ d @ ''/'' @ n)" and "n \<noteq> []"
    and "CHR ''/'' \<notin> set n" "CHR ''/'' \<notin> set d" "CHR ''/'' \<notin> set x" "CHR ''/'' \<notin> set y"
  shows "d = x \<and> n = y"
proof -
  from under_hasPrefix [OF assms(1)] obtain t where "x @ CHR ''/'' # y = d @ CHR ''/'' # n @ t"
    by (auto simp: hasPrefix_iff)
  from split_at [OF this assms(5,4)] have d: "d = x" by simp
  with assms(1) have "atOrUnder ((base @ x @ ''/'') @ y) ((base @ x @ ''/'') @ n)" by simp
  from under_entry1 [OF this assms(2,3,6)] d show ?thesis by simp
qed

section \<open>Properties\<close>

definition demoGC :: "demoWorld daemon" where
  "demoGC = demoState\<lparr>d_world := [(''/_data/ab/abc'', ''xyz''), (''/_data/ab/old'', ''o''),
       (''/_parts/u1/1'', ''p''), (''/_parts/u2/1'', ''c''), (''/_parts/u3/1'', ''d'')],
     d_bdb := [''b1'' \<mapsto> Inr (emptyBucketDB\<lparr>
       objects := [demoRow ''i1'' ''k1'', (demoRow ''i2'' ''k2'')\<lparr>obj_HashPath := []\<rparr>],
       object_chunks := [(''k2'', \<lparr>chk_PartNumber = 1, chk_Path = ''/_parts/u2/1'', chk_Size = 1, chk_MD5Hex = ''m''\<rparr>)],
       multipart_uploads := [\<lparr>mpu_ID = ''u1'', mpu_Key = ''k'', mpu_ContentType = [], mpu_Initiated = 1\<rparr>]\<rparr>)]\<rparr>"

lemma demoGC_facts:
  "GetLocation (d_structure demoGC) ''l'' = Inr (hd (webdav_locations demoStructure))"
  "loc_BaseDir (hd (webdav_locations demoStructure)) = ''/''"
  "bdbOf demoGC ''b1'' = emptyBucketDB\<lparr>
       objects := [demoRow ''i1'' ''k1'', (demoRow ''i2'' ''k2'')\<lparr>obj_HashPath := []\<rparr>],
       object_chunks := [(''k2'', \<lparr>chk_PartNumber = 1, chk_Path = ''/_parts/u2/1'', chk_Size = 1, chk_MD5Hex = ''m''\<rparr>)],
       multipart_uploads := [\<lparr>mpu_ID = ''u1'', mpu_Key = ''k'', mpu_ContentType = [], mpu_Initiated = 1\<rparr>]\<rparr>"
  "\<exists>b \<in> set (ListBuckets (d_structure demoGC)). bkt_ID b = ''b1'' \<and> bkt_WebDAVLocationID b = ''l''"
  "map_of (d_world demoGC) = [''/_data/ab/abc'' \<mapsto> ''xyz'', ''/_data/ab/old'' \<mapsto> ''o'', ''/_parts/u1/1'' \<mapsto> ''p'',
     ''/_parts/u2/1'' \<mapsto> ''c'', ''/_parts/u3/1'' \<mapsto> ''d'']"
  by (simp_all add: demoGC_def demoState_def demoStructure_def GetLocation_def selectOne_def scanLocation_def
      bdbOf_def ListBuckets_def scanBucket_def fun_upd_twist timeUnix_def)

lemma demoGC_runs: "\<exists>t. GarbageCollect demoSvc ''l'' demoGC = (Inr 2, t)
   \<and> map fst (d_world t) = [''/_data/ab/abc'', ''/_parts/u1/1'', ''/_parts/u2/1'']"
proof -
  have "case GarbageCollect demoSvc ''l'' demoGC of (r, t) \<Rightarrow>
      r = Inr 2 \<and> map fst (d_world t) = [''/_data/ab/abc'', ''/_parts/u1/1'', ''/_parts/u2/1'']" by code_simp
  then show ?thesis by (cases "GarbageCollect demoSvc ''l'' demoGC") simp
qed

text \<open>C14: garbage collection never removes the contents of an object. Whatever \<open>GarbageCollect\<close>
  returns, and whichever of its calls fail, a data file of the form \<open>Put\<close> writes
  (\<open>{baseDir}_data/xx/hash\<close>) that a complete object in a bucket of the location refers to is as it was.\<close>

theorem GarbageCollect_keeps_data:
  assumes "daemon_server S content" and "GetLocation (d_structure s) l = Inr loc"
    and "b \<in> set (ListBuckets (d_structure s))" "bkt_WebDAVLocationID b = l"
    and "r \<in> set (objects (bdbOf s (bkt_ID b)))" "obj_UploadComplete r"
    and q: "obj_HashPath r = loc_BaseDir loc @ ''_data/'' @ x @ ''/'' @ y"
    and "CHR ''/'' \<notin> set x" "CHR ''/'' \<notin> set y"
  shows "content (d_world (snd (GarbageCollect S l s))) (obj_HashPath r) = content (d_world s) (obj_HashPath r)"
proof (rule daemon_server.GarbageCollect_file [OF assms(1,2)], rule daemon_server.kept_gcDelete [OF assms(1)])
  fix acc :: "string list \<times> string list" and d n :: string
  assume "collected S s l (loc_BaseDir loc) acc"
  then have ref: "obj_HashPath r \<in> set (fst acc)" by (rule collected_data) (use assms(3-7) in simp_all)
  assume n: "n \<noteq> []" "CHR ''/'' \<notin> set n"
  show "\<not> atOrUnder (obj_HashPath r) ((loc_BaseDir loc @ ''_parts/'') @ n)"
    using under_hasPrefix by (fastforce simp: q hasPrefix_iff)
  assume d: "CHR ''/'' \<notin> set d" and no: "(loc_BaseDir loc @ ''_data/'') @ d @ ''/'' @ n \<notin> set (fst acc)"
  show "\<not> atOrUnder (obj_HashPath r) ((loc_BaseDir loc @ ''_data/'') @ d @ ''/'' @ n)"
  proof
    assume "atOrUnder (obj_HashPath r) ((loc_BaseDir loc @ ''_data/'') @ d @ ''/'' @ n)"
    then have "d = x \<and> n = y" using under_data [of "loc_BaseDir loc @ ''_data/''" x y d n] n d assms(8,9) by (simp add: q)
    with no ref show False by (simp add: q)
  qed
qed

theorem GarbageCollect_keeps_data_witness:
  "\<exists>t. GarbageCollect demoSvc ''l'' demoGC = (Inr 2, t) \<and> map_of (d_world t) ''/_data/ab/abc'' = Some ''xyz''
     \<and> ''/_data/ab/old'' \<notin> fst ` set (d_world t)"
proof -
  obtain t where t: "GarbageCollect demoSvc ''l'' demoGC = (Inr 2, t)"
    and fs: "map fst (d_world t) = [''/_data/ab/abc'', ''/_parts/u1/1'', ''/_parts/u2/1'']" using demoGC_runs by (elim exE conjE) (rule that)
  obtain b where b: "b \<in> set (ListBuckets (d_structure demoGC))" "bkt_WebDAVLocationID b = ''l''" "bkt_ID b = ''b1''"
    using demoGC_facts(4) by (elim bexE conjE) (rule that)
  have "map_of (d_world (snd (GarbageCollect demoSvc ''l'' demoGC))) (obj_HashPath (demoRow ''i1'' ''k1''))
      = map_of (d_world demoGC) (obj_HashPath (demoRow ''i1'' ''k1''))"
    by (rule GarbageCollect_keeps_data [OF demoDaemon_server demoGC_facts(1) b(1,2), where x = "''ab''" and y = "''abc''"])
      (simp_all add: b(3) demoGC_facts(2,3) demoRow_def)
  with t fs show ?thesis
    by (intro exI [of _ t]) (simp add: demoRow_def demoGC_facts(5) flip: set_map)
qed

text \<open>C15: garbage collection never removes a part of an active upload, nor, when reading the records of
  the bucket databases does not fail, a chunk of a complete object.\<close>

theorem GarbageCollect_keeps_parts:
  assumes "daemon_server S content" and "GetLocation (d_structure s) l = Inr loc"
    and "b \<in> set (ListBuckets (d_structure s))" "bkt_WebDAVLocationID b = l"
    and q: "q = loc_BaseDir loc @ ''_parts/'' @ u @ ''/'' @ y" and u: "CHR ''/'' \<notin> set u"
    and used: "u \<in> mpu_ID ` set (multipart_uploads (bdbOf s (bkt_ID b)))
      \<or> (readsObjects S \<and> (\<exists>r \<in> set (objects (bdbOf s (bkt_ID b))). obj_UploadComplete r \<and> obj_HashPath r = []
          \<and> q \<in> chk_Path ` set (loadChunks (bdbOf s (bkt_ID b)) (obj_Key r))))"
  shows "content (d_world (snd (GarbageCollect S l s))) q = content (d_world s) q"
proof (rule daemon_server.GarbageCollect_file [OF assms(1,2)], rule daemon_server.kept_gcDelete [OF assms(1)])
  fix acc :: "string list \<times> string list" and d n :: string
  let ?pp = "loc_BaseDir loc @ ''_parts/''"
  assume col: "collected S s l (loc_BaseDir loc) acc"
  have cu: "chunkUpload ?pp q = Some u" using chunkUpload_part [OF u, of ?pp y] by (simp add: q)
  have "u \<in> set (snd acc)"
    using used collected_upload [OF col assms(3,4)] collected_chunk [OF col assms(3,4)] cu by blast
  moreover assume n: "n \<noteq> []" "CHR ''/'' \<notin> set n"
  ultimately show "n \<notin> set (snd acc) \<Longrightarrow> \<not> atOrUnder q (?pp @ n)"
    using under_entry2 [OF _ n u, of ?pp y] by (auto simp: q)
  show "\<not> atOrUnder q ((loc_BaseDir loc @ ''_data/'') @ d @ ''/'' @ n)"
    using under_hasPrefix by (fastforce simp: q hasPrefix_iff)
qed

theorem GarbageCollect_keeps_parts_witness:
  "\<exists>t. GarbageCollect demoSvc ''l'' demoGC = (Inr 2, t) \<and> map_of (d_world t) ''/_parts/u2/1'' = Some ''c''
     \<and> ''/_parts/u3/1'' \<notin> fst ` set (d_world t)"
proof -
  obtain t where t: "GarbageCollect demoSvc ''l'' demoGC = (Inr 2, t)"
    and fs: "map fst (d_world t) = [''/_data/ab/abc'', ''/_parts/u1/1'', ''/_parts/u2/1'']" using demoGC_runs by (elim exE conjE) (rule that)
  obtain b where b: "b \<in> set (ListBuckets (d_structure demoGC))" "bkt_WebDAVLocationID b = ''l''" "bkt_ID b = ''b1''"
    using demoGC_facts(4) by (elim bexE conjE) (rule that)
  have "map_of (d_world (snd (GarbageCollect demoSvc ''l'' demoGC))) ''/_parts/u2/1'' = map_of (d_world demoGC) ''/_parts/u2/1''"
    by (rule GarbageCollect_keeps_parts [OF demoDaemon_server demoGC_facts(1) b(1,2), where u = "''u2''" and y = "''1''"])
      (simp_all add: b(3) demoGC_facts(2,3) demoRow_def loadChunks_def readsObjects_def
        demoSvc_def demoEnv_def ret_def)
  with t fs show ?thesis
    by (intro exI [of _ t]) (simp add: demoGC_facts(5) flip: set_map)
qed

definition unreadableSvc :: "demoWorld svc" where
  "unreadableSvc = demoSvc\<lparr>svc_env := demoEnv\<lparr>env_os := (\<lambda>l. if l = ''bdb.GetObject''
     then fail (ESQL (DBFail ''disk I/O error'')) else ret ())\<rparr>\<rparr>"

text \<open>When reading one record fails, collection goes on without the references of that object and
  reports success: the chunks of a complete object are deleted although its record stays.\<close>

theorem GarbageCollect_unreadable_loses_chunks:
  "\<exists>t. GarbageCollect unreadableSvc ''l'' demoGC = (Inr 3, t) \<and> map_of (d_world t) ''/_parts/u2/1'' = None
     \<and> bdbOf t ''b1'' = bdbOf demoGC ''b1'' \<and> loadChunks (bdbOf t ''b1'') ''k2''
       = [\<lparr>chk_PartNumber = 1, chk_Path = ''/_parts/u2/1'', chk_Size = 1, chk_MD5Hex = ''m''\<rparr>]"
proof -
  have "case GarbageCollect unreadableSvc ''l'' demoGC of (r, t) \<Rightarrow> r = Inr 3 \<and> map_of (d_world t) ''/_parts/u2/1'' = None
     \<and> bdbOf t ''b1'' = bdbOf demoGC ''b1'' \<and> loadChunks (bdbOf t ''b1'') ''k2''
       = [\<lparr>chk_PartNumber = 1, chk_Path = ''/_parts/u2/1'', chk_Size = 1, chk_MD5Hex = ''m''\<rparr>]" by code_simp
  then show ?thesis by (cases "GarbageCollect unreadableSvc ''l'' demoGC") auto
qed

end
