(* ===== verification/DaemonMain.thy ===== *)
theory DaemonMain
  imports Configuration GC
begin

text \<open>
  \<open>cmd/webdavs3/main.go\<close>: the daemon put together. The world of the services is the world outside
  with the client that is current (\<open>RefreshableClient\<close>), so that exchanging the client is a change of
  state like any other. \<open>daemonStep\<close> is one thing the running daemon does: serve a request, a tick
  of one of the two workers, or the initial directories; the handlers are atomic, so a run is an
  interleaving of them. The intervals of the workers, the HTTP timeouts and logging are not modelled.
\<close>

section \<open>The client of the moment\<close>

record 'w live =
  lv_world :: 'w
  lv_client :: "'w RefreshableClient"

definition inner :: "('w, 'a) act \<Rightarrow> ('w live, 'a) act" where
  "inner m s = (case m (lv_world s) of (r, w) \<Rightarrow> (r, s\<lparr>lv_world := w\<rparr>))"

definition viaLive :: "('w live \<Rightarrow> 'w Client) \<Rightarrow> ('w Client \<Rightarrow> ('w, 'a) act) \<Rightarrow> ('w live, 'a) act" where
  "viaLive pick m s = inner (m (pick s)) s"

definition liveClient :: "('w live \<Rightarrow> 'w Client) \<Rightarrow> 'w live Client" where
  "liveClient pick =
     \<lparr>cl_Upload = (\<lambda>p body size. viaLive pick (\<lambda>c. cl_Upload c p body size)),
      cl_Download = (\<lambda>p. viaLive pick (\<lambda>c. cl_Download c p)),
      cl_Delete = (\<lambda>p. viaLive pick (\<lambda>c. cl_Delete c p)),
      cl_MkdirAll = (\<lambda>p. viaLive pick (\<lambda>c. cl_MkdirAll c p)),
      cl_Exists = (\<lambda>p. viaLive pick (\<lambda>c. cl_Exists c p)),
      cl_Rename = (\<lambda>p q overwrite. viaLive pick (\<lambda>c. cl_Rename c p q overwrite)),
      cl_DownloadToFile = (\<lambda>p. viaLive pick (\<lambda>c. cl_DownloadToFile c p)),
      cl_UploadFromFile = (\<lambda>p data. viaLive pick (\<lambda>c. cl_UploadFromFile c p data)),
      cl_ReadDir = (\<lambda>p. viaLive pick (\<lambda>c. cl_ReadDir c p)),
      cl_ReadDirInfo = (\<lambda>p. viaLive pick (\<lambda>c. cl_ReadDirInfo c p)),
      cl_Ping = viaLive pick cl_Ping,
      cl_Stat = (\<lambda>p. viaLive pick (\<lambda>c. cl_Stat c p))\<rparr>"

definition currentWebDAV :: "'w live Client" where
  "currentWebDAV = liveClient (\<lambda>s. refreshable (lv_client s))"

definition liveEnv :: "'w env \<Rightarrow> 'w live env" where
  "liveEnv E =
     \<lparr>env_os = (\<lambda>l. inner (env_os E l)), env_now = inner (env_now E), env_rand = (\<lambda>n. inner (env_rand E n)),
      env_sleep = (\<lambda>d. inner (env_sleep E d)), env_ctxErr = (\<lambda>s. env_ctxErr E (lv_world s)),
      env_sha256 = env_sha256 E, env_md5 = env_md5 E,
      env_saveStructure = env_saveStructure E, env_openStructure = env_openStructure E,
      env_saveBucket = env_saveBucket E, env_openBucket = env_openBucket E,
      env_saveStats = env_saveStats E, env_openStats = env_openStats E\<rparr>"

text \<open>\<open>webdav.New\<close>, on the host and inside the daemon.\<close>

definition webdavNew :: "'w host \<Rightarrow> string \<Rightarrow> string \<Rightarrow> string \<Rightarrow> ('w, 'w Client) act" where
  "webdavNew H url username password =
     (case ho_gowebdav H url username password of (preemptive, negotiating) \<Rightarrow>
        bnd (NewClient preemptive negotiating) (\<lambda>g. ret (ClientImpl (env_os (ho_env H)) g)))"

definition locationClient :: "'w host \<Rightarrow> string \<Rightarrow> string \<Rightarrow> string \<Rightarrow> ('w live, 'w live Client) act" where
  "locationClient H url username password =
     bnd (inner (webdavNew H url username password)) (\<lambda>c. ret (liveClient (\<lambda>_. c)))"

section \<open>The services of a daemon\<close>

definition formatRFC3339 :: "gotime \<Rightarrow> string" where
  "formatRFC3339 t = formatRFC3339Nano (unixSec t * 1000000000)"

definition mainSvc :: "'w host \<Rightarrow> Config \<Rightarrow> 'w live svc" where
  "mainSvc H cfg =
     \<lparr>svc_env = liveEnv (ho_env H), svc_wdc = currentWebDAV, svc_cacheDir = cf_LocalCacheDir cfg,
      svc_cap = (if cf_BucketCacheSize cfg \<le> 0 then 50 else cf_BucketCacheSize cfg), svc_mp = True,
      svc_chunkThresholdBytes = i64 (i64 (cf_ChunkThresholdMB cfg * 1024) * 1024),
      svc_chunkSizeBytes = i64 (i64 (cf_ChunkSizeMB cfg * 1024) * 1024), svc_repair = True\<rparr>"

definition mainEngine :: "'w host \<Rightarrow> Config \<Rightarrow> string \<Rightarrow> 'w live engine" where
  "mainEngine H cfg daemonID =
     \<lparr>eng_svc = mainSvc H cfg, eng_daemonID = daemonID, eng_encryptionKey = cf_EncryptionKey cfg,
      eng_decryptPassword = Some (DecryptPassword (ho_cipher H)), eng_newLocationClient = locationClient H,
      eng_evictBucket = True\<rparr>"

definition setLive :: "'w RefreshableClient \<Rightarrow> ('w live daemon, unit) act" where
  "setLive c = onWorld (modify (\<lambda>s. s\<lparr>lv_client := SetClient (lv_client s) c\<rparr>))"

definition locationPassword :: "'w host \<Rightarrow> Config \<Rightarrow> Location \<Rightarrow> string" where
  "locationPassword H cfg loc =
     (if cf_EncryptionKey cfg = [] then []
      else case DecryptPassword (ho_cipher H) (loc_PasswordEnc loc) (cf_EncryptionKey cfg) of
             Inr password \<Rightarrow> password | Inl _ \<Rightarrow> [])"

definition refreshWebDAV :: "'w host \<Rightarrow> Config \<Rightarrow> ('w live daemon, unit) act" where
  "refreshWebDAV H cfg =
     bnd (listLocations (mainSvc H cfg)) (\<lambda>locs. case locs of
       [] \<Rightarrow> setLive (Some noopWebDAV)
     | loc # _ \<Rightarrow>
         bnd (onWorld (inner (webdavNew H (loc_URL loc) (loc_Username loc) (locationPassword H cfg loc)))) (\<lambda>c.
           setLive (Some (RetryClient (ho_env H) c 3 1000000000))))"

text \<open>The two callbacks: a call whose error is logged.\<close>

definition callback :: "('w daemon, unit) act \<Rightarrow> 'w daemon \<Rightarrow> 'w daemon" where
  "callback m s = snd (m s)"

definition flushStructure :: "'w host \<Rightarrow> Config \<Rightarrow> string \<Rightarrow> 'w live daemon \<Rightarrow> 'w live daemon" where
  "flushStructure H cfg daemonID = callback (FlushStructure (mainEngine H cfg daemonID))"

definition mainS3 :: "'w host \<Rightarrow> Config \<Rightarrow> string \<Rightarrow> 'w live s3deps" where
  "mainS3 H cfg daemonID =
     \<lparr>dp_svc = mainSvc H cfg, dp_region = cf_Region cfg, dp_flushStructure = Some (flushStructure H cfg daemonID),
      dp_decrypt = Some (\<lambda>ct. DecryptPassword (ho_cipher H) ct (cf_EncryptionKey cfg)),
      dp_decodeParts = ho_decodeParts H\<rparr>"

definition mainAdmin :: "'w host \<Rightarrow> Config \<Rightarrow> string \<Rightarrow> 'w live adminDeps" where
  "mainAdmin H cfg daemonID =
     \<lparr>ad_AdminPasswordHash = cf_AdminPasswordHash cfg, ad_AdminUsername = cf_AdminUsername cfg,
      ad_EncryptionKey = cf_EncryptionKey cfg, ad_svc = mainSvc H cfg,
      ad_SyncEngine = Some (SyncFromWebDAV (mainEngine H cfg daemonID)),
      ad_RefreshWebDAV = Some (callback (refreshWebDAV H cfg)),
      ad_FlushStructure = Some (flushStructure H cfg daemonID), ad_cipher = ho_cipher H,
      ad_bcryptCompare = ho_bcryptCompare H, ad_bcryptGenerate = (\<lambda>p. inner (ho_bcryptGenerate H p)),
      ad_randInt = (\<lambda>n. inner (ho_randInt H n)), ad_newClient = locationClient H\<rparr>"

definition mainWeb :: "'w host \<Rightarrow> Config \<Rightarrow> string \<Rightarrow> 'w live webDeps" where
  "mainWeb H cfg daemonID =
     \<lparr>wd_svc = mainSvc H cfg, wd_flush = Some (flushStructure H cfg daemonID),
      wd_bcrypt = ho_bcryptCompare H, wd_fuel = ho_fuel H\<rparr>"

definition mainProvision :: "'w host \<Rightarrow> Config \<Rightarrow> string \<Rightarrow> 'w live applyConfig" where
  "mainProvision H cfg daemonID =
     \<lparr>ac_FilePath = cf_ProvisionFile cfg, ac_EncryptionKey = cf_EncryptionKey cfg, ac_svc = mainSvc H cfg,
      ac_flush = Some (flushStructure H cfg daemonID), ac_RefreshWebDAV = Some (callback (refreshWebDAV H cfg)),
      ac_SyncEngine = Some (mainEngine H cfg daemonID), ac_cipher = ho_cipher H,
      ac_bcryptGenerate = (\<lambda>p. inner (ho_bcryptGenerate H p)),
      ac_readFile = (\<lambda>p. inner (bnd (ho_readFile H p) (\<lambda>f. case f of
        Some data \<Rightarrow> ret data | None \<Rightarrow> fail (ENew (''open '' @ p @ '': no such file or directory''))))),
      ac_yaml = ho_yamlDocument H,
      ac_statMarker = (\<lambda>p. inner (bnd (ho_stat H p) (\<lambda>f. ret (f \<noteq> None)))),
      ac_writeMarker = (\<lambda>p now. inner (ho_writeFile H p (formatRFC3339 now @ [CHR 0x0A]))),
      ac_order = ho_mapOrder H\<rparr>"

section \<open>Starting\<close>

text \<open>
  What the daemon finds on its disk is in the state it starts with; without a cache directory it
  starts with databases in memory, which are empty.
\<close>

definition openDatabases :: "'w host \<Rightarrow> Config \<Rightarrow> ('w live daemon, unit) act" where
  "openDatabases H cfg =
     thn (wrapE (wrapAs ''open stats.db'') (os (mainSvc H cfg) ''OpenStatsDB''))
    (thn (wrapE (wrapAs ''open structure.db'') (os (mainSvc H cfg) ''OpenStructureDB''))
    (modify (\<lambda>s. (if cf_LocalCacheDir cfg = []
        then s\<lparr>d_structure := emptyStructure, d_stats := emptyUsageDB, d_bdb := Map.empty\<rparr> else s)
        \<lparr>d_cache := [], d_repair := NewManager\<rparr>)))"

definition startDaemon :: "'w host \<Rightarrow> Config \<Rightarrow> ('w live daemon, string) act" where
  "startDaemon H cfg =
     thn (if cf_EncryptionKey cfg = []
          then fail (ENew ''encryption_key is required in config (must be a base64-encoded 32-byte AES-256 key)'') else ret ())
    (thn (if cf_LocalCacheDir cfg \<noteq> [] then wrapE (wrapAs ''create cache dir'') (os (mainSvc H cfg) ''MkdirAll'') else ret ())
    (bnd (wrapE (wrapAs ''daemon id'') (onWorld (inner (loadOrCreateDaemonID H (cf_LocalCacheDir cfg))))) (\<lambda>daemonID.
     thn (openDatabases H cfg)
    (thn (setLive (Some noopWebDAV))
    (thn (refreshWebDAV H cfg)
    (thn (wrapE (wrapAs ''startup provisioning'') (ApplyStartupProvisioning (mainProvision H cfg daemonID)))
         (ret daemonID)))))))"

definition initDirs :: "'w host \<Rightarrow> Config \<Rightarrow> ('w live daemon, unit) act" where
  "initDirs H cfg =
     bnd (listLocations (mainSvc H cfg)) (\<lambda>locs.
     let baseDir = (case locs of [] \<Rightarrow> ''/'' | loc # _ \<Rightarrow> loc_BaseDir loc) in
     forEach (\<lambda>dir. thn (attempt (wdc (mainSvc H cfg) (\<lambda>c. cl_MkdirAll c dir))) (ret ()))
       [baseDir @ ''_data/.tmp'', baseDir @ ''_parts'', baseDir @ ''_meta''])"

section \<open>Running\<close>

text \<open>
  The multiplexer of the second server: \<open>/admin/\<close> and everything below it is the administrator's,
  the rest is the users'; it sends \<open>/admin\<close> to \<open>/admin/\<close>.
\<close>

definition combinedRoute ::
  "'w host \<Rightarrow> Config \<Rightarrow> string \<Rightarrow> uiRequest \<Rightarrow> ('w live site, adminPage uiResponse + webPage uiResponse) act" where
  "combinedRoute H cfg daemonID r =
     (let segs = pathSegments (rq_EscapedPath (ur_req r)) in
      if segs = [''admin''] \<and> rq_Method (ur_req r) \<noteq> ''CONNECT''
      then ret (Inl (page 301 (AdminRedirect ''/admin/'')))
      else if hd segs = ''admin'' \<and> tl segs \<noteq> []
      then bnd (adminRoute (mainAdmin H cfg daemonID) r) (\<lambda>p. ret (Inl p))
      else bnd (webRoute (mainWeb H cfg daemonID) r) (\<lambda>p. ret (Inr p)))"

text \<open>The sync worker; a location that fails is logged.\<close>

definition syncTick :: "'w host \<Rightarrow> Config \<Rightarrow> string \<Rightarrow> ('w live daemon, unit) act" where
  "syncTick H cfg daemonID =
     bnd (listLocations (mainSvc H cfg)) (\<lambda>locs.
       forEach (\<lambda>loc. thn (attempt (SyncFromWebDAV (mainEngine H cfg daemonID) (loc_ID loc))) (ret ())) locs)"

definition statsTick :: "'w host \<Rightarrow> Config \<Rightarrow> string \<Rightarrow> ('w live daemon, unit) act" where
  "statsTick H cfg daemonID = thn (attempt (FlushStats (mainEngine H cfg daemonID))) (ret ())"

datatype daemonEvent =
    S3Request request
  | UIRequest uiRequest
  | SyncTick
  | StatsTick
  | InitDirs

fun daemonAct :: "'w host \<Rightarrow> Config \<Rightarrow> string \<Rightarrow> daemonEvent \<Rightarrow> ('w live site, unit) act" where
  "daemonAct H cfg i (S3Request r) = thn (onDaemon (NewRouter (mainS3 H cfg i) r)) (ret ())"
| "daemonAct H cfg i (UIRequest r) = thn (combinedRoute H cfg i r) (ret ())"
| "daemonAct H cfg i SyncTick = onDaemon (syncTick H cfg i)"
| "daemonAct H cfg i StatsTick = onDaemon (statsTick H cfg i)"
| "daemonAct H cfg i InitDirs = onDaemon (initDirs H cfg)"

text \<open>A handler that panics is recovered by the HTTP server: what it did until then stays.\<close>

inductive daemonStep :: "'w host \<Rightarrow> Config \<Rightarrow> string \<Rightarrow> 'w live site \<Rightarrow> 'w live site \<Rightarrow> bool"
  for H cfg i where
  happens: "daemonAct H cfg i e s = (r, t) \<Longrightarrow> daemonStep H cfg i s t"

inductive_cases daemonStepE: "daemonStep H cfg i s t"

definition shutdown :: "'w host \<Rightarrow> Config \<Rightarrow> string \<Rightarrow> ('w live daemon, unit) act" where
  "shutdown H cfg daemonID =
     thn (attempt (FlushStructure (mainEngine H cfg daemonID)))
    (thn (modify (\<lambda>s. s\<lparr>d_cache := []\<rparr>))
    (thn (attempt (FlushBucketDBs (mainEngine H cfg daemonID)))
    (thn (attempt (FlushStats (mainEngine H cfg daemonID))) (ret ()))))"

section \<open>The command \<open>gc\<close>\<close>

text \<open>The status \<open>localSQLiteStatus\<close> of \<open>inspect.go\<close> gives a local file; \<open>None\<close> is \<open>ok\<close>.\<close>

definition fileStatus :: "'w svc \<Rightarrow> (gerr + 'a) option \<Rightarrow> ('w daemon, string option) act" where
  "fileStatus S f =
     bnd (attempt (os S ''stat'')) (\<lambda>st. case st of
       Inl e \<Rightarrow> ret (Some (''stat failed: '' @ errText e))
     | Inr _ \<Rightarrow>
         (case f of
            None \<Rightarrow> ret (Some ''missing'')
          | Some db \<Rightarrow>
              bnd (attempt (os S ''integrity_check'')) (\<lambda>chk. ret (case chk of
                Inl e \<Rightarrow> Some (''corrupt: '' @ errText e)
              | Inr _ \<Rightarrow> (case db of Inl e \<Rightarrow> Some (''corrupt: '' @ errText e) | Inr _ \<Rightarrow> None)))))"

fun bucketsHealthy :: "'w svc \<Rightarrow> Bucket list \<Rightarrow> ('w daemon, unit) act" where
  "bucketsHealthy S [] = ret ()"
| "bucketsHealthy S (b # bs) =
     bnd (gets (\<lambda>s. d_bdb s (bkt_ID b))) (\<lambda>db.
     bnd (fileStatus S db) (\<lambda>status. case status of
       Some why \<Rightarrow> fail (ENew (''gc refused: local bucket metadata '' @ bkt_Name b @ '' ('' @ bkt_ID b
         @ '') is not healthy: '' @ why))
     | None \<Rightarrow> bucketsHealthy S bs))"

definition ensureGCLocalMetadataHealthy :: "'w svc \<Rightarrow> Bucket list \<Rightarrow> ('w daemon, unit) act" where
  "ensureGCLocalMetadataHealthy S bs =
     (if svc_cacheDir S = []
      then fail (ENew ''gc requires local_cache_dir so local metadata can be validated before deleting remote data'')
      else
        bnd (gets (\<lambda>s. Some (Inr (d_structure s) :: gerr + structureDB))) (\<lambda>db.
        bnd (fileStatus S db) (\<lambda>status. case status of
          Some why \<Rightarrow> fail (ENew (''gc refused: local structure.db is not healthy: '' @ why))
        | None \<Rightarrow> bucketsHealthy S bs)))"

definition gcSvc :: "'w host \<Rightarrow> Config \<Rightarrow> 'w Client \<Rightarrow> 'w svc" where
  "gcSvc H cfg c =
     \<lparr>svc_env = ho_env H, svc_wdc = c, svc_cacheDir = cf_LocalCacheDir cfg, svc_cap = 50, svc_mp = False,
      svc_chunkThresholdBytes = 0, svc_chunkSizeBytes = 0, svc_repair = False\<rparr>"

text \<open>One location; one that does not answer, or whose collection fails, is passed over.\<close>

definition gcLocation :: "'w host \<Rightarrow> Config \<Rightarrow> Location \<Rightarrow> ('w daemon, int) act" where
  "gcLocation H cfg loc =
     bnd (onWorld (webdavNew H (loc_URL loc) (loc_Username loc) (locationPassword H cfg loc))) (\<lambda>c.
     bnd (attempt (onWorld (cl_Ping c))) (\<lambda>p. case p of
       Inl _ \<Rightarrow> ret 0
     | Inr _ \<Rightarrow> bnd (attempt (GarbageCollect (gcSvc H cfg c) (loc_ID loc))) (\<lambda>r.
         ret (case r of Inl _ \<Rightarrow> 0 | Inr deleted \<Rightarrow> deleted))))"

fun gcLocations :: "'w host \<Rightarrow> Config \<Rightarrow> Location list \<Rightarrow> int \<Rightarrow> ('w daemon, int) act" where
  "gcLocations H cfg [] deleted = ret deleted"
| "gcLocations H cfg (loc # locs) deleted = bnd (gcLocation H cfg loc) (\<lambda>n. gcLocations H cfg locs (deleted + n))"

text \<open>
  The process has the local files, an empty ledger and an empty cache; \<open>proceed\<close> is whether the user
  answers yes. The result is the number of deleted files.
\<close>

definition runGC :: "'w host \<Rightarrow> string \<Rightarrow> bool \<Rightarrow> bool \<Rightarrow> ('w daemon, int) act" where
  "runGC H cfgPath force proceed =
     bnd (wrapE (wrapAs ''load config'') (onWorld (LoadConfig H cfgPath))) (\<lambda>cfg.
     let S = gcSvc H cfg noopWebDAV in
     thn (wrapE (wrapAs ''open structure.db'') (os S ''OpenStructureDB''))
    (thn (modify (\<lambda>s. if cf_LocalCacheDir cfg = [] then s\<lparr>d_structure := emptyStructure, d_bdb := Map.empty\<rparr> else s))
    (bnd (wrapE (wrapAs ''list locations'') (askStructure S ''structure.ListLocations'' (\<lambda>d. Inr (ListLocations d)))) (\<lambda>locs.
     thn (if locs = [] then fail (ENew (''no locations found in structure.db '' @ [CHR 0xE2, CHR 0x80, CHR 0x94]
            @ '' run the daemon first to populate it'')) else ret ())
    (bnd (wrapE (wrapAs ''list buckets'') (askStructure S ''structure.ListBuckets'' (\<lambda>d. Inr (ListBuckets d)))) (\<lambda>bs.
     thn (ensureGCLocalMetadataHealthy S bs)
    (thn (wrapE (wrapAs ''open stats'') (os S ''OpenStatsDB''))
    (thn (modify (\<lambda>s. s\<lparr>d_stats := emptyUsageDB, d_cache := []\<rparr>))
    (if \<not> force \<and> \<not> proceed then ret 0 else gcLocations H cfg locs 0)))))))))"

section \<open>The command \<open>provision dump\<close>\<close>

definition OpenDumpStructure :: "'w host \<Rightarrow> 'w svc \<Rightarrow> ('w daemon, structureDB) act" where
  "OpenDumpStructure H S =
     (if svc_cacheDir S = [] then fail (ENew ''local_cache_dir is required for provision dump'')
      else let path = pathJoin [svc_cacheDir S, ''structure.db''] in
        bnd (wrapE (wrapAs ''stat structure.db'') (onWorld (ho_stat H path))) (\<lambda>st. case st of
          None \<Rightarrow> fail (ENew (''structure.db not found at '' @ path))
        | Some info \<Rightarrow>
            if fi_IsDir info then fail (ENew (''structure.db path is a directory: '' @ path))
            else thn (wrapE (wrapAs ''open structure.db'') (os S ''OpenStructureDB'')) (gets d_structure)))"

definition runProvisionDump :: "'w host \<Rightarrow> string \<Rightarrow> (string \<Rightarrow> gerr option) \<Rightarrow> ('w daemon, Document) act" where
  "runProvisionDump H cfgPath dbError =
     bnd (wrapE (wrapAs ''load config'') (onWorld (LoadConfig H cfgPath))) (\<lambda>cfg.
     if cf_EncryptionKey cfg = [] then fail (ENew ''encryption_key is required for provision dump'')
     else
       bnd (OpenDumpStructure H (gcSvc H cfg noopWebDAV)) (\<lambda>db.
         wrapE (wrapAs ''dump provisioning'')
           (liftE (Dump \<lparr>dc_EncryptionKey = cf_EncryptionKey cfg, dc_cipher = ho_cipher H, dc_dbError = dbError\<rparr> db))))"

end
