(* ===== verification/DaemonInv.thy ===== *)
theory DaemonInv
  imports DaemonMain
begin

text \<open>
  What the handlers can do to the state of a daemon. The locale \<open>daemon_invariant\<close> lists the moves the
  handlers are made of: calls to the world, steps of the structure database and of a bucket database,
  opening a bucket, the ledger, the cache, the repair manager, and a local file replaced by one that
  opens. A predicate on states that every move keeps is kept by every handler, worker and command,
  whatever fails on the way; the locale proves this once, and the properties interpret it.
\<close>

locale daemon_invariant =
  fixes S :: "'w svc" and I :: "'w daemon \<Rightarrow> bool"
  assumes world: "I s \<Longrightarrow> I (s\<lparr>d_world := w\<rparr>)"
    and restructured: "I s \<Longrightarrow> structureStep (d_structure s) d \<Longrightarrow> I (s\<lparr>d_structure := d\<rparr>)"
    and bucket: "I s \<Longrightarrow> bucketStep (bdbOf s i) b \<Longrightarrow> I (setBdb s i b)"
    and opened: "I s \<Longrightarrow> d_bdb s i = None \<or> svc_cacheDir S = [] \<Longrightarrow> I (setBdb s i emptyBucketDB)"
    and delta: "I s \<Longrightarrow> AddDelta (d_stats s) now l u bid n c = Inr db \<Longrightarrow> I (s\<lparr>d_stats := db\<rparr>)"
    and merged: "I s \<Longrightarrow> MergeFromFile (d_stats s) src f m = Inr db \<Longrightarrow> I (s\<lparr>d_stats := db\<rparr>)"
    and cached: "I s \<Longrightarrow> I (s\<lparr>d_cache := snd (lruGet (svc_cap S) (d_cache s) i)\<rparr>)"
    and uncached: "I s \<Longrightarrow> I (s\<lparr>d_cache := lruRemove (d_cache s) i\<rparr>)"
    and repaired: "I s \<Longrightarrow> I (s\<lparr>d_repair := repairApply (d_repair s) ev\<rparr>)"
    and gone: "I s \<Longrightarrow> I (s\<lparr>d_bdb := (d_bdb s)(i := None)\<rparr>)"
    and restored: "I s \<Longrightarrow> I t \<Longrightarrow> I (t\<lparr>d_bdb := (d_bdb t)(i := d_bdb s i)\<rparr>)"
    and replaced: "I s \<Longrightarrow> env_openBucket (svc_env S) x = Inr b \<Longrightarrow> I (s\<lparr>d_bdb := (d_bdb s)(i \<mapsto> Inr b)\<rparr>)"

context daemon_invariant
begin

section \<open>The calls of the services\<close>

lemma inv_world [keeps]: "kept I (onWorld m)"
  by (rule keptI) (simp add: onWorld_def world split: prod.split)

lemma inv_calls [keeps]:
  "kept I (os S' l)" "kept I (wdc S' c)" "kept I (timeNow S')" "kept I (newUUID S')" "kept I (onClient cl m)" "kept I (eos E l)"
  unfolding os_def wdc_def timeNow_def newUUID_def onClient_def eos_def by (intro keeps)+

lemma inv_ask [keeps]: "kept I (askStructure S' l f)" "kept I (askBucket S' i l g)" "kept I (askRemote E l x)"
  unfolding askStructure_def askBucket_def askRemote_def by (intro keeps | simp add: kept_def)+

lemma inv_change:
  "(\<And>d d'. f d = Inr d' \<Longrightarrow> structureStep d d') \<Longrightarrow> kept I (changeStructure S' l f)"
  unfolding changeStructure_def by (intro keeps) (auto simp: kept_def restructured split: sum.split)

lemma inv_changes [keeps]:
  "kept I (changeStructure S' l (\<lambda>d. AddLocation d loc))" "kept I (changeStructure S' l (\<lambda>d. Inr (UpdateLocation d loc)))"
  "kept I (changeStructure S' l (\<lambda>d. DeleteLocation d i))" "kept I (changeStructure S' l (\<lambda>d. AddUser d u))"
  "kept I (changeStructure S' l (\<lambda>d. UpdateUser d u))" "kept I (changeStructure S' l (\<lambda>d. DeleteUser d i))"
  "kept I (changeStructure S' l (\<lambda>d. Inr (SetUserEnabled d i e)))"
  "kept I (changeStructure S' l (\<lambda>d. Inr (SetUserWebPasswordAndEnc d i h p)))"
  "kept I (changeStructure S' l (\<lambda>d. AddBucket d b))" "kept I (changeStructure S' l (\<lambda>d. Inr (UpdateBucket d b)))"
  "kept I (changeStructure S' l (\<lambda>d. DeleteBucketRow d n))"
  by (rule inv_change; auto intro: structureStep.intros)+

lemma inv_changeBucket:
  "(\<And>d d'. f d = Inr d' \<Longrightarrow> bucketStep d d') \<Longrightarrow> kept I (changeBucket S' i l f)"
  unfolding changeBucket_def by (intro keeps) (auto simp: kept_def bucket split: sum.split)

lemma inv_changeBuckets [keeps]:
  "kept I (changeBucket S' i l (\<lambda>b. PutObject b obj))" "kept I (changeBucket S' i l (\<lambda>b. DeleteObject b key))"
  "kept I (changeBucket S' i l (\<lambda>b. CreateMultipartUpload b up))" "kept I (changeBucket S' i l (\<lambda>b. Inr (AddPart b p)))"
  "kept I (changeBucket S' i l (\<lambda>b. CompleteMultipartUpload b k obj))"
  "kept I (changeBucket S' i l (\<lambda>b. Inr (AbortMultipartUpload b k)))"
  by (rule inv_changeBucket; auto intro: bucketStep.intros)+

lemma inv_addDelta [keeps]: "kept I (addDelta S' l u b n c)"
  unfolding addDelta_def by (intro keeps) (auto simp: kept_def delta split: sum.split)

lemma inv_cache [keeps]: "kept I (cacheGet S i)" "kept I (cacheRemove i)"
proof -
  have "kept I (openBucket S i)"
    unfolding openBucket_def by (intro keeps) (auto simp: kept_def opened split: option.split sum.split)
  then show "kept I (cacheGet S i)" unfolding cacheGet_def by (intro keeps kept_modify cached)
  show "kept I (cacheRemove i)" unfolding cacheRemove_def by (intro kept_modify uncached)
qed

lemma inv_repair [keeps]: "kept I (markRepairing S' i r)" "kept I (checkWriteAllowed S' i)"
proof -
  have "I s \<Longrightarrow> I (s\<lparr>d_repair := snd (MarkRepairing (d_repair s) i r)\<rparr>)" for s
    using repaired [of s "RRepairing i r"] by simp
  then show "kept I (markRepairing S' i r)" unfolding markRepairing_def by (intro keeps kept_modify)
  show "kept I (checkWriteAllowed S' i)" unfolding checkWriteAllowed_def by (intro keeps) (simp add: kept_def)
qed

lemma inv_sync [keeps]: "kept I (syncBucketDB S' i base)" "kept I (syncOrRepair S' i base g)"
  unfolding syncOrRepair_def syncBucketDB_def by (intro keeps)+

section \<open>Objects and uploads\<close>

lemma inv_lookups [keeps]:
  "kept I (bucketByName S' n)" "kept I (locationOf S' bk)" "kept I (openCached S i)" "kept I (findBucket S' n)"
  unfolding bucketByName_def locationOf_def openCached_def findBucket_def by (intro keeps)+

lemma inv_deletePaths [keeps]: "kept I (deletePaths S' ps)"
  by (induction ps) (auto intro!: keeps)

lemma inv_uploads [keeps]:
  "kept I (Create S bn key ct)" "kept I (UploadPart S bn key uid pn sz body)" "kept I (Complete S bn key uid parts)"
  "kept I (Abort S bn uid)" "kept I (ListUploads S bn)" "kept I (mpListParts S bn uid)"
  unfolding Create_def UploadPart_def uploadPartDirect_def Complete_def Abort_def ListUploads_def mpListParts_def
  by (intro keeps)+

lemma inv_putParts [keeps]: "kept I (putParts S bn key uid cs pn data acc)"
proof (induction data arbitrary: pn acc rule: length_induct)
  case (1 data)
  have "kept I (putParts S bn key uid cs p (drop cs data) a)" if "\<not> (data = [] \<or> cs = 0)" for p a
    using 1 that by simp
  then show ?case by (subst putParts.simps) (intro keeps)
qed

lemma inv_Put [keeps]: "kept I (Put S bn key ct body)"
  unfolding Put_def putChunked_def by (intro keeps)

lemma inv_downloadChunks [keeps]: "kept I (downloadChunks S' cs)"
  by (induction cs) (auto intro!: keeps)

lemma inv_reads [keeps]:
  "kept I (lookupObject S bn key)" "kept I (Get S bn key)" "kept I (Head S bn key)" "kept I (objectList S bn pre del tok mk)"
  unfolding lookupObject_def Get_def getChunked_def Head_def objectList_def by (intro keeps)+

lemma inv_referencedElsewhere [keeps]: "kept I (referencedElsewhere S hp bk bs)"
  by (induction bs) (auto intro!: keeps)

lemma inv_Delete [keeps]: "kept I (Delete S bn key)"
  unfolding Delete_def maybeDeleteDataFile_def by (intro keeps)

section \<open>Buckets\<close>

definition flushKeeps :: "('w daemon \<Rightarrow> 'w daemon) option \<Rightarrow> bool" where
  "flushKeeps fl \<longleftrightarrow> (\<forall>f s. fl = Some f \<longrightarrow> I s \<longrightarrow> I (f s))"

lemma inv_runFlush [keeps]: "flushKeeps fl \<Longrightarrow> kept I (runFlush fl)"
  unfolding runFlush_def flushKeeps_def by (intro keeps kept_modify) auto

lemma inv_buckets [keeps]:
  "flushKeeps fl \<Longrightarrow> kept I (CreateBucket S fl n o' l)" "flushKeeps fl \<Longrightarrow> kept I (DeleteBucket S fl n)"
  "kept I (svcListBuckets S' o')"
  unfolding CreateBucket_def DeleteBucket_def svcListBuckets_def by (intro keeps; assumption?)+

section \<open>Collection and sync\<close>

lemma inv_gcObjects [keeps]: "kept I (gcObjects S i pp objs acc)"
  by (induction objs arbitrary: acc) (auto intro!: keeps split: sum.split)

lemma inv_gcBuckets [keeps]: "kept I (gcBuckets S l base bs acc)"
  by (induction bs arbitrary: acc) (auto intro!: keeps)

lemma inv_gcSweep [keeps]: "kept I (gcSweep S dir keep ns n)"
  by (induction ns arbitrary: n) (auto intro!: keeps)

lemma inv_gcData [keeps]: "kept I (gcData S dir refs ps n)"
  by (induction ps arbitrary: n) (auto intro!: keeps simp: Let_def)

lemma inv_GarbageCollect [keeps]: "kept I (GarbageCollect S l)"
  unfolding GarbageCollect_def gcDelete_def by (intro keeps)

lemma inv_primaryBaseDir [keeps]: "kept I (primaryBaseDir E)" "kept I (clientForLocation E loc)"
  unfolding primaryBaseDir_def clientForLocation_def by (intro keeps)+

lemma inv_mergeLocations [keeps]: "kept I (mergeLocations E target ls locs m)"
  by (induction locs arbitrary: m) (auto intro!: keeps split: option.split)

lemma inv_mergeUsers [keeps]: "kept I (mergeUsers E us)"
  by (induction us) (auto intro!: keeps)

lemma inv_mergeBuckets [keeps]: "kept I (mergeBuckets E m bs)"
  by (induction bs) (auto intro!: keeps simp: Let_def)

lemma inv_mergeStructure [keeps]: "kept I (mergeStructure E remote target)"
  unfolding mergeStructure_def by (intro keeps)

lemma inv_local_files:
  assumes "eng_svc E = S"
  shows "kept I (validateBytes E x)" "kept I (validateLocal E i)" "kept I (openLocal E i)" "kept I (statLocal E i)"
proof -
  note open_local = opened [of _ i]
  show "kept I (validateBytes E x)" "kept I (statLocal E i)"
    unfolding validateBytes_def statLocal_def by (intro keeps)+
  show "kept I (validateLocal E i)" "kept I (openLocal E i)"
    unfolding validateLocal_def openLocal_def
    by (intro keeps; auto simp: kept_def open_local split: option.split sum.split)+
qed

lemma inv_evict [keeps]: "kept I (evict E i)"
  unfolding evict_def by (intro keeps)

lemma inv_exportBucketDBForRepair:
  assumes "eng_svc E = S" shows "kept I (saveBucketDBFile E i)" "kept I (exportBucketDBForRepair E i)"
  unfolding exportBucketDBForRepair_def saveBucketDBFile_def exportSQLiteReadOnly_def
  by (intro keeps inv_local_files assms; auto simp: kept_def split: option.split sum.split)+

lemma inv_repairRemote: "eng_svc E = S \<Longrightarrow> kept I (repairRemoteBucketDB E c i base)"
  unfolding repairRemoteBucketDB_def by (intro keeps inv_local_files inv_exportBucketDBForRepair; assumption)

lemma inv_markIf [keeps]:
  "kept I (markIf E (\<lambda>m. snd (MarkRepairing m i r)))" "kept I (markIf E (\<lambda>m. MarkDegraded m i r))"
  "kept I (markIf E (\<lambda>m. MarkHealthy m i))"
  using repaired [of _ "RRepairing i r"] repaired [of _ "RDegraded i r"] repaired [of _ "RHealthy i"]
  unfolding markIf_def repairApply.simps by (intro keeps kept_modify; blast)+

lemma inv_repairFromLocal: "eng_svc E = S \<Longrightarrow> kept I (repairFromLocal E c i base err)"
  unfolding repairFromLocal_def by (intro keeps inv_repairRemote)

text \<open>A file that is replaced: the new one opens, and what is put back was there before.\<close>

lemma inv_setLocal:
  "env_openBucket (svc_env S) x = Inr b \<Longrightarrow> kept I (setLocal i (Some (Inr b)))" "kept I (setLocal i None)"
  "I s \<Longrightarrow> kept I (setLocal i (d_bdb s i))"
  unfolding setLocal_def by (intro kept_modify; auto intro: replaced gone restored)+

lemma kept_gets_dep: "(\<And>s. I s \<Longrightarrow> kept I (f (g s))) \<Longrightarrow> kept I (bnd (gets g) f)"
  by (auto simp: kept_def bnd_def gets_def)

lemma inv_replaceFile:
  assumes "eng_svc E = S" and "env_openBucket (svc_env S) x = Inr b"
  shows "kept I (replaceFile E i b)"
  unfolding replaceFile_def
  by (intro keeps kept_gets_dep inv_setLocal(1) [OF assms(2)] inv_setLocal(2,3) inv_local_files assms(1); assumption)

lemma inv_syncBucket: "eng_svc E = S \<Longrightarrow> kept I (syncBucket E c base i)"
proof -
  assume E: "eng_svc E = S"
  have "kept I (bnd (liftE (env_openBucket (svc_env S) x)) (replaceFile E i))" for x
    using inv_replaceFile [OF E] by (cases "env_openBucket (svc_env S) x") (auto simp: kept_def bnd_def liftE_def)
  note replace = kept_wrapE [OF this]
  show ?thesis unfolding syncBucket_def E
    by (intro replace kept_thn kept_bnd kept_attempt kept_case_sum kept_if kept_ret kept_fail | intro keeps inv_local_files [OF E] inv_repairFromLocal [OF E])+
qed

lemma inv_syncBuckets: "eng_svc E = S \<Longrightarrow> kept I (syncBuckets E c m t base bs)"
  by (induction bs) (auto intro!: keeps inv_syncBucket)

lemma inv_syncStats [keeps]: "kept I (syncStats E c m dir ns)"
proof -
  have "kept I (mergeStats E x n m)" for x n
    unfolding mergeStats_def by (intro keeps) (auto simp: kept_def merged split: sum.split)
  then show ?thesis by (induction ns) (auto intro!: keeps)
qed

lemma inv_SyncFromWebDAV: "eng_svc E = S \<Longrightarrow> kept I (SyncFromWebDAV E l)"
  unfolding SyncFromWebDAV_def syncBucketDBs_def syncStatsDBs_def by (intro keeps inv_syncBuckets)

lemma inv_FindRemoteLocationID [keeps]: "kept I (FindRemoteLocationID E l)"
  unfolding FindRemoteLocationID_def by (intro keeps)

lemma inv_flushBuckets: "eng_svc E = S \<Longrightarrow> kept I (flushBuckets E bs)"
  by (induction bs) (auto intro!: keeps inv_local_files)

lemma inv_flushes [keeps]: "kept I (FlushStructure E)" "kept I (FlushStats E)"
  unfolding FlushStructure_def FlushStats_def statsFlush_def by (intro keeps)+

lemma inv_FlushBucketDBs: "eng_svc E = S \<Longrightarrow> kept I (FlushBucketDBs E)"
  unfolding FlushBucketDBs_def by (intro keeps inv_flushBuckets)

end

end
