(* ===== verification/S3Facts.thy ===== *)
theory S3Facts
  imports S3Api
begin

text \<open>
  Who can do what through the HTTP interface, and that an object sent through it comes back. The
  daemon has a cache directory and its client meets the contract of \<open>Server\<close>.
\<close>

section \<open>A request that changes nothing\<close>

definition untouched :: "('w \<Rightarrow> string \<rightharpoonup> bytes) \<Rightarrow> 'w daemon \<Rightarrow> 'w daemon \<Rightarrow> bool" where
  "untouched content s t \<longleftrightarrow> (\<exists>w. t = s\<lparr>d_world := w\<rparr> \<and> content w = content (d_world s))"

lemma untouched_refl [simp]: "untouched content s s"
  unfolding untouched_def by (rule exI [of _ "d_world s"]) simp

lemma untouched_trans: "untouched content s t \<Longrightarrow> untouched content t u \<Longrightarrow> untouched content s u"
  by (auto simp: untouched_def)

lemma untouched_structure: "untouched content s t \<Longrightarrow> d_structure t = d_structure s"
  by (auto simp: untouched_def)

lemma untouched_world: "content w = content (d_world s) \<Longrightarrow> untouched content s (s\<lparr>d_world := w\<rparr>)"
  by (auto simp: untouched_def)

lemma untouched_step: "quiet content m \<Longrightarrow> untouched content s (snd (onWorld m s))"
  by (auto simp: onWorld_def split: prod.split intro!: untouched_world dest: quietD)

lemma untouched_onWorld: "quiet content m \<Longrightarrow> kept (untouched content s) (onWorld m)"
  using untouched_step untouched_trans by (blast intro: keptI)

text \<open>A refusal: an error document with a status of the client's making.\<close>

definition refused :: "gerr + response \<Rightarrow> bool" where
  "refused r \<longleftrightarrow> (case r of
     Inl e \<Rightarrow> aborts e
   | Inr rs \<Rightarrow> 400 \<le> rs_Status rs \<and> rs_Status rs < 500 \<and> (\<exists>c m i. rs_Body rs = ErrorResponse c m i))"

lemma attempt_InlD: "attempt m s = (Inl e, t) \<Longrightarrow> m s = (Inl e, t) \<and> aborts e"
  by (auto simp: attempt_def split: prod.splits sum.splits if_splits)

context daemon_server
begin

abbreviation "unchanged s \<equiv> untouched content s"

lemma unchanged_calls:
  "kept (unchanged s) (os S l)" "kept (unchanged s) (timeNow S)" "kept (unchanged s) (askStructure S l f)"
  "kept (unchanged s) (onWorld (env_rand (svc_env S) k))"
  unfolding os_def timeNow_def askStructure_def
  by (intro keeps untouched_onWorld env_quiet | simp add: kept_def)+

lemma requireBucketOwner_other:
  assumes "rc_svc H = S" and b: "GetBucket (d_structure s) bn = Inr bkt" "bkt_OwnerUserID bkt \<noteq> usr_ID (rc_user H)"
    and r: "requireBucketOwner H bn k s = (r, t)"
  shows "unchanged s t \<and> refused r"
proof -
  let ?ask = "attempt (askStructure S ''structure.GetBucket'' (\<lambda>d. GetBucket d bn))"
  obtain x u where a: "?ask s = (x, u)" by (cases "?ask s")
  have u: "unchanged s u"
    using keptD [OF kept_attempt [OF unchanged_calls(3)] untouched_refl, of s] a by (metis snd_conv)
  show ?thesis
  proof (cases x)
    case (Inl e)
    with a have "aborts e" using attempt_InlD [of _ s e u] by blast
    with Inl a r u assms(1) show ?thesis by (auto simp: requireBucketOwner_def refused_def)
  next
    case (Inr y)
    with attempt_InrD [of _ s y u] a have q: "askStructure S ''structure.GetBucket'' (\<lambda>d. GetBucket d bn) s = (y, u)" by simp
    have "y = Inr bkt \<or> (\<exists>e. y = Inl e)"
      using askStructure_Inr [of S _ "\<lambda>d. GetBucket d bn" s _ u] q b(1) by (cases y) auto
    with Inr a r b(2) u assms(1) show ?thesis
      by (auto simp: requireBucketOwner_def s3err_def WriteS3Error_def refused_def ret_def)
  qed
qed

end

text \<open>Every handler but the two that name no existing bucket starts with the ownership check.\<close>

definition owned :: "'w reqCtx \<Rightarrow> ('w daemon, response) act \<Rightarrow> bool" where
  "owned H m \<longleftrightarrow> (\<exists>k. m = requireBucketOwner H (pathBucket (rc_req H)) k)
     \<or> m = s3err H ''MethodNotAllowed'' ''The specified method is not allowed against this resource.'' 405"

lemma owned_check: "owned H (requireBucketOwner H (pathBucket (rc_req H)) k)"
  by (auto simp: owned_def)

lemma owned_handlers:
  "owned H (handleDeleteBucket H (pathBucket (rc_req H)))"
  "owned H (handleListMultipartUploads H (pathBucket (rc_req H)))"
  "owned H (handleListObjects H (pathBucket (rc_req H)))"
  "owned H (handleCreateMultipartUpload H (pathBucket (rc_req H)) key)"
  "owned H (handleUploadPart H (pathBucket (rc_req H)) key)"
  "owned H (handleCompleteMultipartUpload H (pathBucket (rc_req H)) key)"
  "owned H (handleAbortMultipartUpload H (pathBucket (rc_req H)) key)"
  "owned H (handleListParts H (pathBucket (rc_req H)) key)"
  "owned H (handlePutObject H (pathBucket (rc_req H)) key)"
  "owned H (handleGetObject H (pathBucket (rc_req H)) key)"
  "owned H (handleDeleteObject H (pathBucket (rc_req H)) key)"
  "owned H (handleHeadObject H (pathBucket (rc_req H)) key)"
  "owned H (s3err H ''MethodNotAllowed'' ''The specified method is not allowed against this resource.'' 405)"
  unfolding handleDeleteBucket_def handleListMultipartUploads_def handleListObjects_def
    handleCreateMultipartUpload_def handleUploadPart_def handleCompleteMultipartUpload_def handleAbortMultipartUpload_def
    handleListParts_def handlePutObject_def handleGetObject_def handleDeleteObject_def handleHeadObject_def
  by (rule owned_check)+ (simp add: owned_def)

lemma owned_if: "(b \<Longrightarrow> owned H m) \<Longrightarrow> (\<not> b \<Longrightarrow> owned H n) \<Longrightarrow> owned H (if b then m else n)"
  by simp

lemma dispatch_owned:
  assumes "pathBucket (rc_req H) \<noteq> []"
    and "\<not> (rq_Method (rc_req H) = ''PUT'' \<and> pathKey (rc_req H) = [] \<and> \<not> queryHas (rc_req H) ''partNumber'')"
  shows "owned H (dispatch H)"
  unfolding dispatch_def Let_def using assms
  by - (intro owned_if owned_handlers; blast)

section \<open>Who the request acts for\<close>

text \<open>The secret \<open>authMiddleware\<close> checks a signature with.\<close>

definition storedSecret :: "'w s3deps \<Rightarrow> User \<Rightarrow> gerr + string" where
  "storedSecret D user =
     (case dp_decrypt D of
        Some decrypt \<Rightarrow> if usr_SecretKeyEnc user \<noteq> [] then decrypt (usr_SecretKeyEnc user) else Inr (usr_SecretKeyHash user)
      | None \<Rightarrow> Inr (usr_SecretKeyHash user))"

text \<open>The request carries the signature of its contents under the secret of that user.\<close>

definition signedBy :: "'w s3deps \<Rightarrow> structureDB \<Rightarrow> request \<Rightarrow> User \<Rightarrow> bool" where
  "signedBy D d r user \<longleftrightarrow> (\<exists>ak secret credential signedHeaders date rest.
     GetUserByAccessKey d ak = Inr user \<and> storedSecret D user = Inr secret
     \<and> parseAuthHeader (headerGet r ''Authorization'') =
         Inr (credential, signedHeaders, signatureOf (authVerifier D) r secret date signedHeaders)
     \<and> splitN 5 (CHR ''/'') credential = [ak, date, dp_region D, ''s3'', rest])"

lemma kept_capturing: "kept I m \<Longrightarrow> kept (\<lambda>p. I (fst p)) (capturing m)"
  by (auto simp: kept_def capturing_def split: prod.split)

lemma kept_capture: "kept (\<lambda>p. I (fst p)) (capture x)"
  by (auto simp: kept_def capture_def)

lemma lookupSecret_Inr:
  assumes "lookupSecret D ak (s, k) = (Inr secret, u)"
  shows "\<exists>user. GetUserByAccessKey (d_structure s) ak = Inr user \<and> storedSecret D user = Inr secret"
proof -
  from assms obtain user p where u: "capturing (lookupUser D ak) (s, k) = (Inr user, p)"
    and r: "(case dp_decrypt D of
         Some decrypt \<Rightarrow> if usr_SecretKeyEnc user \<noteq> [] then bnd (liftE (decrypt (usr_SecretKeyEnc user))) capture
           else capture (usr_SecretKeyHash user)
       | None \<Rightarrow> capture (usr_SecretKeyHash user)) p = (Inr secret, u)"
    unfolding lookupSecret_def by (rule bnd_InrE)
  have "GetUserByAccessKey (d_structure s) ak = Inr user"
    using u by (auto simp: capturing_def lookupUser_def dest!: askStructure_Inr split: prod.splits)
  moreover have "storedSecret D user = Inr secret"
    using r by (cases p) (auto simp: storedSecret_def capture_def liftE_def elim!: bnd_InrE split: option.splits if_splits)
  ultimately show ?thesis by blast
qed

context daemon_server
begin

lemma lookup_unchanged:
  assumes "dp_svc D = S"
  shows "kept (unchanged s) (lookupUser D ak)" "kept (\<lambda>p. unchanged s (fst p)) (lookupSecret D ak)"
    "kept (\<lambda>p. unchanged s (fst p)) (vf_now (authVerifier D))"
  unfolding lookupSecret_def lookupUser_def authVerifier_def verifier.simps assms
  by (intro keeps kept_capturing kept_capture unchanged_calls)+

lemma Verify_signedBy:
  assumes "dp_svc D = S" and "Verify (authVerifier D) r (lookupSecret D) (s, []) = (x, (t, k))"
  shows "unchanged s t" and "x = Inr ak \<Longrightarrow> GetUserByAccessKey (d_structure s) ak = Inr user \<Longrightarrow> signedBy D (d_structure s) r user"
proof -
  have "kept (\<lambda>p. unchanged s (fst p)) (Verify (authVerifier D) r (lookupSecret D))"
    by (rule Verify_kept [OF lookup_unchanged(2,3) [OF assms(1)]])
  from keptD' [OF this _ assms(2)] show "unchanged s t" by simp
  assume x: "x = Inr ak" and g: "GetUserByAccessKey (d_structure s) ak = Inr user"
  from Verify_accepted [OF assms(2) [unfolded x]] obtain credential signedHeaders date rest secret s1 where
    v: "parseAuthHeader (headerGet r ''Authorization'') =
        Inr (credential, signedHeaders, signatureOf (authVerifier D) r secret date signedHeaders)"
      "splitN 5 (CHR ''/'') credential = [ak, date, vf_region (authVerifier D), vf_service (authVerifier D), rest]"
    and l: "lookupSecret D ak (s, []) = (Inr secret, s1)" by blast
  from lookupSecret_Inr [OF l] g have "storedSecret D user = Inr secret" by simp
  with v g show "signedBy D (d_structure s) r user" unfolding signedBy_def by (auto simp: authVerifier_def)
qed

lemma authMiddleware_runs:
  assumes D: "dp_svc D = S" and "authMiddleware D reqID r next s = (x, t)"
  shows "unchanged s t \<and> (\<forall>rs. x = Inr rs \<longrightarrow> rs_Status rs \<noteq> 200)
    \<or> (\<exists>user sig u. unchanged s u \<and> signedBy D (d_structure s) r user \<and> usr_Enabled user \<and> next user sig u = (x, t))"
proof -
  obtain v u k where v: "Verify (authVerifier D) r (lookupSecret D) (s, []) = (v, (u, k))"
    by (cases "Verify (authVerifier D) r (lookupSecret D) (s, [])") auto
  note sb = Verify_signedBy [OF D v]
  show ?thesis
  proof (cases v)
    case (Inl e)
    with assms(2) v sb(1) show ?thesis
      by (auto simp: authMiddleware_def bnd_def attempt_def ret_def authError_def WriteS3Error_def split: if_splits)
  next
    case (Inr ak)
    obtain y u' where q: "lookupUser D ak u = (y, u')" by (cases "lookupUser D ak u")
    from keptD' [OF lookup_unchanged(1) [OF D] sb(1) q] have u': "unchanged s u'" .
    show ?thesis
    proof (cases y)
      case (Inl e)
      with assms(2) v q Inr u' show ?thesis
        by (auto simp: authMiddleware_def bnd_def attempt_def ret_def WriteS3Error_def split: if_splits)
    next
      case (Inr user)
      with q have "GetUserByAccessKey (d_structure s) ak = Inr user"
        using askStructure_Inr [of "dp_svc D" "''structure.GetUserByAccessKey''" "\<lambda>d. GetUserByAccessKey d ak" u user u']
          untouched_structure [OF sb(1)] unfolding lookupUser_def by simp
      from sb(2) [OF \<open>v = Inr ak\<close> this] assms(2) v q Inr \<open>v = Inr ak\<close> u' show ?thesis
        by (auto simp: authMiddleware_def bnd_def attempt_def ret_def WriteS3Error_def split: if_splits)
    qed
  qed
qed

text \<open>What the request comes to: nothing, or its dispatch for the user that signed it.\<close>

lemma NewRouter_runs:
  assumes D: "dp_svc D = S" and "NewRouter D r s = (x, t)"
  shows "unchanged s t \<and> (\<forall>rs. x = Inr rs \<longrightarrow> rs_Status rs \<noteq> 200)
    \<or> (\<exists>user sig reqID u y. unchanged s u \<and> signedBy D (d_structure s) r user \<and> usr_Enabled user
        \<and> dispatch \<lparr>rc_deps = D, rc_reqID = reqID, rc_user = user, rc_sig = sig, rc_req = r\<rparr> u = (y, t)
        \<and> x = map_sum id (\<lambda>rs. rs\<lparr>rs_Header := (''X-Amz-Request-Id'', reqID) # rs_Header rs\<rparr>) y)"
proof (cases "rq_Method r \<noteq> ''CONNECT'' \<and> cleanPath (rq_EscapedPath r) \<noteq> rq_EscapedPath r")
  case True
  with assms(2) show ?thesis by (auto simp: NewRouter_def ret_def emptyResponse_def)
next
  case False
  let ?rand = "onWorld (env_rand (svc_env S) 16)"
  obtain b u where b: "?rand s = (b, u)" by (cases "?rand s")
  have u: "unchanged s u" using keptD' [OF unchanged_calls(4) untouched_refl b] .
  show ?thesis
  proof (cases "\<exists>e. b = Inl e \<and> aborts e")
    case True
    with b u assms False show ?thesis by (auto simp: NewRouter_def requestIDMiddleware_def bnd_def attempt_def D)
  next
    case no: False
    define reqID where "reqID = hexEncode (case b of Inr b \<Rightarrow> b | Inl _ \<Rightarrow> replicate 16 (CHR 0x00))"
    let ?chain = "authMiddleware D reqID r (\<lambda>user sig.
        dispatch \<lparr>rc_deps = D, rc_reqID = reqID, rc_user = user, rc_sig = sig, rc_req = r\<rparr>)"
    have a: "attempt ?rand s = (Inr b, u)" using b no by (cases b) (auto simp: attempt_def)
    obtain y where y: "?chain u = (y, t)" and x: "x = map_sum id (\<lambda>rs. rs\<lparr>rs_Header := (''X-Amz-Request-Id'', reqID) # rs_Header rs\<rparr>) y"
      using assms(2) False a [folded D]
      by (auto simp: NewRouter_def requestIDMiddleware_def reqID_def Let_def bnd_def ret_def split: prod.splits sum.splits)
    from authMiddleware_runs [OF D y] show ?thesis
    proof (elim disjE exE conjE)
      assume "unchanged u t" and s: "\<forall>rs. y = Inr rs \<longrightarrow> rs_Status rs \<noteq> 200"
      with u have "unchanged s t" by (blast intro: untouched_trans)
      moreover have "\<forall>rs. x = Inr rs \<longrightarrow> rs_Status rs \<noteq> 200" using s unfolding x by (cases y) auto
      ultimately show ?thesis by blast
    next
      fix user sig u'
      assume a: "unchanged u u'" "signedBy D (d_structure u) r user" "usr_Enabled user"
        and d: "dispatch \<lparr>rc_deps = D, rc_reqID = reqID, rc_user = user, rc_sig = sig, rc_req = r\<rparr> u' = (y, t)"
      have "unchanged s u'" using untouched_trans [OF u a(1)] .
      moreover have "signedBy D (d_structure s) r user" using a(2) untouched_structure [OF u] by simp
      ultimately show ?thesis using a(3) d x by blast
    qed
  qed
qed

end

section \<open>An object through the interface\<close>

lemma untouched_within: "untouched content s t \<Longrightarrow> within content {} {} s t"
  by (auto simp: untouched_def within_def)

lemma dispatch_put:
  "rq_Method (rc_req H) = ''PUT'' \<Longrightarrow> pathKey (rc_req H) \<noteq> [] \<Longrightarrow> \<not> queryHas (rc_req H) ''partNumber'' \<Longrightarrow>
   dispatch H = handlePutObject H (pathBucket (rc_req H)) (pathKey (rc_req H))"
  by (simp add: dispatch_def)

lemma dispatch_get:
  "rq_Method (rc_req H) = ''GET'' \<Longrightarrow> pathBucket (rc_req H) \<noteq> [] \<Longrightarrow> pathKey (rc_req H) \<noteq> [] \<Longrightarrow>
   \<not> queryHas (rc_req H) ''uploadId'' \<Longrightarrow>
   dispatch H = handleGetObject H (pathBucket (rc_req H)) (pathKey (rc_req H))"
  by (simp add: dispatch_def)

context daemon_server
begin

lemma requireBucketOwner_200:
  assumes "rc_svc H = S" and "requireBucketOwner H bn k s = (Inr rs, t)" and "rs_Status rs = 200"
  shows "\<exists>bkt u. unchanged s u \<and> k bkt u = (Inr rs, t)"
proof -
  let ?ask = "attempt (askStructure S ''structure.GetBucket'' (\<lambda>d. GetBucket d bn))"
  from assms(2) obtain x u where a: "?ask s = (Inr x, u)"
    and k: "(case x of Inl _ \<Rightarrow> s3err H ''NoSuchBucket'' ''The specified bucket does not exist.'' 404
       | Inr bkt \<Rightarrow> if bkt_OwnerUserID bkt \<noteq> usr_ID (rc_user H) then s3err H ''AccessDenied'' ''Access Denied.'' 403
           else k bkt) u = (Inr rs, t)"
    unfolding requireBucketOwner_def assms(1) by (rule bnd_InrE)
  have "unchanged s u" using keptD' [OF kept_attempt [OF unchanged_calls(3)] untouched_refl a] .
  moreover from k assms(3) obtain bkt where "k bkt u = (Inr rs, t)"
    by (cases x) (auto simp: s3err_def WriteS3Error_def ret_def split: if_splits)
  ultimately show ?thesis by blast
qed

lemma kept_quotaCheck: "kept (unchanged s) (quotaCheck S l n)"
  unfolding quotaCheck_def by (intro keeps unchanged_calls) (simp add: kept_def)

lemma handlePutObject_200:
  assumes H: "rc_svc H = S" and "handlePutObject H bn key s = (Inr rs, t)" and ok: "rs_Status rs = 200"
  shows "\<exists>u obj. unchanged s u \<and> Put S bn key (contentTypeOf (rc_req H)) (maybeAWSChunkedBody H) u = (Inr obj, t)
    \<and> rs_Header rs = [(''ETag'', obj_ETag obj)]"
proof -
  from requireBucketOwner_200 [OF H assms(2) [unfolded handlePutObject_def H] ok] obtain bkt :: Bucket and u where
    u: "unchanged s u"
    and m: "bnd (if rq_ContentLength (rc_req H) > 0
          then bnd (attempt (quotaCheck S (bkt_WebDAVLocationID bkt) (rq_ContentLength (rc_req H)))) (\<lambda>r.
                 ret (case r of Inl e \<Rightarrow> IsExceeded e | Inr _ \<Rightarrow> False))
          else ret False) (\<lambda>exceeded.
     if exceeded then s3err H ''QuotaExceeded'' ''Storage quota exceeded.'' (StatusForCode ''QuotaExceeded'')
     else
       bnd (attempt (Put S bn key (contentTypeOf (rc_req H)) (maybeAWSChunkedBody H))) (\<lambda>r. case r of
         Inl e \<Rightarrow> unavailable H e (s3err H ''InternalError'' (errText e) 500)
       | Inr obj \<Rightarrow> ret (emptyResponse 200 [(''ETag'', obj_ETag obj)]))) u = (Inr rs, t)" (is "bnd ?q ?f u = _")
    by (elim exE conjE) (rule that)
  from m obtain b v where q: "?q u = (Inr b, v)" and f: "?f b v = (Inr rs, t)" by (rule bnd_InrE)
  have "kept (unchanged s) ?q" by (intro keeps kept_quotaCheck)
  from keptD' [OF this u q] have v: "unchanged s v" .
  have "\<not> b" using f ok by (auto simp: s3err_def WriteS3Error_def ret_def StatusForCode_def s3ErrorStatus_def)
  with f obtain r where p: "attempt (Put S bn key (contentTypeOf (rc_req H)) (maybeAWSChunkedBody H)) v = (Inr r, t)"
    and r: "rs = (case r of Inl e \<Rightarrow> rs | Inr obj \<Rightarrow> emptyResponse 200 [(''ETag'', obj_ETag obj)])"
    and e: "\<forall>e. r \<noteq> Inl e" using ok
    by (auto simp: unavailable_def s3err_def WriteS3Error_def ret_def StatusForCode_def s3ErrorStatus_def
        elim!: bnd_InrE split: sum.splits if_splits)
  from e obtain obj where "r = Inr obj" by (cases r) auto
  with attempt_InrD [OF p] r v show ?thesis by (auto simp: emptyResponse_def)
qed

lemma handleGetObject_200:
  assumes H: "rc_svc H = S" and "handleGetObject H bn key s = (Inr rs, t)" and ok: "rs_Status rs = 200"
  shows "\<exists>u obj data. unchanged s u \<and> Get S bn key u = (Inr (obj, data), t)
    \<and> rs_Body rs = Contents data \<and> rs_Header rs = objectHeaders obj"
proof -
  from requireBucketOwner_200 [OF H assms(2) [unfolded handleGetObject_def H] ok] obtain u where
    u: "unchanged s u"
    and m: "bnd (attempt (Get S bn key)) (\<lambda>r. case r of
       Inl e \<Rightarrow> noSuchKey H
     | Inr (obj, data) \<Rightarrow> ret \<lparr>rs_Status = 200, rs_Header = objectHeaders obj, rs_Body = Contents data\<rparr>) u = (Inr rs, t)"
    by blast
  from m ok obtain obj data where "attempt (Get S bn key) u = (Inr (Inr (obj, data)), t)"
    and "rs = \<lparr>rs_Status = 200, rs_Header = objectHeaders obj, rs_Body = Contents data\<rparr>"
    by (auto simp: noSuchKey_def s3err_def WriteS3Error_def ret_def elim!: bnd_InrE split: sum.splits)
  with attempt_InrD u show ?thesis by fastforce
qed

text \<open>A router that answers 200 has dispatched.\<close>

lemma NewRouter_200:
  assumes D: "dp_svc D = S" and "NewRouter D r s = (Inr rs, t)" and "rs_Status rs = 200"
  shows "\<exists>H u rs' reqID. unchanged s u \<and> rc_deps H = D \<and> rc_req H = r \<and> dispatch H u = (Inr rs', t)
    \<and> rs_Status rs' = 200 \<and> rs_Body rs = rs_Body rs' \<and> rs_Header rs = (''X-Amz-Request-Id'', reqID) # rs_Header rs'"
proof -
  from NewRouter_runs [OF assms(1,2)] assms(3) obtain user sig reqID u y where
    u: "unchanged s u" and d: "dispatch \<lparr>rc_deps = D, rc_reqID = reqID, rc_user = user, rc_sig = sig, rc_req = r\<rparr> u = (y, t)"
    and x: "Inr rs = map_sum id (\<lambda>rs. rs\<lparr>rs_Header := (''X-Amz-Request-Id'', reqID) # rs_Header rs\<rparr>) y" by auto
  from x obtain rs' where "y = Inr rs'" "rs = rs'\<lparr>rs_Header := (''X-Amz-Request-Id'', reqID) # rs_Header rs'\<rparr>"
    by (cases y) auto
  with d u assms(3) show ?thesis
    by (intro exI [of _ "\<lparr>rc_deps = D, rc_reqID = reqID, rc_user = user, rc_sig = sig, rc_req = r\<rparr>"] exI [of _ u]
        exI [of _ rs'] exI [of _ reqID]) simp
qed

lemma put_then_get:
  assumes D: "dp_svc D = S" and ch: "\<not> chunked S data"
    and put: "rq_Method r = ''PUT''" "pathKey r \<noteq> []" "\<not> queryHas r ''partNumber''" "\<not> isChunkedBody r" "rq_Body r = (data, None)"
    and get: "rq_Method r' = ''GET''" "pathBucket r' \<noteq> []" "\<not> queryHas r' ''uploadId''" "rq_Path r' = rq_Path r"
    and p: "NewRouter D r s = (Inr rs, s1)" "rs_Status rs = 200"
    and g: "NewRouter D r' s1 = (Inr rs', s2)" "rs_Status rs' = 200"
  shows "rs_Body rs' = Contents data
     \<and> map_of (rs_Header rs) ''ETag'' = Some (quoted (hexEncode (env_md5 (svc_env S) data)))
     \<and> map_of (rs_Header rs') ''ETag'' = map_of (rs_Header rs) ''ETag''
     \<and> map_of (rs_Header rs') ''Content-Length'' = Some (fmtD (int (length data)))"
proof -
  have path: "pathBucket r' = pathBucket r" "pathKey r' = pathKey r" using get(4) by (simp_all add: pathBucket_def pathKey_def)
  from NewRouter_200 [OF D p] obtain H u q i where
    H: "rc_deps H = D" "rc_req H = r" and d: "dispatch H u = (Inr q, s1)" "rs_Status q = 200"
    and q: "rs_Header rs = (''X-Amz-Request-Id'', i) # rs_Header q" by blast
  have "handlePutObject H (pathBucket r) (pathKey r) u = (Inr q, s1)" using d(1) put dispatch_put [of H] H by simp
  from handlePutObject_200 [OF _ this d(2)] H D obtain v obj ct where
    o: "Put S (pathBucket r) (pathKey r) ct (maybeAWSChunkedBody H) v = (Inr obj, s1)" and qh: "rs_Header q = [(''ETag'', obj_ETag obj)]"
    by auto
  have body: "maybeAWSChunkedBody H = (data, None)" using put H by (simp add: maybeAWSChunkedBody_def)
  from NewRouter_200 [OF D g] obtain H' u' q' i' where
    w: "unchanged s1 u'" and H': "rc_deps H' = D" "rc_req H' = r'" and d': "dispatch H' u' = (Inr q', s2)" "rs_Status q' = 200"
    and q': "rs_Body rs' = rs_Body q'" "rs_Header rs' = (''X-Amz-Request-Id'', i') # rs_Header q'" by blast
  have "handleGetObject H' (pathBucket r) (pathKey r) u' = (Inr q', s2)" using d'(1) put(2) get path dispatch_get [of H'] H' by simp
  from handleGetObject_200 [OF _ this d'(2)] H' D obtain v' obj' data' where
    w': "unchanged u' v'" and o': "Get S (pathBucket r) (pathKey r) v' = (Inr (obj', data'), s2)"
    and qb: "rs_Body q' = Contents data'" "rs_Header q' = objectHeaders obj'" by auto
  have "within content {} {} s1 v'" by (rule untouched_within [OF untouched_trans [OF w w']])
  from Put_Get [OF daemon_server_axioms ch o [unfolded body] this o'] qh qb q q' show ?thesis
    by (simp add: objectHeaders_def storedObject_def objectRow_def scanObject_def)
qed

end

section \<open>Requests to try things on\<close>

text \<open>The daemon of \<open>ObjectFacts\<close> with its user, at five seconds past the epoch.\<close>

definition demoUser :: User where
  "demoUser = \<lparr>usr_ID = ''u'', usr_AccessKey = ''AK'', usr_SecretKeyHash = ''secret'', usr_SecretKeyEnc = [], usr_WebPasswordHash = [],
     usr_WebPasswordEnc = [], usr_DisplayName = ''U'', usr_Enabled = True, usr_CreatedAt = 0\<rparr>"

definition demoApi :: "demoWorld daemon" where
  "demoApi = demoState\<lparr>d_structure := (d_structure demoState)\<lparr>users := [demoUser]\<rparr>\<rparr>"

definition demoDeps :: "demoWorld s3deps" where
  "demoDeps = \<lparr>dp_svc = demoSvc, dp_region = ''us-east-1'', dp_flushStructure = None, dp_decrypt = None, dp_decodeParts = (\<lambda>_. Inr [])\<rparr>"

abbreviation "demoAuth \<equiv> authVerifier demoDeps"

definition demoPlain :: "string \<Rightarrow> bytes \<Rightarrow> request" where
  "demoPlain m body = \<lparr>rq_Method = m, rq_Host = ''h'', rq_URLHost = [], rq_Path = ''/first/k'', rq_EscapedPath = ''/first/k'',
     rq_Query = [], rq_Header = [(''X-Amz-Date'', [''19700101T000005Z''])], rq_Body = (body, None), rq_ContentLength = int (length body)\<rparr>"

definition demoSigned :: "string \<Rightarrow> bytes \<Rightarrow> request" where
  "demoSigned m body = (demoPlain m body)\<lparr>rq_Header := (''Authorization'',
     [authorization demoAuth ''AK'' ''19700101'' ''host'' (signatureOf demoAuth (demoPlain m body) ''secret'' ''19700101'' ''host'')])
     # rq_Header (demoPlain m body)\<rparr>"

lemma demoSigned_fields [simp]:
  "rq_Method (demoSigned m body) = m" "rq_Path (demoSigned m body) = ''/first/k''" "rq_EscapedPath (demoSigned m body) = ''/first/k''"
  "rq_Query (demoSigned m body) = []" "rq_Body (demoSigned m body) = (body, None)" "rq_ContentLength (demoSigned m body) = int (length body)"
  by (simp_all add: demoSigned_def demoPlain_def)

lemma demoSigned_headers [simp]:
  "headerGet (demoSigned m body) ''x-amz-date'' = ''19700101T000005Z''" "headerGet (demoSigned m body) ''x-amz-content-sha256'' = []"
  "headerGet (demoSigned m body) ''Content-Type'' = []" "headerGet (demoSigned m body) ''Content-Encoding'' = []"
  "headerGet (demoSigned m body) ''Authorization'' =
     authorization demoAuth ''AK'' ''19700101'' ''host'' (signatureOf demoAuth (demoPlain m body) ''secret'' ''19700101'' ''host'')"
  by (simp_all add: headerGet_def demo_keys demoSigned_def demoPlain_def)

lemma demoPlain_headers:
  "headerGet (demoPlain m body) ''x-amz-date'' = ''19700101T000005Z''" "headerGet (demoPlain m body) ''x-amz-content-sha256'' = []"
  by (simp_all add: headerGet_def demo_keys demoPlain_def)

text \<open>The header that carries the signature is not signed.\<close>

lemma demo_signatureOf: "signatureOf demoAuth (demoSigned m body) sk d ''host'' = signatureOf demoAuth (demoPlain m body) sk d ''host''"
proof -
  have "canonicalHeader (demoSigned m body) ''host'' = canonicalHeader (demoPlain m body) ''host''"
    by (simp add: canonicalHeader_def demoSigned_def)
  moreover have "buildCanonicalQueryString (demoSigned m body) = buildCanonicalQueryString (demoPlain m body)"
    by (simp add: buildCanonicalQueryString_def demoPlain_def)
  ultimately have "buildCanonicalRequest (demoSigned m body) ''host'' = buildCanonicalRequest (demoPlain m body) ''host''"
    by (simp add: buildCanonicalRequest_def demoPlain_headers Let_def) (simp add: demoPlain_def)
  then show ?thesis by (simp add: signatureOf_def stringToSign_def demoPlain_headers)
qed

lemma demo_epoch: "parseAmzDate ''19700101T000005Z'' = Some 5000000000"
  by (simp only: parseAmzDate_def) (simp add: date_defs, simp add: hasPrefix_def fraction_def, simp add: daysIn_def, simp add: unixDays_def)

lemma demo_lookup:
  assumes "users (d_structure s) = [demoUser]"
  shows "lookupUser demoDeps ''AK'' s = (Inr demoUser, s)" "lookupSecret demoDeps ''AK'' (s, []) = (Inr ''secret'', (s, ''secret''))"
proof -
  show u: "lookupUser demoDeps ''AK'' s = (Inr demoUser, s)"
    using assms by (simp add: lookupUser_def askStructure_def os_def onWorld_def demoDeps_def demoSvc_def demoEnv_def act_defs
      GetUserByAccessKey_def selectOne_def scanUser_def demoUser_def timeUnix_def)
  show "lookupSecret demoDeps ''AK'' (s, []) = (Inr ''secret'', (s, ''secret''))"
    by (simp add: lookupSecret_def bnd_def capturing_def u) (simp add: demoDeps_def capture_def demoUser_def)
qed

lemma demo_signed:
  assumes "users (d_structure s) = [demoUser]"
  shows "Verify demoAuth (demoSigned m body) (lookupSecret demoDeps) (s, []) = (Inr ''AK'', (s, ''secret''))"
proof (rule Verify_accepts [where date = "''19700101''" and sh = "''host''" and secret = "''secret''" and u = "(s, ''secret'')"
      and now = 5000000000 and stamp = 5000000000])
  show "lookupSecret demoDeps ''AK'' (s, []) = (Inr ''secret'', (s, ''secret''))" by (rule demo_lookup [OF assms])
  show "field ''19700101''" by code_simp
  show "field (vf_region demoAuth)" "field (vf_service demoAuth)"
    using demo_fields_ok by (simp_all add: authVerifier_def demoDeps_def)
  show "\<forall>x. length (vf_sha256 demoAuth x) = 32" by (simp add: authVerifier_def demoDeps_def demoSvc_def demoEnv_def min_def)
  show "vf_now demoAuth (s, ''secret'') = (Inr 5000000000, (s, ''secret''))"
    by (simp add: authVerifier_def demoDeps_def demoSvc_def demoEnv_def capturing_def timeNow_def onWorld_def ret_def)
qed (simp_all add: demo_signatureOf demo_fields_ok demo_epoch window_def verifyPayloadHash_def payloadExempt_def)

definition demoCtx :: "string \<Rightarrow> bytes \<Rightarrow> demoWorld reqCtx" where
  "demoCtx m body = \<lparr>rc_deps = demoDeps, rc_reqID = hexEncode (replicate 16 (CHR ''r'')), rc_user = demoUser,
     rc_sig = sigContextOf demoDeps (demoSigned m body) ''secret'', rc_req = demoSigned m body\<rparr>"

lemma demoCtx_fields [simp]:
  "rc_deps (demoCtx m body) = demoDeps" "rc_user (demoCtx m body) = demoUser" "rc_req (demoCtx m body) = demoSigned m body"
  by (simp_all add: demoCtx_def)

lemma demo_router:
  assumes "users (d_structure s) = [demoUser]" and "m \<noteq> ''CONNECT''"
  shows "NewRouter demoDeps (demoSigned m body) s = bnd (dispatch (demoCtx m body))
     (\<lambda>rs. ret (rs\<lparr>rs_Header := (''X-Amz-Request-Id'', hexEncode (replicate 16 (CHR ''r''))) # rs_Header rs\<rparr>)) s"
proof -
  have c: "cleanPath ''/first/k'' = ''/first/k''" by code_simp
  have r: "onWorld (env_rand (svc_env (dp_svc demoDeps)) 16) s = (Inr (replicate 16 (CHR ''r'')), s)"
    by (simp add: onWorld_def demoDeps_def demoSvc_def demoEnv_def ret_def)
  have e: "usr_Enabled demoUser" by (simp add: demoUser_def)
  show ?thesis
    by (simp add: NewRouter_def c requestIDMiddleware_def bnd_def attempt_def r authMiddleware_def demo_signed [OF assms(1)]
        demo_lookup [OF assms(1)] e demoCtx_def Let_def)
qed


lemma demo_path: "pathBucket (demoSigned m body) = ''first''" "pathKey (demoSigned m body) = ''k''"
proof -
  have "splitN 2 (CHR ''/'') (trimPrefix ''/first/k'' ''/'') = [''first'', ''k'']" by code_simp
  then show "pathBucket (demoSigned m body) = ''first''" "pathKey (demoSigned m body) = ''k''"
    by (simp_all add: pathBucket_def pathKey_def)
qed

lemma demo_put_get:
  "\<exists>rs t rs' u. handlePutObject (demoCtx ''PUT'' ''abc'') ''first'' ''k'' demoApi = (Inr rs, t) \<and> rs_Status rs = 200
     \<and> d_structure t = d_structure demoApi
     \<and> handleGetObject (demoCtx ''GET'' []) ''first'' ''k'' t = (Inr rs', u) \<and> rs_Status rs' = 200"
proof -
  have c: "maybeAWSChunkedBody (demoCtx m body) = (body, None)" for m body
    by (simp add: maybeAWSChunkedBody_def isChunkedBody_def)
  have ct: "contentTypeOf (demoSigned m body) = ''application/octet-stream''" for m body
    by (simp add: contentTypeOf_def)
  show ?thesis
    by (simp add: handlePutObject_def handleGetObject_def requireBucketOwner_def c ct put_defs get_defs run_defs demoApi_def
        demoUser_def demoDeps_def emptyResponse_def quotaCheck_def Check_def GetTotalUsage_def deltasOf_def i64_def)
qed

lemma demoDeps_server [simp]: "daemon_server (dp_svc demoDeps) map_of" "dp_svc demoDeps = demoSvc"
  by (simp_all add: demoDeps_def)

lemma demo_router_runs:
  assumes "users (d_structure s) = [demoUser]" and "m \<noteq> ''CONNECT''" and "dispatch (demoCtx m body) s = (Inr q, t)"
  shows "\<exists>rs. NewRouter demoDeps (demoSigned m body) s = (Inr rs, t) \<and> rs_Status rs = rs_Status q"
  by (simp add: demo_router [OF assms(1,2)] bnd_Inr [where m = "dispatch (demoCtx m body)", OF assms(3)] ret_def)

lemma demo_api_run:
  "\<exists>rs t rs' u. NewRouter demoDeps (demoSigned ''PUT'' ''abc'') demoApi = (Inr rs, t) \<and> rs_Status rs = 200
     \<and> NewRouter demoDeps (demoSigned ''GET'' []) t = (Inr rs', u) \<and> rs_Status rs' = 200"
proof -
  have s: "users (d_structure demoApi) = [demoUser]" by (simp add: demoApi_def)
  from demo_put_get obtain q t q' u where
    p: "handlePutObject (demoCtx ''PUT'' ''abc'') ''first'' ''k'' demoApi = (Inr q, t)" "rs_Status q = 200"
    and d: "d_structure t = d_structure demoApi"
    and g: "handleGetObject (demoCtx ''GET'' []) ''first'' ''k'' t = (Inr q', u)" "rs_Status q' = 200"
    by (elim exE conjE) (rule that)
  have "dispatch (demoCtx ''PUT'' ''abc'') demoApi = (Inr q, t)"
    using p by (simp add: dispatch_put demo_path queryHas_def)
  from demo_router_runs [OF s _ this] p(2) obtain rs where
    r: "NewRouter demoDeps (demoSigned ''PUT'' ''abc'') demoApi = (Inr rs, t)" "rs_Status rs = 200" by auto
  have "dispatch (demoCtx ''GET'' []) t = (Inr q', u)"
    using g by (simp add: dispatch_get demo_path queryHas_def)
  from demo_router_runs [OF _ _ this] s d g(2) obtain rs' where
    "NewRouter demoDeps (demoSigned ''GET'' []) t = (Inr rs', u)" "rs_Status rs' = 200" by auto
  with r show ?thesis by blast
qed

text \<open>The same request for a bucket of the user's, sent by somebody else.\<close>

lemma demo_owner:
  "\<exists>bkt. GetBucket (d_structure demoState) ''first'' = Inr bkt \<and> bkt_OwnerUserID bkt = ''u''"
  by (simp add: GetBucket_def selectOne_def scanBucket_def demoState_def)

section \<open>Properties\<close>

text \<open>C23: no request reaches into another user's bucket. Whatever the method, key and parameters, except
  the creation of a bucket, a request of an authenticated user for a bucket that belongs to someone
  else is answered by an error document, and no database, file or cache entry has changed.\<close>

theorem dispatch_other_owner:
  assumes "daemon_server (rc_svc H) content" and "pathBucket (rc_req H) \<noteq> []"
    and "GetBucket (d_structure s) (pathBucket (rc_req H)) = Inr bkt" and "bkt_OwnerUserID bkt \<noteq> usr_ID (rc_user H)"
    and "\<not> (rq_Method (rc_req H) = ''PUT'' \<and> pathKey (rc_req H) = [] \<and> \<not> queryHas (rc_req H) ''partNumber'')"
    and "dispatch H s = (r, t)"
  shows "untouched content s t \<and> refused r"
  using dispatch_owned [OF assms(2,5)] unfolding owned_def
proof (elim disjE exE)
  fix k
  assume "dispatch H = requireBucketOwner H (pathBucket (rc_req H)) k"
  with assms(6) have "requireBucketOwner H (pathBucket (rc_req H)) k s = (r, t)" by simp
  from daemon_server.requireBucketOwner_other [OF assms(1) refl assms(3,4) this] show ?thesis .
next
  assume "dispatch H = s3err H ''MethodNotAllowed'' ''The specified method is not allowed against this resource.'' 405"
  with assms(6) show ?thesis by (auto simp: s3err_def WriteS3Error_def refused_def ret_def)
qed

theorem dispatch_other_owner_witness:
  "\<exists>r t. dispatch ((demoCtx ''DELETE'' [])\<lparr>rc_user := demoUser\<lparr>usr_ID := ''eve''\<rparr>\<rparr>) demoState = (r, t)
     \<and> untouched map_of demoState t \<and> refused r"
proof -
  let ?H = "(demoCtx ''DELETE'' [])\<lparr>rc_user := demoUser\<lparr>usr_ID := ''eve''\<rparr>\<rparr>"
  obtain r t where d: "dispatch ?H demoState = (r, t)" by (cases "dispatch ?H demoState")
  from demo_owner obtain bkt where b: "GetBucket (d_structure demoState) ''first'' = Inr bkt" "bkt_OwnerUserID bkt = ''u''" by blast
  have "untouched map_of demoState t \<and> refused r"
    by (rule dispatch_other_owner [where H = ?H and bkt = bkt, OF _ _ _ _ _ d]) (simp_all add: demo_path b)
  with d show ?thesis by blast
qed

text \<open>C22: nothing happens for a stranger. Whatever a request asks for, either no database, file or cache entry
  changes and the answer is not a success, or the request carries the signature of its own contents
  under the stored secret of an enabled user, and what happened is its dispatch as that user.\<close>

theorem NewRouter_authenticated:
  assumes "daemon_server (dp_svc D) content" and "NewRouter D r s = (x, t)"
  shows "untouched content s t \<and> (\<forall>rs. x = Inr rs \<longrightarrow> rs_Status rs \<noteq> 200)
    \<or> (\<exists>user sig reqID u y. untouched content s u \<and> signedBy D (d_structure s) r user \<and> usr_Enabled user
        \<and> dispatch \<lparr>rc_deps = D, rc_reqID = reqID, rc_user = user, rc_sig = sig, rc_req = r\<rparr> u = (y, t)
        \<and> x = map_sum id (\<lambda>rs. rs\<lparr>rs_Header := (''X-Amz-Request-Id'', reqID) # rs_Header rs\<rparr>) y)"
  by (rule daemon_server.NewRouter_runs [OF assms(1) refl assms(2)])

theorem NewRouter_authenticated_witness:
  "\<exists>x t. NewRouter demoDeps (demoPlain ''DELETE'' []) demoApi = (x, t) \<and> untouched map_of demoApi t
     \<and> (\<forall>rs. x = Inr rs \<longrightarrow> rs_Status rs \<noteq> 200)"
proof -
  let ?r = "demoPlain ''DELETE'' []"
  obtain x t where d: "NewRouter demoDeps ?r demoApi = (x, t)" by (cases "NewRouter demoDeps ?r demoApi")
  have "headerGet ?r ''Authorization'' = []" by (simp add: headerGet_def demo_keys demoPlain_def)
  moreover have "isl (parseAuthHeader [])" by code_simp
  ultimately have "\<not> signedBy demoDeps d ?r user" for d user by (auto simp: signedBy_def)
  with NewRouter_authenticated [OF demoDeps_server(1) d] d show ?thesis by blast
qed

text \<open>C21: what was stored can be fetched, from the wire to the server and back. If a signed \<open>PUT\<close> of a
  plain body below the chunking threshold is answered 200, and then a \<open>GET\<close> of the same path, the
  body that comes back is the body that was sent, with its length and the etag of the upload.\<close>

theorem NewRouter_put_get:
  assumes "daemon_server (dp_svc D) content" and "\<not> chunked (dp_svc D) data"
    and "rq_Method r = ''PUT''" "pathKey r \<noteq> []" "\<not> queryHas r ''partNumber''" "\<not> isChunkedBody r" "rq_Body r = (data, None)"
    and "rq_Method r' = ''GET''" "pathBucket r' \<noteq> []" "\<not> queryHas r' ''uploadId''" "rq_Path r' = rq_Path r"
    and "NewRouter D r s = (Inr rs, s1)" "rs_Status rs = 200" and "NewRouter D r' s1 = (Inr rs', s2)" "rs_Status rs' = 200"
  shows "rs_Body rs' = Contents data
     \<and> map_of (rs_Header rs) ''ETag'' = Some (quoted (hexEncode (env_md5 (svc_env (dp_svc D)) data)))
     \<and> map_of (rs_Header rs') ''ETag'' = map_of (rs_Header rs) ''ETag''
     \<and> map_of (rs_Header rs') ''Content-Length'' = Some (fmtD (int (length data)))"
  by (rule daemon_server.put_then_get [OF assms(1) refl assms(2-15)])

theorem NewRouter_put_get_witness:
  "\<exists>rs t rs' u. NewRouter demoDeps (demoSigned ''PUT'' ''abc'') demoApi = (Inr rs, t)
     \<and> NewRouter demoDeps (demoSigned ''GET'' []) t = (Inr rs', u) \<and> rs_Body rs' = Contents ''abc''"
proof -
  from demo_api_run obtain rs t rs' u where
    p: "NewRouter demoDeps (demoSigned ''PUT'' ''abc'') demoApi = (Inr rs, t)" "rs_Status rs = 200"
    and g: "NewRouter demoDeps (demoSigned ''GET'' []) t = (Inr rs', u)" "rs_Status rs' = 200"
    by (elim exE conjE) (rule that)
  have "rs_Body rs' = Contents ''abc''"
    by (rule conjunct1 [OF NewRouter_put_get [OF demoDeps_server(1) _ _ _ _ _ _ _ _ _ _ p g]])
      (simp_all add: demo_path queryHas_def isChunkedBody_def chunked_def demoSvc_def)
  with p g show ?thesis by blast
qed

end
