(* ===== verification/DaemonKeeps.thy ===== *)
theory DaemonKeeps
  imports DaemonInv S3Facts
begin

text \<open>
  The rest of \<open>daemon_invariant\<close>: the handlers of the three interfaces, provisioning, and the workers.
\<close>

context daemon_invariant
begin

section \<open>The S3 interface\<close>

lemma inv_s3err [keeps]: "kept I (s3err H code msg status)" "kept I (noSuchKey H)"
  unfolding s3err_def noSuchKey_def by (intro keeps)+

lemma inv_errors [keeps]: "kept I k \<Longrightarrow> kept I (unavailable H e k)" "kept I k \<Longrightarrow> kept I (noSuchUpload H e k)"
  unfolding unavailable_def noSuchUpload_def by (intro keeps; assumption)+

lemma inv_requireBucketOwner [keeps]: "(\<And>b. kept I (k b)) \<Longrightarrow> kept I (requireBucketOwner H n k)"
  unfolding requireBucketOwner_def by (intro keeps)

lemma inv_quotaCheck [keeps]: "kept I (quotaCheck S' l n)"
  unfolding quotaCheck_def by (intro keeps) (simp add: kept_def)

lemma inv_s3_handlers:
  assumes "rc_svc H = S" and "flushKeeps (dp_flushStructure (rc_deps H))"
  shows "kept I (S3Api.handleListBuckets H)" "kept I (S3Api.handleCreateBucket H n)" "kept I (S3Api.handleDeleteBucket H n)"
    "kept I (handleListObjects H n)" "kept I (handlePutObject H n k)" "kept I (handleGetObject H n k)"
    "kept I (handleHeadObject H n k)" "kept I (S3Api.handleDeleteObject H n k)" "kept I (handleCreateMultipartUpload H n k)"
    "kept I (handleUploadPart H n k)" "kept I (handleCompleteMultipartUpload H n k)" "kept I (handleAbortMultipartUpload H n k)"
    "kept I (handleListMultipartUploads H n)" "kept I (handleListParts H n k)"
  unfolding S3Api.handleListBuckets_def S3Api.handleCreateBucket_def S3Api.handleDeleteBucket_def handleListObjects_def handlePutObject_def
    handleGetObject_def handleHeadObject_def S3Api.handleDeleteObject_def handleCreateMultipartUpload_def handleUploadPart_def
    handleCompleteMultipartUpload_def handleAbortMultipartUpload_def handleListMultipartUploads_def handleListParts_def assms(1)
  by (intro keeps assms(2) | hypsubst)+

lemma inv_dispatch: "rc_svc H = S \<Longrightarrow> flushKeeps (dp_flushStructure (rc_deps H)) \<Longrightarrow> kept I (dispatch H)"
  unfolding dispatch_def by (intro keeps inv_s3_handlers; assumption)

lemma inv_authMiddleware:
  assumes "dp_svc D = S" and "\<And>u c. kept I (next u c)"
  shows "kept I (authMiddleware D reqID r next)"
proof -
  have V: "kept (\<lambda>p. I (fst p)) (Verify (authVerifier D) r (lookupSecret D))"
    by (rule Verify_kept; unfold lookupSecret_def lookupUser_def authVerifier_def verifier.simps)
      (intro keeps kept_capturing kept_capture)+
  have "kept I (\<lambda>s. case Verify (authVerifier D) r (lookupSecret D) (s, []) of
            (Inl e, (s', _)) \<Rightarrow> (Inl e, s') | (Inr ak, (s', secretKey)) \<Rightarrow> (Inr (ak, secretKey), s'))"
  proof (rule keptI)
    fix s assume "I s"
    with keptD [OF V, of "(s, [])"] show "I (snd (case Verify (authVerifier D) r (lookupSecret D) (s, []) of
            (Inl e, (s', _)) \<Rightarrow> (Inl e, s') | (Inr ak, (s', secretKey)) \<Rightarrow> (Inr (ak, secretKey), s')))"
      by (auto split: prod.split sum.split)
  qed
  then show ?thesis unfolding authMiddleware_def lookupUser_def by (intro keeps assms(2))
qed

lemma inv_NewRouter:
  assumes "dp_svc D = S" and "flushKeeps (dp_flushStructure D)"
  shows "kept I (NewRouter D r)"
  unfolding NewRouter_def requestIDMiddleware_def
  by (intro keeps inv_authMiddleware inv_dispatch; simp add: assms)

section \<open>The user interface\<close>

lemma inv_orNil [keeps]: "kept I m \<Longrightarrow> kept I (orNil m)"
  unfolding orNil_def by (intro keeps)

lemma inv_listLocations [keeps]: "kept I (listLocations S')" "kept I (hasLocations S')"
  unfolding hasLocations_def listLocations_def by (intro keeps)+

lemma inv_storagePages [keeps]: "kept I (storagePages S n k t acc)"
  by (induction k arbitrary: t acc) (auto intro!: keeps simp: Let_def)

lemma inv_storageUsedBytes [keeps]: "kept I (storageUsedBytes S k bs acc)"
  by (induction bs arbitrary: acc) (auto intro!: keeps)

lemma inv_forEach [keeps]: "(\<And>x. kept I (f x)) \<Longrightarrow> kept I (forEach f xs)"
  by (induction xs) (auto intro!: keeps)

lemma inv_prefixPages [keeps]: "(\<And>x. kept I (f x)) \<Longrightarrow> kept I (prefixPages S n p f k t a)"
  by (induction k arbitrary: t a) (auto intro!: keeps simp: Let_def)

lemma inv_copyObject [keeps]: "kept I (copyObject S n k k')"
  unfolding copyObject_def by (intro keeps)

lemma inv_requireBucketAccess [keeps]: "(\<And>b. kept I (k b)) \<Longrightarrow> kept I (requireBucketAccess W u r k)"
  unfolding requireBucketAccess_def by (intro keeps)

lemma inv_web_handlers:
  assumes "wd_svc W = S" and "flushKeeps (wd_flush W)"
  shows "kept I (WebUI.handleListBuckets W u)" "kept I (WebUI.handleCreateBucket W u r)" "kept I (WebUI.handleDeleteBucket W r)"
    "kept I (handleBrowse W u r)" "kept I (handleDownload W u r)" "kept I (handleUpload W u r)" "kept I (handleMkdir W u r)"
    "kept I (WebUI.handleDeleteObject W u r)" "kept I (handleRenameObject W u r)" "kept I handleRootRedirect"
  unfolding WebUI.handleListBuckets_def WebUI.handleCreateBucket_def WebUI.handleDeleteBucket_def handleBrowse_def handleDownload_def
    handleUpload_def handleMkdir_def WebUI.handleDeleteObject_def handleRenameObject_def deletePrefix_def renamePrefix_def
    renderListBuckets_def handleRootRedirect_def assms(1)
  by (intro keeps assms(2))+

section \<open>The administrator's interface\<close>

lemma inv_asks [keeps]: "kept I (ask A l f)" "kept I (asks A l g)"
  unfolding ask_def asks_def by (intro keeps)+

lemma inv_admin_changes [keeps]: "kept I (changeStructure (ad_svc A) l f) \<Longrightarrow> kept I (change A l f)"
  unfolding change_def by (intro keeps)

lemma inv_random [keeps]: "kept I (randomAlphanumeric A n)"
  by (induction n) (auto intro!: keeps)

lemma inv_secrets [keeps]: "kept I (newAdminUUID A)" "kept I (encode A t)" "kept I (bcryptGenerate A t)"
  unfolding newAdminUUID_def encode_def bcryptGenerate_def by (intro keeps)+

lemma inv_physical [keeps]: "kept I (physicalObjects A b objs un)"
  by (induction objs arbitrary: un) (auto intro!: keeps)

lemma inv_actualUsage [keeps]: "kept I (actualUsage A l bs un)"
proof (induction bs arbitrary: un)
  case (Cons b bs)
  show ?case unfolding actualUsage.simps by (intro keeps Cons.IH)
qed (simp add: keeps)

lemma inv_usage [keeps]: "kept I (actualUsageBytes A l bs)" "kept I (usageOf A l)"
  unfolding actualUsageBytes_def usageOf_def by (intro keeps | simp add: kept_def)+

lemma inv_locStats [keeps]: "kept I (locStats A bs locs)"
  by (induction locs) (auto intro!: keeps simp: Let_def)

definition adminKeeps :: "'w adminDeps \<Rightarrow> bool" where
  "adminKeeps A \<longleftrightarrow> ad_svc A = S \<and> flushKeeps (ad_RefreshWebDAV A) \<and> flushKeeps (ad_FlushStructure A)
     \<and> (\<forall>f l. ad_SyncEngine A = Some f \<longrightarrow> kept I (f l))"

lemma inv_admin_pages:
  "kept I (handleDashboard A)" "kept I (handleListLocations A)" "kept I handleGetNewLocation" "kept I (handleTestLocation A r)"
  "kept I (handleLocationDetail A i)" "kept I (handleEditLocation A i)" "kept I (handleListUsers A)" "kept I (handleGetNewUser A)"
  "kept I (handleUserDetail A i)" "kept I (handleEditUser A i)" "kept I (adminListBuckets A)" "kept I (handleGetNewBucket A)"
  "kept I (handleBucketDetail A i)"
  unfolding handleDashboard_def handleListLocations_def handleGetNewLocation_def handleTestLocation_def testPassword_def
    handleLocationDetail_def handleEditLocation_def handleListUsers_def handleGetNewUser_def handleUserDetail_def
    handleEditUser_def adminListBuckets_def handleGetNewBucket_def handleBucketDetail_def
  by (intro keeps)+

lemma inv_admin_location_changes:
  assumes "adminKeeps A"
  shows "kept I (handlePostNewLocation A r)" "kept I (handlePostEditLocation A i r)" "kept I (handleDeleteLocation A i)"
    "kept I (handleLocationSync A i)"
  using assms unfolding adminKeeps_def handlePostNewLocation_def handlePostEditLocation_def handleDeleteLocation_def handleLocationSync_def
  by (intro keeps; simp)+

lemma inv_admin_user_changes:
  assumes "adminKeeps A"
  shows "kept I (handlePostNewUser A r)" "kept I (handlePostEditUser A i r)" "kept I (handleDeleteUser A i)"
    "kept I (handleUserToggle A i)" "kept I (handleRegenerateSecret A i)" "kept I (handleResetWebPassword A i)"
  using assms unfolding adminKeeps_def handlePostNewUser_def handlePostEditUser_def handleDeleteUser_def handleUserToggle_def
    handleRegenerateSecret_def handleResetWebPassword_def
  by (intro keeps; simp)+

lemma inv_admin_bucket_changes:
  assumes "adminKeeps A"
  shows "kept I (handlePostNewBucket A r)" "kept I (adminDeleteBucket A i)"
  using assms unfolding adminKeeps_def handlePostNewBucket_def adminDeleteBucket_def by (intro keeps; simp)+

lemma inv_adminDispatch: "adminKeeps A \<Longrightarrow> kept I (adminDispatch A r segs)"
  unfolding adminDispatch_def
  by (intro keeps inv_admin_pages inv_admin_location_changes inv_admin_user_changes inv_admin_bucket_changes; assumption)

section \<open>The state with the session stores\<close>

abbreviation inSite :: "'w site \<Rightarrow> bool" where
  "inSite s \<equiv> I (st_daemon s)"

lemma inv_onDaemon [keeps]: "kept I m \<Longrightarrow> kept inSite (onDaemon m)"
  by (auto simp: kept_def onDaemon_def split: prod.split)

lemma inv_sessions [keeps]:
  "kept inSite (adminValid S' r)" "kept inSite (adminDelete r)" "kept inSite (adminCreate S')"
  "kept inSite (webGet S' r)" "kept inSite (webDelete r)" "kept inSite (webCreate S' tls r ak)"
  unfolding adminValid_def adminDelete_def adminCreate_def webGet_def webDelete_def webCreate_def newToken_def
  by (intro keeps kept_modify; auto simp: kept_def split: prod.split)+

lemma inv_authenticated: "(\<And>u. kept I (h u)) \<Longrightarrow> kept inSite (authenticated W r h)"
  unfolding authenticated_def requireSession_def by (intro keeps)

lemma inv_logins [keeps]:
  "kept inSite (handleGetLogin W r)" "kept inSite (handlePostLogin W r)" "kept inSite (handlePostLogout r)"
  "kept inSite (adminPostLogin A r)" "kept inSite (adminPostLogout r)"
  unfolding handleGetLogin_def handlePostLogin_def handlePostLogout_def adminPostLogin_def adminPostLogout_def
  by (intro keeps)+

lemma inv_webRoute: "wd_svc W = S \<Longrightarrow> flushKeeps (wd_flush W) \<Longrightarrow> kept inSite (webRoute W r)"
  unfolding webRoute_def by (intro keeps inv_authenticated inv_web_handlers; assumption)

lemma inv_adminRoute: "adminKeeps A \<Longrightarrow> kept inSite (adminRoute A r)"
  unfolding adminRoute_def adminSession_def by (intro keeps inv_adminDispatch; assumption)

section \<open>Provisioning\<close>

lemma inv_addLocations [keeps]: "kept I (addLocations P specs ids)"
  by (induction specs arbitrary: ids) (auto intro!: keeps simp: encryptFor_def)

lemma inv_reconcile [keeps]: "kept I (reconcile P E slugs ids)"
proof (induction slugs arbitrary: ids)
  case (Cons slug slugs)
  have "kept I (adoptID P slug a b)" for a b unfolding adoptID_def by (intro keeps)
  then show ?case unfolding reconcile.simps by (intro keeps Cons.IH)
qed (simp add: keeps)

lemma inv_syncLocations: "eng_svc E = S \<Longrightarrow> kept I (syncLocations E ids specs)"
  by (induction specs) (auto intro!: keeps inv_SyncFromWebDAV)

lemma inv_addUsers [keeps]: "kept I (addUsers P specs ids)"
proof (induction specs arbitrary: ids)
  case (Cons spec specs)
  show ?case unfolding addUsers.simps encryptFor_def hashFor_def by (intro keeps Cons.IH)
qed (simp add: keeps)

lemma inv_addBuckets:
  assumes "ac_svc P = S" and "flushKeeps (ac_flush P)"
  shows "kept I (addBuckets P us l bs)"
proof (induction bs)
  case (Cons b bs)
  show ?case unfolding addBuckets.simps assms(1) by (intro keeps assms(2) Cons)
qed (simp add: keeps)

lemma inv_addAllBuckets: "ac_svc P = S \<Longrightarrow> flushKeeps (ac_flush P) \<Longrightarrow> kept I (addAllBuckets P us ls locs)"
  by (induction locs) (auto intro!: keeps inv_addBuckets)

lemma inv_provisioning:
  assumes "ac_svc P = S" and "flushKeeps (ac_flush P)" and "flushKeeps (ac_RefreshWebDAV P)"
    and "\<And>E. ac_SyncEngine P = Some E \<Longrightarrow> eng_svc E = S"
  shows "kept I (ApplyStartupProvisioning P)"
proof -
  have "kept I (applyDocument P d)" for d
    unfolding applyDocument_def
    by (intro keeps inv_syncLocations inv_addAllBuckets assms; assumption?)
  then show ?thesis unfolding ApplyStartupProvisioning_def ParseFile_def ProvisioningAllowed_def by (intro keeps)
qed

end

end
