(* ===== verification/DaemonRun.thy ===== *)
theory DaemonRun
  imports DaemonKeeps
begin

text \<open>
  The daemon as a whole: what holds in every state it can reach, and what \<open>webdavs3 gc\<close> refuses to do.
\<close>

section \<open>The constraints of every database\<close>

definition daemon_wf :: "int \<Rightarrow> 'w daemon \<Rightarrow> bool" where
  "daemon_wf cap s \<longleftrightarrow> structure_wf (d_structure s) \<and> usage_wf (d_stats s)
     \<and> (\<forall>i b. d_bdb s i = Some (Inr b) \<longrightarrow> bucket_wf b) \<and> lru_ok cap (d_cache s) \<and> repair_wf (d_repair s)"

lemma daemon_wf_bucket: "daemon_wf cap s \<Longrightarrow> bucket_wf (bdbOf s i)"
  by (auto simp: daemon_wf_def bdbOf_def split: option.split sum.split)

text \<open>A file that SQLite opens as a bucket database satisfies the constraints of its schema.\<close>

definition opens_wf :: "'w env \<Rightarrow> bool" where
  "opens_wf E \<longleftrightarrow> (\<forall>x b. env_openBucket E x = Inr b \<longrightarrow> bucket_wf b)"

lemma daemon_wf_invariant:
  assumes "opens_wf (svc_env S)"
  shows "daemon_invariant S (daemon_wf (svc_cap S))"
proof
  fix s :: "'a daemon" and w
  assume s: "daemon_wf (svc_cap S) s"
  then show "daemon_wf (svc_cap S) (s\<lparr>d_world := w\<rparr>)" by (simp add: daemon_wf_def)
  show "daemon_wf (svc_cap S) (s\<lparr>d_structure := d\<rparr>)" if "structureStep (d_structure s) d" for d
    using s structureStep_wf [OF that] by (simp add: daemon_wf_def)
  show "daemon_wf (svc_cap S) (setBdb s i b)" if "bucketStep (bdbOf s i) b" for i b
    using s bucketStep_wf [OF that daemon_wf_bucket [OF s]] by (simp add: daemon_wf_def setBdb_def)
  show "daemon_wf (svc_cap S) (setBdb s i emptyBucketDB)" for i
    using s by (simp add: daemon_wf_def setBdb_def)
  show "daemon_wf (svc_cap S) (s\<lparr>d_stats := db\<rparr>)" if "AddDelta (d_stats s) now l u bid n c = Inr db" for now l u bid n c db
    using s wf_AddDelta [OF _ that] by (simp add: daemon_wf_def)
  show "daemon_wf (svc_cap S) (s\<lparr>d_stats := db\<rparr>)" if "MergeFromFile (d_stats s) src f m = Inr db" for src f m db
    using s wf_MergeFromFile [OF _ that] by (simp add: daemon_wf_def)
  show "daemon_wf (svc_cap S) (s\<lparr>d_cache := snd (lruGet (svc_cap S) (d_cache s) i)\<rparr>)" for i
    using s lru_ok_get [of "svc_cap S" "d_cache s" i] by (cases "lruGet (svc_cap S) (d_cache s) i") (simp add: daemon_wf_def)
  show "daemon_wf (svc_cap S) (s\<lparr>d_cache := lruRemove (d_cache s) i\<rparr>)" for i
    using s by (simp add: daemon_wf_def lru_ok_remove)
  show "daemon_wf (svc_cap S) (s\<lparr>d_repair := repairApply (d_repair s) ev\<rparr>)" for ev
    using s by (simp add: daemon_wf_def repair_wf_apply)
  show "daemon_wf (svc_cap S) (s\<lparr>d_bdb := (d_bdb s)(i := None)\<rparr>)" for i
    using s by (simp add: daemon_wf_def)
  show "daemon_wf (svc_cap S) (t\<lparr>d_bdb := (d_bdb t)(i := d_bdb s i)\<rparr>)" if "daemon_wf (svc_cap S) t" for t i
    using s that by (simp add: daemon_wf_def)
  show "daemon_wf (svc_cap S) (s\<lparr>d_bdb := (d_bdb s)(i \<mapsto> Inr b)\<rparr>)" if "env_openBucket (svc_env S) x = Inr b" for x b i
    using s assms that by (auto simp: daemon_wf_def opens_wf_def)
qed

lemma demoEnv_opens: "opens_wf demoEnv"
  by (simp add: opens_wf_def demoEnv_def)

interpretation demoConstraints: daemon_invariant demoSvc "daemon_wf (svc_cap demoSvc)"
  by (rule daemon_wf_invariant) (simp add: demoSvc_def demoEnv_opens)

section \<open>Every step of the daemon\<close>

lemma mainSvc_sel [simp]:
  "svc_env (mainSvc H cfg) = liveEnv (ho_env H)" "svc_cacheDir (mainSvc H cfg) = cf_LocalCacheDir cfg"
  "eng_svc (mainEngine H cfg i) = mainSvc H cfg"
  by (simp_all add: mainSvc_def mainEngine_def)

locale daemon_program = daemon_invariant "mainSvc H cfg" I
  for H :: "'w host" and cfg :: Config and I :: "'w live daemon \<Rightarrow> bool"
begin

lemma inv_refresh [keeps]: "kept I (setLive c)" "kept I (refreshWebDAV H cfg)" "kept I (initDirs H cfg)"
  unfolding refreshWebDAV_def initDirs_def setLive_def by (intro keeps)+

lemma flushKeeps_callback: "kept I m \<Longrightarrow> flushKeeps (Some (callback m))"
  by (simp add: flushKeeps_def callback_def kept_def)

lemma flushKeeps_main: "flushKeeps (Some (flushStructure H cfg i))" "flushKeeps (Some (callback (refreshWebDAV H cfg)))"
  unfolding flushStructure_def by (intro flushKeeps_callback keeps)+

lemma inv_ticks [keeps]: "kept I (syncTick H cfg i)" "kept I (statsTick H cfg i)"
  unfolding syncTick_def statsTick_def by (intro keeps inv_SyncFromWebDAV mainSvc_sel)+

lemma adminKeeps_main: "adminKeeps (mainAdmin H cfg i)"
  unfolding adminKeeps_def mainAdmin_def using flushKeeps_main inv_SyncFromWebDAV by simp

lemma inv_combinedRoute [keeps]: "kept inSite (combinedRoute H cfg i r)"
  unfolding combinedRoute_def
  by (intro keeps inv_adminRoute adminKeeps_main inv_webRoute; simp add: mainWeb_def flushKeeps_main)

lemma inv_daemonAct: "kept inSite (daemonAct H cfg i e)"
proof (cases e)
  case (S3Request r)
  have "kept I (NewRouter (mainS3 H cfg i) r)" by (rule inv_NewRouter) (simp_all add: mainS3_def flushKeeps_main)
  with S3Request show ?thesis by (simp add: keeps)
qed (simp_all add: keeps)

lemma inv_startProvisioning [keeps]: "kept I (ApplyStartupProvisioning (mainProvision H cfg i))"
  by (rule inv_provisioning) (auto simp: mainProvision_def flushKeeps_main)

lemma inv_shutdown: "kept I (shutdown H cfg i)" if "\<And>s. I s \<Longrightarrow> I (s\<lparr>d_cache := []\<rparr>)"
  unfolding shutdown_def by (intro keeps kept_modify that inv_FlushBucketDBs mainSvc_sel)

lemma inv_step: "daemonStep H cfg i s t \<Longrightarrow> inSite s \<Longrightarrow> inSite t"
  by (elim daemonStepE) (rule keptD' [OF inv_daemonAct])

lemma inv_run: "(daemonStep H cfg i)\<^sup>*\<^sup>* s t \<Longrightarrow> inSite s \<Longrightarrow> inSite t"
  by (induction rule: rtranclp_induct) (auto intro: inv_step)

text \<open>A start that succeeds: the predicate need only hold once the databases are open.\<close>

lemma inv_start:
  assumes "startDaemon H cfg s = (Inr i, t)"
    and "\<And>u. d_structure u = d_structure s \<Longrightarrow> d_stats u = d_stats s \<Longrightarrow> d_bdb u = d_bdb s \<Longrightarrow>
      I (snd (openDatabases H cfg u)) \<or> (\<exists>e. fst (openDatabases H cfg u) = Inl e)"
  shows "I t"
proof -
  let ?K = "\<lambda>u. d_structure u = d_structure s \<and> d_stats u = d_stats s \<and> d_bdb u = d_bdb s"
  have world: "kept ?K (onWorld m)" for m :: "('w live, 'b) act"
    by (auto simp: kept_def onWorld_def split: prod.split)
  from assms(1) obtain s1 s2 s3 s4 where
    1: "(if cf_LocalCacheDir cfg \<noteq> [] then wrapE (wrapAs ''create cache dir'') (os (mainSvc H cfg) ''MkdirAll'') else ret ()) s = (Inr (), s1)"
    and 2: "wrapE (wrapAs ''daemon id'') (onWorld (inner (loadOrCreateDaemonID H (cf_LocalCacheDir cfg)))) s1 = (Inr i, s2)"
    and 3: "openDatabases H cfg s2 = (Inr (), s3)"
    and 4: "thn (setLive (Some noopWebDAV)) (thn (refreshWebDAV H cfg)
       (wrapE (wrapAs ''startup provisioning'') (ApplyStartupProvisioning (mainProvision H cfg i)))) s3 = (Inr (), t)"
    unfolding startDaemon_def
    by (auto elim!: thn_InrE bnd_InrE simp: ret_def fail_def thn_def bnd_def split: if_splits sum.splits prod.splits)
  have "kept ?K (if cf_LocalCacheDir cfg \<noteq> [] then wrapE (wrapAs ''create cache dir'') (os (mainSvc H cfg) ''MkdirAll'') else ret ())"
    unfolding os_def by (intro keeps world)
  with 1 have "?K s1" by (auto dest: keptD' [where I = ?K])
  moreover have "kept ?K (wrapE (wrapAs ''daemon id'') (onWorld (inner (loadOrCreateDaemonID H (cf_LocalCacheDir cfg)))))"
    by (intro keeps world)
  ultimately have "?K s2" using 2 by (blast dest: keptD' [where I = ?K])
  then have "I s3" using assms(2) [of s2] 3 by auto
  moreover have "kept I (thn (setLive (Some noopWebDAV)) (thn (refreshWebDAV H cfg)
       (wrapE (wrapAs ''startup provisioning'') (ApplyStartupProvisioning (mainProvision H cfg i)))))" by (intro keeps)
  ultimately show ?thesis using 4 by (blast dest: keptD')
qed

end

definition disk_wf :: "'w daemon \<Rightarrow> bool" where
  "disk_wf d \<longleftrightarrow> structure_wf (d_structure d) \<and> usage_wf (d_stats d)
     \<and> (\<forall>i b. d_bdb d i = Some (Inr b) \<longrightarrow> bucket_wf b)"

lemma main_wf: "opens_wf (ho_env H) \<Longrightarrow> daemon_program H cfg (daemon_wf (svc_cap (mainSvc H cfg)))"
  unfolding daemon_program_def by (rule daemon_wf_invariant) (simp add: opens_wf_def liveEnv_def)

lemma start_wf:
  assumes "opens_wf (ho_env H)" and "disk_wf d" and "startDaemon H cfg d = (Inr i, t)"
  shows "daemon_wf (svc_cap (mainSvc H cfg)) t"
proof (rule daemon_program.inv_start [OF main_wf [OF assms(1)] assms(3)])
  fix u :: "'a live daemon"
  assume "d_structure u = d_structure d" "d_stats u = d_stats d" "d_bdb u = d_bdb d"
  with assms(2) show "daemon_wf (svc_cap (mainSvc H cfg)) (snd (openDatabases H cfg u))
      \<or> (\<exists>e. fst (openDatabases H cfg u) = Inl e)"
    by (auto simp: openDatabases_def os_def onWorld_def thn_def bnd_def wrapE_def modify_def disk_wf_def daemon_wf_def
        split: prod.split sum.split)
qed

section \<open>A daemon to start\<close>

text \<open>A host with the demonstration server behind every location, no files and no environment.\<close>

definition demoGo :: "demoWorld gowebdav" where
  "demoGo = \<lparr>gw_WriteStream = (\<lambda>p body. case snd body of None \<Rightarrow> demoPut p (fst body) | Some e \<Rightarrow> fail e),
     gw_ReadStream = demoGet, gw_Remove = cl_Delete demoClient, gw_MkdirAll = (\<lambda>p. ret ()), gw_Stat = cl_Stat demoClient,
     gw_Rename = cl_Rename demoClient,
     gw_ReadDir = (\<lambda>p. gets (\<lambda>w. map (\<lambda>n. \<lparr>fi_Name = n, fi_IsDir = False, fi_Size = 0\<rparr>) (demoChildren p w)))\<rparr>"

interpretation demoLibrary: gowebdav_library demoGo demoEnv map_of
proof unfold_locales
  fix p q x :: string and d :: bytes and w w' :: demoWorld and body :: stream
  have up: "gw_WriteStream demoGo p b = cl_Upload demoClient p b 0" for b by (simp add: demoGo_def demoClient_def)
  show "gw_WriteStream demoGo p (d, None) w = (Inr (), w') \<Longrightarrow> map_of w' p = Some d" unfolding up by (rule demo.upload)
  show "touches map_of p (gw_WriteStream demoGo p body)" unfolding up by (rule demo.upload_touches)
  show "gw_ReadStream demoGo p w = (Inr d, w') \<Longrightarrow> map_of w p = Some d"
    by (auto simp: demoGo_def demoGet_def split: option.splits)
  show "gw_Rename demoGo p q True w = (Inr (), w') \<Longrightarrow> map_of w' q = map_of w p" by (simp add: demoGo_def demo.rename)
  show "touches map_of p (gw_Rename demoGo (p @ x) p True)" by (simp add: demoGo_def demo.rename_touches)
  show "\<not> atOrUnder q p \<Longrightarrow> map_of (snd (gw_Remove demoGo p w)) q = map_of w q" by (simp add: demoGo_def demo.delete_under)
  show "y \<noteq> [] \<and> CHR ''/'' \<notin> set y" if "gw_ReadDir demoGo p w = (Inr infos, w')" "y \<in> fi_Name ` set infos" for infos y
  proof -
    from that have "y \<in> set (demoChildren p w)" by (auto simp: demoGo_def gets_def)
    moreover have "cl_ReadDir demoClient p w = (Inr (demoChildren p w), w)" by (simp add: demoClient_def gets_def)
    ultimately show ?thesis using demo.readdir_names by blast
  qed
qed (auto simp: quiet_def demoGo_def gets_def ret_def demo_defs demoGet_def split: option.split)

definition demoHost :: "demoWorld host" where
  "demoHost = \<lparr>ho_env = demoEnv, ho_getenv = (\<lambda>_. []), ho_stat = (\<lambda>_. ret None), ho_readFile = (\<lambda>_. ret None),
     ho_writeFile = (\<lambda>_ _. ret ()), ho_yamlConfig = (\<lambda>_ c. Inr c),
     ho_yamlDocument = (\<lambda>_. Inr \<lparr>doc_Users = [], doc_Locations = []\<rparr>), ho_gowebdav = (\<lambda>_ _ _. (demoGo, demoGo)),
     ho_cipher = demoCipher, ho_bcryptCompare = (\<lambda>h p. h = p), ho_bcryptGenerate = ret, ho_randInt = (\<lambda>_. ret 0),
     ho_decodeParts = (\<lambda>_. Inr []), ho_httpGet = (\<lambda>_. ret 200), ho_prompt = ret [], ho_promptPassword = ret ''password'',
     ho_mapOrder = id, ho_fuel = 10\<rparr>"

definition demoConfig :: Config where
  "demoConfig = defaultConfig\<lparr>cf_EncryptionKey := demoKey\<rparr>"

definition demoBoot :: "demoWorld live daemon" where
  "demoBoot = \<lparr>d_world = \<lparr>lv_world = [], lv_client = None\<rparr>, d_structure = emptyStructure, d_stats = emptyUsageDB,
     d_bdb = Map.empty, d_cache = [], d_repair = NewManager\<rparr>"

interpretation demoProgram: daemon_program demoHost demoConfig "daemon_wf (svc_cap (mainSvc demoHost demoConfig))"
  by (rule main_wf) (simp add: demoHost_def demoEnv_opens)

lemma demo_start: "\<exists>i t. startDaemon demoHost demoConfig demoBoot = (Inr i, t)"
proof -
  have k: "cf_EncryptionKey demoConfig = demoKey" "cf_LocalCacheDir demoConfig = []" "cf_ProvisionFile demoConfig = []"
    by (simp_all add: demoConfig_def defaultConfig_def)
  have "base64Decode demoKey = Some (replicate 32 (CHR ''k''))" "base64Decode [] = Some []"
    by (simp_all only: demoKey_def base64_roundtrip) (simp add: base64Decode_def)
  then have "demoKey \<noteq> []" by auto
  then show ?thesis
    by (simp add: startDaemon_def k loadOrCreateDaemonID_def generateUUID_def openDatabases_def refreshWebDAV_def setLive_def
        listLocations_def orNil_def askStructure_def ApplyStartupProvisioning_def mainProvision_def os_def act_defs onWorld_def
        inner_def liveEnv_def demoHost_def demoEnv_def ListLocations_def emptyStructure_def)
qed

section \<open>A collection that is refused\<close>

definition gcHolds :: "('w \<Rightarrow> string \<rightharpoonup> bytes) \<Rightarrow> (string \<rightharpoonup> bytes) \<Rightarrow> 'w daemon \<Rightarrow> 'w daemon \<Rightarrow> bool" where
  "gcHolds content W s u \<longleftrightarrow> content (d_world u) = W \<and> d_structure u = d_structure s \<and> d_bdb u = d_bdb s"

lemma holds_world: "quiet content m \<Longrightarrow> kept (gcHolds content W s) (onWorld m)"
  by (auto simp: kept_def gcHolds_def onWorld_def quiet_def split: prod.split) (metis snd_conv)

lemma holds_os:
  assumes "\<forall>l. quiet content (env_os (svc_env S) l)"
  shows "kept (gcHolds content W s) (os S l)" "kept (gcHolds content W s) (askStructure S l f)"
    "kept (gcHolds content W s) (fileStatus S x)"
proof -
  show os: "kept (gcHolds content W s) (os S l)" for l unfolding os_def using assms by (intro holds_world) blast
  show "kept (gcHolds content W s) (askStructure S l f)" "kept (gcHolds content W s) (fileStatus S x)"
    unfolding askStructure_def fileStatus_def by (intro keeps os; simp add: kept_def)+
qed

lemma fileStatus_unhealthy:
  "\<nexists>db. f = Some (Inr db) \<Longrightarrow> fileStatus S f u = (Inr st, v) \<Longrightarrow> st \<noteq> None"
  by (auto simp: fileStatus_def ret_def elim!: bnd_InrE split: sum.splits option.splits)

lemma bucketsHealthy_refuses:
  assumes "\<forall>l. quiet content (env_os (svc_env S) l)" and "\<nexists>db. d_bdb s (bkt_ID b) = Some (Inr db)" and "b \<in> set bs"
  shows "hoare (gcHolds content W s) (bucketsHealthy S bs) (\<lambda>_ _. False) (\<lambda>_. gcHolds content W s)"
  using assms(3)
proof (induction bs)
  case (Cons a bs)
  note st = holds_os(3) [OF assms(1)]
  have kept_all: "kept (gcHolds content W s) (bucketsHealthy S cs)" for cs
    by (induction cs) (auto intro!: keeps st)
  show ?case
  proof (rule hoareI)
    fix u e t assume "gcHolds content W s u" "bucketsHealthy S (a # bs) u = (Inl e, t)"
    then show "gcHolds content W s t" by (rule keptD' [OF kept_all])
  next
    fix u x t assume u: "gcHolds content W s u" and "bucketsHealthy S (a # bs) u = (Inr x, t)"
    then obtain st' v where f: "fileStatus S (d_bdb u (bkt_ID a)) u = (Inr st', v)" and n: "st' = None"
      and r: "bucketsHealthy S bs v = (Inr x, t)"
      by (auto simp: gets_def fail_def elim!: bnd_InrE split: option.splits)
    from u have d: "d_bdb u = d_bdb s" by (simp add: gcHolds_def)
    from f n have "\<exists>db. d_bdb s (bkt_ID a) = Some (Inr db)" unfolding d by (metis fileStatus_unhealthy)
    with assms(2) Cons.prems have "b \<in> set bs" by auto
    moreover have "gcHolds content W s v" using keptD' [OF st u f] .
    ultimately show False using Cons.IH r by (blast dest: hoareD_Inr)
  qed
qed simp

lemma ensureHealthy_refuses:
  assumes "\<forall>l. quiet content (env_os (svc_env S) l)"
    and "svc_cacheDir S = [] \<or> (\<exists>b \<in> set bs. \<nexists>db. d_bdb s (bkt_ID b) = Some (Inr db))"
  shows "hoare (gcHolds content W s) (ensureGCLocalMetadataHealthy S bs) (\<lambda>_ _. False) (\<lambda>_. gcHolds content W s)"
proof (cases "svc_cacheDir S = []")
  case True
  then show ?thesis by (simp add: ensureGCLocalMetadataHealthy_def hoare_def fail_def)
next
  case False
  with assms(2) obtain b where "b \<in> set bs" "\<nexists>db. d_bdb s (bkt_ID b) = Some (Inr db)" by blast
  note refuse = bucketsHealthy_refuses [OF assms(1) this(2,1)]
  have "hoare (gcHolds content W s) (case status of Some why \<Rightarrow> fail (g why) | None \<Rightarrow> bucketsHealthy S bs)
      (\<lambda>_ _. False) (\<lambda>_. gcHolds content W s)" for status g
    using refuse by (cases status) (simp_all add: hoare_def fail_def)
  with False show ?thesis
    unfolding ensureGCLocalMetadataHealthy_def by (auto intro!: hoare_kept_bnd keeps holds_os(3) [OF assms(1)])
qed

lemma gcSvc_sel [simp]: "svc_env (gcSvc H cfg c) = ho_env H" "svc_cacheDir (gcSvc H cfg c) = cf_LocalCacheDir cfg"
  by (simp_all add: gcSvc_def)

lemma gc_checks:
  assumes os: "\<forall>l. quiet content (env_os (svc_env S) l)"
    and no: "svc_cacheDir S = [] \<or> (\<exists>b \<in> set (ListBuckets (d_structure s)). \<nexists>db. d_bdb s (bkt_ID b) = Some (Inr db))"
  shows "hoare (gcHolds content W s)
    (bnd (wrapE g (askStructure S l1 f)) (\<lambda>locs. thn (if locs = [] then fail e else ret ())
      (bnd (wrapE h (askStructure S l2 (\<lambda>d. Inr (ListBuckets d)))) (\<lambda>bs. thn (ensureGCLocalMetadataHealthy S bs) (m locs)))))
    (\<lambda>_ _. False) (\<lambda>_. gcHolds content W s)"
proof -
  note K = holds_os [OF os]
  have "hoare (gcHolds content W s) (wrapE h (askStructure S l2 (\<lambda>d. Inr (ListBuckets d))))
      (\<lambda>bs u. gcHolds content W s u \<and> bs = ListBuckets (d_structure s)) (\<lambda>_. gcHolds content W s)"
  proof (rule hoareI)
    fix u bs t assume u: "gcHolds content W s u" and r: "wrapE h (askStructure S l2 (\<lambda>d. Inr (ListBuckets d))) u = (Inr bs, t)"
    from u have "ListBuckets (d_structure u) = ListBuckets (d_structure s)" by (simp add: gcHolds_def)
    with askStructure_Inr [OF wrapE_InrD [OF r]] keptD' [OF kept_wrapE [OF K(2)] u r]
    show "gcHolds content W s t \<and> bs = ListBuckets (d_structure s)" by simp
  qed (rule keptD' [OF kept_wrapE [OF K(2)]])
  moreover have "hoare (\<lambda>u. gcHolds content W s u \<and> bs = ListBuckets (d_structure s))
      (thn (ensureGCLocalMetadataHealthy S bs) (m locs)) (\<lambda>_ _. False) (\<lambda>_. gcHolds content W s)" for bs locs
  proof (rule hoare_fact)
    assume bs: "bs = ListBuckets (d_structure s)"
    show "hoare (gcHolds content W s) (thn (ensureGCLocalMetadataHealthy S bs) (m locs)) (\<lambda>_ _. False) (\<lambda>_. gcHolds content W s)"
      by (rule hoare_thn [OF _ ensureHealthy_refuses [OF os]]) (use no bs in \<open>auto simp: hoare_def\<close>)
  qed
  ultimately have last: "hoare (gcHolds content W s)
      (bnd (wrapE h (askStructure S l2 (\<lambda>d. Inr (ListBuckets d)))) (\<lambda>bs. thn (ensureGCLocalMetadataHealthy S bs) (m locs)))
      (\<lambda>_ _. False) (\<lambda>_. gcHolds content W s)" for locs by (intro hoare_bnd)
  show ?thesis
    by (rule hoare_kept_bnd [OF kept_wrapE [OF K(2)] hoare_kept_thn [OF _ last]]) (intro keeps)
qed

lemma runGC_fails:
  assumes os: "\<forall>l. quiet content (env_os (ho_env H) l)" and rd: "\<forall>p. quiet content (ho_readFile H p)"
    and b: "b \<in> set (ListBuckets (d_structure s))" "\<nexists>db. d_bdb s (bkt_ID b) = Some (Inr db)"
  shows "hoare (gcHolds content W s) (runGC H cfgPath force proceed) (\<lambda>_ _. False) (\<lambda>_ u. content (d_world u) = W)"
proof -
  have load: "quiet content (LoadConfig H cfgPath)"
  proof (rule quietI)
    fix q v
    have "kept (\<lambda>w. content w q = v) (ho_readFile H cfgPath)" by (rule kept_quiet) (use rd in blast)
    then show "kept (\<lambda>w. content w q = v) (LoadConfig H cfgPath)" unfolding LoadConfig_def by (intro keeps)
  qed
  have run: "hoare (gcHolds content W s) (thn (wrapE g (os (gcSvc H cfg noopWebDAV) l))
      (thn (modify (\<lambda>u. if cf_LocalCacheDir cfg = [] then u\<lparr>d_structure := emptyStructure, d_bdb := Map.empty\<rparr> else u))
        (bnd (wrapE g1 (askStructure (gcSvc H cfg noopWebDAV) l1 f)) (\<lambda>locs. thn (if locs = [] then fail e else ret ())
          (bnd (wrapE h (askStructure (gcSvc H cfg noopWebDAV) l2 (\<lambda>d. Inr (ListBuckets d)))) (\<lambda>bs.
            thn (ensureGCLocalMetadataHealthy (gcSvc H cfg noopWebDAV) bs) (m locs)))))))
      (\<lambda>_ _. False) (\<lambda>_ u. content (d_world u) = W)" for g cfg l g1 l1 f e h l2 m
  proof -
    let ?s = "if cf_LocalCacheDir cfg = [] then s\<lparr>d_structure := emptyStructure, d_bdb := Map.empty\<rparr> else s"
    have "hoare (gcHolds content W s)
      (modify (\<lambda>u. if cf_LocalCacheDir cfg = [] then u\<lparr>d_structure := emptyStructure, d_bdb := Map.empty\<rparr> else u))
      (\<lambda>_. gcHolds content W ?s) (\<lambda>_ u. content (d_world u) = W)"
      by (auto simp: hoare_def modify_def gcHolds_def)
    moreover have "hoare (gcHolds content W ?s)
        (bnd (wrapE g1 (askStructure (gcSvc H cfg noopWebDAV) l1 f)) (\<lambda>locs. thn (if locs = [] then fail e else ret ())
          (bnd (wrapE h (askStructure (gcSvc H cfg noopWebDAV) l2 (\<lambda>d. Inr (ListBuckets d)))) (\<lambda>bs.
            thn (ensureGCLocalMetadataHealthy (gcSvc H cfg noopWebDAV) bs) (m locs)))))
        (\<lambda>_ _. False) (\<lambda>_ u. content (d_world u) = W)"
      by (rule hoare_post [OF gc_checks]) (use os b in \<open>auto simp: gcHolds_def\<close>)
    moreover have "kept (gcHolds content W s) (os (gcSvc H cfg noopWebDAV) l)"
      by (rule holds_os(1)) (simp add: os)
    then have "hoare (gcHolds content W s) (wrapE g (os (gcSvc H cfg noopWebDAV) l))
        (\<lambda>_. gcHolds content W s) (\<lambda>_ u. content (d_world u) = W)"
      by (intro hoare_post [OF hoare_kept [OF kept_wrapE]]) (auto simp: gcHolds_def)
    ultimately show ?thesis by (intro hoare_thn)
  qed
  have "hoare (gcHolds content W s) (wrapE g (onWorld (LoadConfig H cfgPath)))
      (\<lambda>_. gcHolds content W s) (\<lambda>_ u. content (d_world u) = W)" for g
    by (intro hoare_post [OF hoare_kept [OF kept_wrapE [OF holds_world [OF load]]]]) (auto simp: gcHolds_def)
  then show ?thesis unfolding runGC_def Let_def by (intro hoare_bnd [OF run])
qed

section \<open>Properties\<close>

definition booted :: "'w live daemon \<Rightarrow> 'w live site" where
  "booted d = \<lparr>st_daemon = d, st_admin = Map.empty, st_web = Map.empty\<rparr>"

text \<open>C31: the constraints of every database hold for ever. If they hold of the files a daemon finds on
  its disk, and every file that opens as a bucket database satisfies the constraints of its schema,
  then in every state a started daemon can reach - whatever requests it is sent, whatever the locations
  offer in a sync, and whatever call fails half way - the structure database, the ledger and every
  local bucket database satisfy theirs, the cache holds each bucket once and no more than its capacity,
  and no bucket the repair manager tracks is healthy.\<close>

theorem daemon_constraints:
  assumes "opens_wf (ho_env H)" and "disk_wf d" and "startDaemon H cfg d = (Inr i, d')"
    and "(daemonStep H cfg i)\<^sup>*\<^sup>* (booted d') t"
  shows "daemon_wf (svc_cap (mainSvc H cfg)) (st_daemon t)"
  using daemon_program.inv_run [OF main_wf [OF assms(1)] assms(4)] start_wf [OF assms(1-3)] by (simp add: booted_def)

theorem daemon_constraints_witness:
  "\<exists>i d' t. startDaemon demoHost demoConfig demoBoot = (Inr i, d') \<and> daemonStep demoHost demoConfig i (booted d') t
     \<and> daemon_wf (svc_cap (mainSvc demoHost demoConfig)) (st_daemon t)"
proof -
  from demo_start obtain i d' where b: "startDaemon demoHost demoConfig demoBoot = (Inr i, d')" by blast
  obtain r t where "daemonAct demoHost demoConfig i SyncTick (booted d') = (r, t)" by fastforce
  then have st: "daemonStep demoHost demoConfig i (booted d') t" by (rule happens)
  have "opens_wf (ho_env demoHost)" by (simp add: demoHost_def demoEnv_opens)
  moreover have "disk_wf demoBoot" by (simp add: disk_wf_def demoBoot_def)
  ultimately have "daemon_wf (svc_cap (mainSvc demoHost demoConfig)) (st_daemon t)"
    using b r_into_rtranclp [of "daemonStep demoHost demoConfig i", OF st] by (rule daemon_constraints)
  with b st show ?thesis by blast
qed

text \<open>C32: a collection that could lose data does not start. If the local database of one bucket is
  missing or does not open, \<open>webdavs3 gc\<close> fails, with or without \<open>--force\<close>, and every remote file is as
  it was.\<close>

theorem runGC_refuses:
  assumes "\<forall>l. quiet content (env_os (ho_env H) l)" and "\<forall>p. quiet content (ho_readFile H p)"
    and "b \<in> set (ListBuckets (d_structure s))" and "\<nexists>db. d_bdb s (bkt_ID b) = Some (Inr db)"
    and "runGC H cfgPath force proceed s = (r, t)"
  shows "(\<exists>e. r = Inl e) \<and> content (d_world t) = content (d_world s)"
proof -
  note refuse = runGC_fails [OF assms(1-4), where W = "content (d_world s)" and cfgPath = cfgPath and force = force and proceed = proceed]
  have "gcHolds content (content (d_world s)) s s" by (simp add: gcHolds_def)
  then show ?thesis using assms(5) hoareD_Inr [OF refuse] hoareD_Inl [OF refuse] by (cases r) blast+
qed

text \<open>A host with a cache directory; the first of the two buckets has its database, the second has lost it.\<close>

definition demoCacheHost :: "demoWorld host" where
  "demoCacheHost = demoHost\<lparr>ho_getenv := \<lambda>v. if v = ''WEBDAV3S_LOCAL_CACHE_DIR'' then ''/cache'' else []\<rparr>"

definition demoLost :: "demoWorld daemon" where
  "demoLost = demoState\<lparr>d_world := [(''/_data/x'', ''d'')], d_bdb := [''b1'' \<mapsto> Inr emptyBucketDB]\<rparr>"

definition demoSecond :: Bucket where
  "demoSecond = \<lparr>bkt_ID = ''b2'', bkt_Name = ''second'', bkt_OwnerUserID = ''u'', bkt_WebDAVLocationID = ''l'', bkt_CreatedAt = 2000000000\<rparr>"

lemma demo_lost: "fst (runGC demoCacheHost ''config.yaml'' True True demoLost)
   = Inl (ENew ''gc refused: local bucket metadata second (b2) is not healthy: missing'')"
  by (simp add: runGC_def LoadConfig_def overrideConfig_def overrideStr_def overrideInt_def demoCacheHost_def demoHost_def
    defaultConfig_def gcSvc_def demoEnv_def demoLost_def demoState_def demoStructure_def ListLocations_def ListBuckets_def scanBucket_def
    ensureGCLocalMetadataHealthy_def fileStatus_def askStructure_def os_def onWorld_def act_defs Let_def)

theorem runGC_refuses_witness:
  "\<exists>t. runGC demoCacheHost ''config.yaml'' True True demoLost
       = (Inl (ENew ''gc refused: local bucket metadata second (b2) is not healthy: missing''), t)
     \<and> map_of (d_world t) ''/_data/x'' = Some ''d''"
proof -
  obtain r t where run: "runGC demoCacheHost ''config.yaml'' True True demoLost = (r, t)" by fastforce
  have "demoSecond \<in> set (ListBuckets (d_structure demoLost))"
    by (simp add: demoLost_def demoState_def demoStructure_def ListBuckets_def scanBucket_def demoSecond_def timeUnix_def)
  moreover have "\<nexists>db. d_bdb demoLost (bkt_ID demoSecond) = Some (Inr db)" by (simp add: demoLost_def demoSecond_def)
  moreover have "\<forall>l. quiet map_of (env_os (ho_env demoCacheHost) l)" "\<forall>p. quiet map_of (ho_readFile demoCacheHost p)"
    by (simp_all add: demoCacheHost_def demoHost_def demoEnv_def quiet_def ret_def)
  ultimately have "map_of (d_world t) = map_of (d_world demoLost)"
    using run runGC_refuses [of map_of demoCacheHost] by metis
  then have "map_of (d_world t) ''/_data/x'' = Some ''d''" by (simp add: demoLost_def)
  with run demo_lost show ?thesis by (metis fst_conv)
qed

end
