(* ===== verification/Inspect.thy ===== *)
theory Inspect
  imports DaemonMain
begin

text \<open>
  \<open>cmd/webdavs3/inspect.go\<close>: the report on the local and remote metadata of every location and on the
  data files nothing refers to. A Go map from paths to sizes is an association list; what is read
  from it (membership, number of keys, sum of the sizes) does not depend on the order. The two ways
  of printing the report (JSON, and \<open>printInspectText\<close> with \<open>formatBytes\<close>) are not modelled: the
  result of \<open>runInspect\<close> is the report itself.
\<close>

section \<open>The report\<close>

record inspectBucketResult =
  ib_Name :: string
  ib_ID :: string
  ib_LocalMetaStatus :: string
  ib_RemoteMetaStatus :: string
  ib_ReferencedFiles :: int
  ib_ReferencedBytes :: int
  ib_RemoteDataFiles :: int
  ib_RemoteDataBytes :: int
  ib_OrphanFiles :: int
  ib_OrphanBytes :: int
  ib_MissingFiles :: int

record inspectLocationResult =
  il_DisplayName :: string
  il_ID :: string
  il_LocalStructureStatus :: string
  il_LocalStatsStatus :: string
  il_RemoteMetaFiles :: int
  il_RemoteMetaBytes :: int
  il_Error :: string
  il_Buckets :: "inspectBucketResult list"

type_synonym remoteDataMap = "(string \<times> int) list"

definition sumSizes :: "int list \<Rightarrow> int" where
  "sumSizes ns = foldl (\<lambda>t n. i64 (t + n)) 0 ns"

section \<open>Local files, read only\<close>

text \<open>
  \<open>openSQLiteReadOnly\<close> of a local database file, which may be missing or not a database; in this mode
  SQLite does not create a file.
\<close>

definition openSQLiteReadOnly :: "'w svc \<Rightarrow> (gerr + 'db) option \<Rightarrow> ('w daemon, gerr + 'db) act" where
  "openSQLiteReadOnly S file =
     thn (os S ''filepath.Abs'') (thn (os S ''sql.Open'') (thn (os S ''db.Ping'')
       (case file of None \<Rightarrow> fail (ESQL (DBFail ''unable to open database file'')) | Some db \<Rightarrow> ret db)))"

definition validateSQLiteReadOnly :: "'w svc \<Rightarrow> (gerr + 'db) option \<Rightarrow> ('w daemon, unit) act" where
  "validateSQLiteReadOnly S file =
     bnd (openSQLiteReadOnly S file) (\<lambda>db.
     thn (os S ''integrity_check'') (case db of Inl e \<Rightarrow> fail e | Inr _ \<Rightarrow> ret ()))"

definition checkStatus :: "string \<Rightarrow> gerr + unit \<Rightarrow> string" where
  "checkStatus what r = (case r of Inl e \<Rightarrow> what @ '': '' @ errText e | Inr _ \<Rightarrow> ''ok'')"

text \<open>\<open>localSQLiteStatus\<close>, of a file at a path of the host.\<close>

definition localSQLiteStatus :: "'w host \<Rightarrow> 'w svc \<Rightarrow> string \<Rightarrow> (gerr + 'db) option \<Rightarrow> ('w daemon, string) act" where
  "localSQLiteStatus H S dbPath file =
     bnd (attempt (onWorld (ho_stat H dbPath))) (\<lambda>st. case st of
       Inl e \<Rightarrow> ret (''stat failed: '' @ errText e)
     | Inr None \<Rightarrow> ret ''missing''
     | Inr (Some _) \<Rightarrow>
         bnd (attempt (validateSQLiteReadOnly S file)) (\<lambda>r. ret (checkStatus ''corrupt'' r)))"

definition loadInspectStructure :: "'w svc \<Rightarrow> ('w daemon, Location list \<times> Bucket list) act" where
  "loadInspectStructure S =
     thn (os S ''filepath.Abs'') (thn (os S ''sql.Open'') (thn (os S ''db.Ping'')
    (bnd (wrapE (wrapAs ''list locations'') (askStructure S ''inspect.locations'' (\<lambda>d. Inr (ListLocations d)))) (\<lambda>locs.
     bnd (wrapE (wrapAs ''list buckets'') (askStructure S ''inspect.buckets'' (\<lambda>d. Inr (ListBuckets d)))) (\<lambda>bs.
       ret (locs, bs))))))"

text \<open>What the rows of a bucket database refer to: a path and a size each.\<close>

definition bucketReferences :: "bucketDB \<Rightarrow> (string \<times> int) list" where
  "bucketReferences b =
     concat (map (\<lambda>r. if obj_HashPath r \<noteq> [] then [(obj_HashPath r, obj_SizeBytes r)]
         else map (\<lambda>c. (chk_Path c, chk_Size c)) (loadChunks b (obj_Key r))) (filter obj_UploadComplete (objects b)))
     @ map (\<lambda>p. (mpp_HashPath p, mpp_SizeBytes p)) (multipart_parts b)"

definition loadBucketReferencesReadOnly :: "'w svc \<Rightarrow> (gerr + bucketDB) option \<Rightarrow> ('w daemon, (string \<times> int) list) act" where
  "loadBucketReferencesReadOnly S file =
     bnd (openSQLiteReadOnly S file) (\<lambda>db.
     thn (os S ''SELECT objects'') (thn (os S ''SELECT object_chunks'') (thn (os S ''SELECT multipart_parts'')
       (case db of Inl e \<Rightarrow> fail e | Inr b \<Rightarrow> ret (bucketReferences b)))))"

section \<open>Remote files\<close>

definition putSize :: "string \<Rightarrow> int \<Rightarrow> remoteDataMap \<Rightarrow> remoteDataMap" where
  "putSize path n m = (path, n) # filter (\<lambda>(p, _). p \<noteq> path) m"

definition putInfos :: "string \<Rightarrow> fileInfo list \<Rightarrow> remoteDataMap \<Rightarrow> remoteDataMap" where
  "putInfos dir infos m = foldl (\<lambda>m fi. putSize (dir @ fi_Name fi) (fi_Size fi) m) m infos"

text \<open>The directories below \<open>dir\<close>, one after the other; one that cannot be listed is passed over.\<close>

fun collectDirs :: "'w Client \<Rightarrow> string \<Rightarrow> fileInfo list \<Rightarrow> remoteDataMap \<Rightarrow> ('w daemon, remoteDataMap) act" where
  "collectDirs c dir [] m = ret m"
| "collectDirs c dir (fi # fis) m =
     (let sub = dir @ fi_Name fi in
      bnd (attempt (onWorld (cl_ReadDirInfo c sub))) (\<lambda>r.
        collectDirs c dir fis (case r of Inl _ \<Rightarrow> m | Inr infos \<Rightarrow> putInfos (sub @ ''/'') infos m)))"

definition collectBelow :: "'w Client \<Rightarrow> string \<Rightarrow> (string \<Rightarrow> bool) \<Rightarrow> remoteDataMap \<Rightarrow> ('w daemon, remoteDataMap) act" where
  "collectBelow c dir skip m =
     bnd (attempt (onWorld (cl_ReadDirInfo c dir))) (\<lambda>r. case r of
       Inl _ \<Rightarrow> ret m
     | Inr infos \<Rightarrow> collectDirs c dir (filter (\<lambda>fi. \<not> skip (fi_Name fi)) infos) m)"

definition collectRemoteDataFiles :: "'w Client \<Rightarrow> string \<Rightarrow> ('w daemon, remoteDataMap) act" where
  "collectRemoteDataFiles c baseDir =
     bnd (collectBelow c (baseDir @ ''_data/'') (\<lambda>name. name = ''.tmp'') [])
         (collectBelow c (baseDir @ ''_parts/'') (\<lambda>_. False))"

definition collectRemoteMetaFiles :: "'w Client \<Rightarrow> string \<Rightarrow> ('w daemon, remoteDataMap) act" where
  "collectRemoteMetaFiles c baseDir =
     bnd (attempt (onWorld (cl_ReadDirInfo c (baseDir @ ''_meta/'')))) (\<lambda>r.
       ret (case r of Inl _ \<Rightarrow> [] | Inr infos \<Rightarrow> putInfos (baseDir @ ''_meta/'') infos []))"

text \<open>The downloaded file is temporary; it is validated like a local one.\<close>

definition checkRemoteDB :: "'w svc \<Rightarrow> 'w Client \<Rightarrow> string \<Rightarrow> ('w daemon, string) act" where
  "checkRemoteDB S c remotePath =
     bnd (attempt (os S ''CreateTemp'')) (\<lambda>t. case t of
       Inl e \<Rightarrow> ret (''temp file error: '' @ errText e)
     | Inr _ \<Rightarrow>
         bnd (attempt (onWorld (cl_DownloadToFile c remotePath))) (\<lambda>d. case d of
           Inl e \<Rightarrow> thn (attempt (os S ''Remove'')) (ret (''download failed: '' @ errText e))
         | Inr data \<Rightarrow>
             bnd (attempt (validateSQLiteReadOnly S (Some (env_openBucket (svc_env S) data)))) (\<lambda>r.
               thn (attempt (os S ''Remove'')) (ret (checkStatus ''corrupt'' r)))))"

section \<open>One bucket\<close>

definition inspectBucket ::
  "'w svc \<Rightarrow> 'w Client \<Rightarrow> Bucket \<Rightarrow> Location \<Rightarrow> remoteDataMap \<Rightarrow> ('w daemon, inspectBucketResult \<times> string list) act" where
  "inspectBucket S c bkt loc remoteData =
     bnd (gets (\<lambda>s. d_bdb s (bkt_ID bkt))) (\<lambda>file.
     bnd (if svc_cacheDir S = [] then ret ''no local cache dir''
          else bnd (attempt (validateSQLiteReadOnly S file)) (\<lambda>r. ret (checkStatus ''corrupt'' r))) (\<lambda>localStatus.
     bnd (checkRemoteDB S c (loc_BaseDir loc @ ''_meta/'' @ bkt_ID bkt @ ''.db'')) (\<lambda>remoteStatus.
     bnd (if svc_cacheDir S = [] then ret []
          else bnd (attempt (loadBucketReferencesReadOnly S file)) (\<lambda>r.
            ret (case r of Inl _ \<Rightarrow> [] | Inr refs \<Rightarrow> refs))) (\<lambda>refs.
     let referenced = remdups (map fst refs) in
     ret (\<lparr>ib_Name = bkt_Name bkt, ib_ID = bkt_ID bkt, ib_LocalMetaStatus = localStatus,
           ib_RemoteMetaStatus = remoteStatus, ib_ReferencedFiles = int (length refs),
           ib_ReferencedBytes = sumSizes (map snd refs), ib_RemoteDataFiles = 0, ib_RemoteDataBytes = 0,
           ib_OrphanFiles = 0, ib_OrphanBytes = 0,
           ib_MissingFiles = int (length (filter (\<lambda>p. p \<notin> fst ` set remoteData) referenced))\<rparr>,
          referenced)))))"

section \<open>One location, and all\<close>

fun inspectBuckets ::
  "'w svc \<Rightarrow> 'w Client \<Rightarrow> Location \<Rightarrow> remoteDataMap \<Rightarrow> Bucket list
     \<Rightarrow> ('w daemon, inspectBucketResult list \<times> string list) act" where
  "inspectBuckets S c loc remoteData [] = ret ([], [])"
| "inspectBuckets S c loc remoteData (bkt # bkts) =
     bnd (inspectBucket S c bkt loc remoteData) (\<lambda>(br, referenced).
     bnd (inspectBuckets S c loc remoteData bkts) (\<lambda>(brs, others). ret (br # brs, referenced @ others)))"

definition selected :: "Location \<Rightarrow> string \<Rightarrow> Bucket \<Rightarrow> bool" where
  "selected loc filterBucket bkt \<longleftrightarrow>
     bkt_WebDAVLocationID bkt = loc_ID loc \<and> \<not> (filterBucket \<noteq> [] \<and> bkt_Name bkt \<noteq> filterBucket)"

definition attachTotals :: "remoteDataMap \<Rightarrow> string list \<Rightarrow> inspectBucketResult \<Rightarrow> inspectBucketResult" where
  "attachTotals remoteData globalReferenced br =
     (let orphans = filter (\<lambda>(path, _). path \<notin> set globalReferenced) remoteData in
      br\<lparr>ib_OrphanFiles := int (length orphans), ib_OrphanBytes := sumSizes (map snd orphans),
         ib_RemoteDataFiles := int (length remoteData), ib_RemoteDataBytes := sumSizes (map snd remoteData)\<rparr>)"

definition inspectLocation ::
  "'w host \<Rightarrow> Config \<Rightarrow> string \<Rightarrow> string \<Rightarrow> string \<Rightarrow> Bucket list \<Rightarrow> Location \<Rightarrow> ('w daemon, inspectLocationResult) act" where
  "inspectLocation H cfg structureStatus statsStatus filterBucket allBuckets loc =
     bnd (onWorld (webdavNew H (loc_URL loc) (loc_Username loc) (locationPassword H cfg loc))) (\<lambda>c.
     let S = gcSvc H cfg c;
         result = \<lparr>il_DisplayName = loc_DisplayName loc, il_ID = loc_ID loc, il_LocalStructureStatus = structureStatus,
                   il_LocalStatsStatus = statsStatus, il_RemoteMetaFiles = 0, il_RemoteMetaBytes = 0,
                   il_Error = [], il_Buckets = []\<rparr> in
     bnd (attempt (onWorld (cl_Ping c))) (\<lambda>p. case p of
       Inl e \<Rightarrow> ret (result\<lparr>il_Error := ''unreachable: '' @ errText e\<rparr>)
     | Inr _ \<Rightarrow>
         bnd (collectRemoteDataFiles c (loc_BaseDir loc)) (\<lambda>remoteData.
         bnd (collectRemoteMetaFiles c (loc_BaseDir loc)) (\<lambda>remoteMeta.
         bnd (inspectBuckets S c loc remoteData (filter (selected loc filterBucket) allBuckets)) (\<lambda>(brs, globalReferenced).
           ret (result\<lparr>il_RemoteMetaFiles := int (length remoteMeta), il_RemoteMetaBytes := sumSizes (map snd remoteMeta),
                       il_Buckets := map (attachTotals remoteData globalReferenced) brs\<rparr>))))))"

fun inspectLocations ::
  "(Location \<Rightarrow> ('w daemon, inspectLocationResult) act) \<Rightarrow> Location list \<Rightarrow> ('w daemon, inspectLocationResult list) act" where
  "inspectLocations f [] = ret []"
| "inspectLocations f (loc # locs) = bnd (f loc) (\<lambda>r. bnd (inspectLocations f locs) (\<lambda>rs. ret (r # rs)))"

definition runInspect :: "'w host \<Rightarrow> string \<Rightarrow> string \<Rightarrow> ('w daemon, inspectLocationResult list) act" where
  "runInspect H cfgPath filterBucket =
     bnd (wrapE (wrapAs ''load config'') (onWorld (LoadConfig H cfgPath))) (\<lambda>cfg.
     if cf_LocalCacheDir cfg = [] then fail (ENew ''inspect requires local_cache_dir'')
     else
       let S = gcSvc H cfg noopWebDAV; structPath = pathJoin [cf_LocalCacheDir cfg, ''structure.db''] in
       bnd (wrapE (wrapAs ''read structure.db'') (loadInspectStructure S)) (\<lambda>(locs, allBuckets).
       thn (if locs = [] then fail (ENew ''no locations in structure.db - run daemon first to populate it'') else ret ())
      (bnd (gets (\<lambda>s. (d_structure s, d_stats s))) (\<lambda>(structure, stats).
       bnd (localSQLiteStatus H S structPath (Some (Inr structure))) (\<lambda>structureStatus.
       bnd (localSQLiteStatus H S (pathJoin [cf_LocalCacheDir cfg, ''stats.db'']) (Some (Inr stats))) (\<lambda>statsStatus.
         inspectLocations (inspectLocation H cfg structureStatus statsStatus filterBucket allBuckets) locs))))))"

definition shortID :: "string \<Rightarrow> string" where
  "shortID ident = (if length ident > 8 then take 8 ident @ ''...'' else ident)"

end
