(* ===== verification/InspectFacts.thy ===== *)
theory InspectFacts
  imports Inspect DaemonRun
begin

text \<open>
  \<open>webdavs3 inspect\<close>: a report changes nothing, and its numbers account for every remote data file.
\<close>

section \<open>A report changes nothing\<close>

text \<open>
  What the host promises for the calls a report makes: none of them changes the content of a server,
  and the two clients \<open>gowebdav\<close> has for a location behave as that library documents.
\<close>

definition host_looks :: "('w \<Rightarrow> string \<rightharpoonup> bytes) \<Rightarrow> 'w host \<Rightarrow> bool" where
  "host_looks content H \<longleftrightarrow> (\<forall>p. quiet content (ho_readFile H p)) \<and> (\<forall>p. quiet content (ho_stat H p))
     \<and> (\<forall>url u p. gowebdav_library (fst (ho_gowebdav H url u p)) (ho_env H) content
          \<and> gowebdav_library (snd (ho_gowebdav H url u p)) (ho_env H) content)"

definition lookedAt :: "('w \<Rightarrow> string \<rightharpoonup> bytes) \<Rightarrow> 'w daemon \<Rightarrow> 'w daemon \<Rightarrow> bool" where
  "lookedAt content s t \<longleftrightarrow> (\<exists>w. t = s\<lparr>d_world := w\<rparr> \<and> content w = content (d_world s))"

lemma quiet_kept: "quiet content m \<Longrightarrow> kept (\<lambda>w. content w = W) m"
  by (simp add: quiet_def kept_def)

lemma looked_world: "(\<And>W. kept (\<lambda>w. content w = W) m) \<Longrightarrow> kept (lookedAt content s) (onWorld m)"
  by (auto simp: kept_def lookedAt_def onWorld_def split: prod.split) (metis snd_conv)

lemma looks_config: "host_looks content H \<Longrightarrow> kept (\<lambda>w. content w = W) (LoadConfig H p)"
  unfolding LoadConfig_def host_looks_def by (intro keeps quiet_kept) blast

lemma looks_env: "host_looks content H \<Longrightarrow> quiet content (env_os (ho_env H) l)"
  unfolding host_looks_def using gowebdav_library.os_quiet(1) by blast

text \<open>The client a location gets, as far as a report uses it.\<close>

definition looking :: "('w \<Rightarrow> string \<rightharpoonup> bytes) \<Rightarrow> 'w Client \<Rightarrow> bool" where
  "looking content c \<longleftrightarrow> (\<forall>W p. kept (\<lambda>w. content w = W) (cl_Ping c) \<and> kept (\<lambda>w. content w = W) (cl_ReadDirInfo c p)
     \<and> kept (\<lambda>w. content w = W) (cl_DownloadToFile c p))"

lemma library_looking: "gowebdav_library g E content \<Longrightarrow> looking content (ClientImpl (env_os E) g)"
  unfolding looking_def ClientImpl_def
  using gowebdav_library.looks_quiet(2,3) [THEN quiet_kept, of g E content] gowebdav_library.impl_download_quiet [THEN quiet_kept, of g E content]
  by (auto intro!: keeps)

lemma kept_hoare_bnd:
  "hoare I m (\<lambda>a t. I t \<and> A a) (\<lambda>_. I) \<Longrightarrow> (\<And>a. A a \<Longrightarrow> kept I (f a)) \<Longrightarrow> kept I (bnd m f)"
  unfolding hoare_def kept_def bnd_def by (fastforce split: prod.split sum.split)

lemma looks_client:
  assumes "host_looks content H"
  shows "hoare (lookedAt content s) (onWorld (webdavNew H url u p)) (\<lambda>c t. lookedAt content s t \<and> looking content c) (\<lambda>_. lookedAt content s)"
proof -
  obtain g1 g2 where g: "ho_gowebdav H url u p = (g1, g2)" by fastforce
  have lib: "gowebdav_library g1 (ho_env H) content" "gowebdav_library g2 (ho_env H) content"
    using assms unfolding host_looks_def by (metis g fst_conv, metis g snd_conv)
  have "kept (lookedAt content s) (onWorld (webdavNew H url u p))"
    unfolding webdavNew_def g NewClient_def
    by (simp, intro looked_world keeps quiet_kept gowebdav_library.looks_quiet(2) [OF lib(1)])
  moreover have "looking content c" if "webdavNew H url u p w = (Inr c, w')" for c w w'
    using that lib [THEN library_looking] unfolding webdavNew_def g NewClient_def
    by (auto elim!: bnd_InrE simp: ret_def split: sum.splits)
  ultimately show ?thesis
    by (intro hoareI) (auto dest: keptD' [where I = "lookedAt content s"] simp: onWorld_def split: prod.splits)
qed

locale inspection =
  fixes content :: "'w \<Rightarrow> string \<rightharpoonup> bytes" and H :: "'w host"
  assumes host: "host_looks content H"
begin

lemma looked_os [keeps]: "kept (lookedAt content s) (os (gcSvc H cfg c) l)"
  unfolding os_def using looks_env [OF host] by (intro looked_world quiet_kept) simp

lemma looked_ask [keeps]: "kept (lookedAt content s) (askStructure (gcSvc H cfg c) l f)"
  unfolding askStructure_def by (intro keeps) (simp add: kept_def)

lemma looked_open [keeps]:
  "kept (lookedAt content s) (openSQLiteReadOnly (gcSvc H cfg c) file)"
  "kept (lookedAt content s) (validateSQLiteReadOnly (gcSvc H cfg c) file)"
  "kept (lookedAt content s) (loadInspectStructure (gcSvc H cfg c))"
  "kept (lookedAt content s) (loadBucketReferencesReadOnly (gcSvc H cfg c) bfile)"
  unfolding openSQLiteReadOnly_def validateSQLiteReadOnly_def loadInspectStructure_def loadBucketReferencesReadOnly_def
  by (intro keeps)+

lemma looked_status [keeps]: "kept (lookedAt content s) (localSQLiteStatus H (gcSvc H cfg c) p file)"
  unfolding localSQLiteStatus_def using host by (intro keeps looked_world quiet_kept) (simp add: host_looks_def)

lemma looked_collect [keeps]:
  assumes "looking content c"
  shows "kept (lookedAt content s) (collectRemoteDataFiles c base)" "kept (lookedAt content s) (collectRemoteMetaFiles c base)"
proof -
  have dir: "kept (lookedAt content s) (onWorld (cl_ReadDirInfo c p))" for p
    using assms by (intro looked_world) (simp add: looking_def)
  have "kept (lookedAt content s) (collectDirs c d fis m)" for d fis m
    by (induction fis arbitrary: m) (auto simp: Let_def intro!: keeps dir)
  then show "kept (lookedAt content s) (collectRemoteDataFiles c base)" "kept (lookedAt content s) (collectRemoteMetaFiles c base)"
    unfolding collectRemoteDataFiles_def collectRemoteMetaFiles_def collectBelow_def by (intro keeps dir; assumption)+
qed

lemma looked_bucket [keeps]:
  assumes "looking content c"
  shows "kept (lookedAt content s) (inspectBuckets (gcSvc H cfg c) c loc m bs)"
proof -
  have "kept (lookedAt content s) (onWorld (cl_DownloadToFile c p))" for p
    using assms by (intro looked_world) (simp add: looking_def)
  then have "kept (lookedAt content s) (inspectBucket (gcSvc H cfg c) c b loc m)" for b
    unfolding inspectBucket_def checkRemoteDB_def by (intro keeps)
  then show ?thesis by (induction bs) (auto intro!: keeps)
qed

lemma looked_location: "kept (lookedAt content s) (inspectLocation H cfg st1 st2 f bs loc)"
proof -
  have ping: "looking content c \<Longrightarrow> kept (lookedAt content s) (onWorld (cl_Ping c))" for c
    by (intro looked_world) (simp add: looking_def)
  show ?thesis unfolding inspectLocation_def Let_def
    by (rule kept_hoare_bnd [OF looks_client [OF host]]) (intro keeps ping; assumption)
qed

lemma looked_all: "kept (lookedAt content s) (runInspect H cfgPath f)"
proof -
  have "kept (lookedAt content s) (inspectLocations (inspectLocation H cfg st1 st2 f bs) locs)" for cfg st1 st2 bs locs
    by (induction locs) (auto intro!: keeps looked_location)
  then show ?thesis unfolding runInspect_def Let_def
    by (intro keeps looked_world looks_config [OF host])
qed

end

lemma demoHost_looks: "host_looks map_of demoHost"
  using demoLibrary.gowebdav_library_axioms
  by (simp add: host_looks_def demoHost_def quiet_def ret_def)

interpretation demoInspection: inspection map_of demoHost
  by unfold_locales (rule demoHost_looks)

section \<open>The numbers of a report\<close>

definition referencedPaths :: "bucketDB \<Rightarrow> string set" where
  "referencedPaths b = fst ` set (bucketReferences b)"

lemma world_bdb: "kept (\<lambda>u. d_bdb u = D) (onWorld m)"
  by (simp add: kept_def onWorld_def split: prod.split)

lemma same_bdb:
  "kept (\<lambda>u. d_bdb u = D) (checkRemoteDB S c p)" "kept (\<lambda>u. d_bdb u = D) (collectRemoteDataFiles c base)"
  "kept (\<lambda>u. d_bdb u = D) (collectRemoteMetaFiles c base)" "kept (\<lambda>u. d_bdb u = D) (inspectBucket S c b loc m)"
proof -
  note [keeps] = world_bdb
  have [keeps]: "kept (\<lambda>u. d_bdb u = D) (os S l)" for l unfolding os_def by (rule world_bdb)
  have [keeps]: "kept (\<lambda>u. d_bdb u = D) (collectDirs c d fis m)" for d fis m
    by (induction fis arbitrary: m) (auto simp: Let_def intro!: keeps)
  have [keeps]: "kept (\<lambda>u. d_bdb u = D) (openSQLiteReadOnly S f)" for f :: "(gerr + 'b) option"
    unfolding openSQLiteReadOnly_def by (intro keeps)
  show "kept (\<lambda>u. d_bdb u = D) (collectRemoteDataFiles c base)" "kept (\<lambda>u. d_bdb u = D) (collectRemoteMetaFiles c base)"
    unfolding collectRemoteDataFiles_def collectRemoteMetaFiles_def collectBelow_def by (intro keeps)+
  show [keeps]: "kept (\<lambda>u. d_bdb u = D) (checkRemoteDB S c p)" for p
    unfolding checkRemoteDB_def validateSQLiteReadOnly_def openSQLiteReadOnly_def by (intro keeps)
  show "kept (\<lambda>u. d_bdb u = D) (inspectBucket S c b loc m)"
    unfolding inspectBucket_def validateSQLiteReadOnly_def openSQLiteReadOnly_def loadBucketReferencesReadOnly_def Let_def
    by (intro keeps)
qed

definition os_works :: "'w svc \<Rightarrow> bool" where
  "os_works S \<longleftrightarrow> (\<forall>l w. fst (env_os (svc_env S) l w) = Inr ())"

lemma os_works_thn: "os_works S \<Longrightarrow> \<exists>w. thn (os S l) m u = m (u\<lparr>d_world := w\<rparr>)"
  by (auto simp: os_works_def thn_def bnd_def os_def onWorld_def split: prod.split) (metis fst_conv sum.case(2))

lemma loads_references:
  assumes "os_works S" and "loadBucketReferencesReadOnly S (Some (Inr b)) u = (r, v)"
  shows "r = Inr (bucketReferences b)"
proof -
  have step: "thn (os S l) m u = (r, v) \<Longrightarrow> \<exists>w. m (u\<lparr>d_world := w\<rparr>) = (r, v)" for l and m :: "('a daemon, 'x) act" and u v and r :: "gerr + 'x"
    using os_works_thn [OF assms(1)] by metis
  have opens: "\<exists>w. openSQLiteReadOnly S (Some db) u = (Inr db, u\<lparr>d_world := w\<rparr>)" for db :: "gerr + bucketDB" and u
  proof -
    obtain r' v' where o: "openSQLiteReadOnly S (Some db) u = (r', v')" by fastforce
    then show ?thesis unfolding openSQLiteReadOnly_def by (auto dest!: step simp: ret_def)
  qed
  from assms(2) opens [of "Inr b" u] show ?thesis
    unfolding loadBucketReferencesReadOnly_def by (auto dest!: step simp: ret_def)
qed

lemma inspectBucket_result:
  assumes "os_works S" "svc_cacheDir S \<noteq> []" and b: "d_bdb u (bkt_ID bkt) = Some (Inr b)"
    and r: "inspectBucket S c bkt loc remote u = (Inr (br, refd), v)"
  shows "set refd = referencedPaths b \<and> ib_ID br = bkt_ID bkt \<and> ib_ReferencedFiles br = int (length (bucketReferences b))
    \<and> ib_MissingFiles br = int (card (referencedPaths b - fst ` set remote))"
proof -
  from r b assms(2) obtain refs w w' where refs: "loadBucketReferencesReadOnly S (Some (Inr b)) w = (refs, w')"
    and br: "refd = remdups (map fst (case refs of Inl _ \<Rightarrow> [] | Inr refs \<Rightarrow> refs))" "ib_ID br = bkt_ID bkt"
      "ib_ReferencedFiles br = int (length (case refs of Inl _ \<Rightarrow> [] | Inr refs \<Rightarrow> refs))"
      "ib_MissingFiles br = int (length (filter (\<lambda>p. p \<notin> fst ` set remote) refd))"
    unfolding inspectBucket_def Let_def
    by (auto elim!: bnd_InrE dest!: attempt_InrD simp: gets_def ret_def)
  have "length (filter (\<lambda>p. p \<notin> fst ` set remote) refd) = card {p \<in> set refd. p \<notin> fst ` set remote}"
    by (subst distinct_card [symmetric]) (simp_all add: br(1))
  with br loads_references [OF assms(1) refs] show ?thesis
    by (auto simp: referencedPaths_def set_diff_eq)
qed

definition reportOf :: "'w daemon \<Rightarrow> string set \<Rightarrow> Bucket \<Rightarrow> inspectBucketResult \<Rightarrow> bool" where
  "reportOf s remote bkt br \<longleftrightarrow> ib_ID br = bkt_ID bkt
     \<and> ib_ReferencedFiles br = int (length (bucketReferences (bdbOf s (bkt_ID bkt))))
     \<and> ib_MissingFiles br = int (card (referencedPaths (bdbOf s (bkt_ID bkt)) - remote))"

lemma inspectBuckets_result:
  assumes "os_works S" "svc_cacheDir S \<noteq> []"
    and "\<forall>b \<in> set bkts. \<exists>db. d_bdb s (bkt_ID b) = Some (Inr db)" and "d_bdb u = d_bdb s"
    and "inspectBuckets S c loc remote bkts u = (Inr (brs, refd), v)"
  shows "list_all2 (reportOf s (fst ` set remote)) bkts brs \<and> set refd = (\<Union>b \<in> set bkts. referencedPaths (bdbOf s (bkt_ID b)))"
  using assms(3-5)
proof (induction bkts arbitrary: u brs refd)
  case (Cons b bs)
  then obtain br refd1 u1 brs' refd2 where 1: "inspectBucket S c b loc remote u = (Inr (br, refd1), u1)"
    and 2: "inspectBuckets S c loc remote bs u1 = (Inr (brs', refd2), v)" and 3: "brs = br # brs'" "refd = refd1 @ refd2"
    by (auto elim!: bnd_InrE simp: ret_def split: prod.splits)
  from Cons.prems obtain db where db: "d_bdb u (bkt_ID b) = Some (Inr db)" "bdbOf s (bkt_ID b) = db"
    by (auto simp: bdbOf_def)
  have "d_bdb u1 = d_bdb s" using keptD' [OF same_bdb(4) Cons.prems(2) 1] .
  with Cons.IH Cons.prems(1) 2 inspectBucket_result [OF assms(1,2) db(1) 1] db(2) 3 show ?case
    by (simp add: reportOf_def)
qed (simp add: ret_def)

lemma putInfos_distinct: "distinct (map fst m) \<Longrightarrow> distinct (map fst (putInfos dir infos m))"
proof -
  have put: "distinct (map fst m) \<Longrightarrow> distinct (map fst (putSize p n m))" for p n and m :: remoteDataMap
    by (auto simp: putSize_def distinct_map_filter)
  show "distinct (map fst m) \<Longrightarrow> ?thesis" unfolding putInfos_def
    by (induction infos arbitrary: m) (simp_all add: put)
qed

lemma collectDirs_distinct:
  "collectDirs c d fis m u = (Inr m', v) \<Longrightarrow> distinct (map fst m) \<Longrightarrow> distinct (map fst m')"
proof (induction fis arbitrary: m u)
  case (Cons fi fis)
  then show ?case by (auto simp: Let_def putInfos_distinct elim!: bnd_InrE split: sum.splits)
qed (simp add: ret_def)

lemma collectBelow_distinct:
  "collectBelow c d sk m u = (Inr m', v) \<Longrightarrow> distinct (map fst m) \<Longrightarrow> distinct (map fst m')"
  unfolding collectBelow_def by (auto simp: ret_def elim!: bnd_InrE split: sum.splits dest: collectDirs_distinct)

lemma collected_distinct: "collectRemoteDataFiles c base u = (Inr m, v) \<Longrightarrow> distinct (map fst m)"
  unfolding collectRemoteDataFiles_def by (auto elim!: bnd_InrE dest!: collectBelow_distinct)

lemma distinct_keys_card: "distinct (map fst m) \<Longrightarrow> length m = card (fst ` set m)"
  by (metis distinct_card length_map set_map)

lemma list_all2_right:
  "list_all2 P xs ys \<Longrightarrow> y \<in> set ys \<Longrightarrow> (\<And>x. x \<in> set xs \<Longrightarrow> P x y \<Longrightarrow> Q) \<Longrightarrow> Q"
  by (induction rule: list_all2_induct) auto

section \<open>Properties\<close>

text \<open>C33: a report changes nothing. Whatever \<open>webdavs3 inspect\<close> finds, and whichever of its calls fail, no
  local database, no entry of a cache and no remote file is different afterwards.\<close>

theorem runInspect_readonly:
  assumes "host_looks content H" and "runInspect H cfgPath filterBucket s = (r, t)"
  shows "\<exists>w. t = s\<lparr>d_world := w\<rparr> \<and> content w = content (d_world s)"
proof -
  have "lookedAt content s s" unfolding lookedAt_def by (rule exI [of _ "d_world s"]) simp
  with inspection.looked_all [OF inspection.intro [OF assms(1)]] assms(2) show ?thesis
    by (metis keptD' lookedAt_def)
qed

text \<open>C34: the numbers of a report add up. When the local databases of the inspected buckets can be read, the orphans
  reported with each bucket are exactly the files found below \<open>_data/\<close> and \<open>_parts/\<close> that no inspected bucket refers
  to, and the missing files of a bucket are exactly the files it refers to that were not found.\<close>

theorem inspectLocation_accounts:
  assumes "\<forall>l w. fst (env_os (ho_env H) l w) = Inr ()" and "cf_LocalCacheDir cfg \<noteq> []"
    and "\<forall>b \<in> set bs. selected loc f b \<longrightarrow> (\<exists>db. d_bdb s (bkt_ID b) = Some (Inr db))"
    and "inspectLocation H cfg st1 st2 f bs loc s = (Inr res, t)" and "br \<in> set (il_Buckets res)"
  shows "\<exists>c w remote u. collectRemoteDataFiles c (loc_BaseDir loc) (s\<lparr>d_world := w\<rparr>) = (Inr remote, u)
    \<and> ib_RemoteDataFiles br = int (card (fst ` set remote))
    \<and> ib_OrphanFiles br = int (card (fst ` set remote
         - (\<Union>b \<in> {b \<in> set bs. selected loc f b}. referencedPaths (bdbOf s (bkt_ID b)))))
    \<and> (\<exists>b \<in> set bs. selected loc f b \<and> ib_ID br = bkt_ID b
         \<and> ib_MissingFiles br = int (card (referencedPaths (bdbOf s (bkt_ID b)) - fst ` set remote)))"
proof -
  let ?refs = "\<Union>b \<in> {b \<in> set bs. selected loc f b}. referencedPaths (bdbOf s (bkt_ID b))"
  from assms(4,5) obtain c u1 u2 w remote u meta v brs refd v' where
    n: "onWorld (webdavNew H (loc_URL loc) (loc_Username loc) (locationPassword H cfg loc)) s = (Inr c, u1)"
    and p: "attempt (onWorld (cl_Ping c)) u1 = (Inr (Inr w), u2)"
    and d: "collectRemoteDataFiles c (loc_BaseDir loc) u2 = (Inr remote, u)"
    and m: "collectRemoteMetaFiles c (loc_BaseDir loc) u = (Inr meta, v)"
    and b: "inspectBuckets (gcSvc H cfg c) c loc remote (filter (selected loc f) bs) v = (Inr (brs, refd), v')"
    and br: "br \<in> attachTotals remote refd ` set brs"
    unfolding inspectLocation_def Let_def
    by (auto elim!: bnd_InrE simp: ret_def split: sum.splits prod.splits)
  have u2: "\<exists>x. u2 = s\<lparr>d_world := x\<rparr>"
    using n p by (auto simp: onWorld_def attempt_def split: prod.splits if_splits sum.splits)
  then have "d_bdb u2 = d_bdb s" by auto
  then have "d_bdb v = d_bdb s" using keptD' [OF same_bdb(2) _ d] keptD' [OF same_bdb(3) _ m] by blast
  moreover have "os_works (gcSvc H cfg c)" using assms(1) by (simp add: os_works_def)
  ultimately have B: "list_all2 (reportOf s (fst ` set remote)) (filter (selected loc f) bs) brs" "set refd = ?refs"
    using inspectBuckets_result [OF _ _ _ _ b, of s] assms(2,3) by auto
  have dist: "distinct (map fst remote)" by (rule collected_distinct [OF d])
  from br obtain br0 where br0: "br0 \<in> set brs" "br = attachTotals remote refd br0" by blast
  obtain bk where bk: "bk \<in> set bs" "selected loc f bk" "reportOf s (fst ` set remote) bk br0"
    using B(1) br0(1) by (rule list_all2_right) auto
  have "fst ` set (filter (\<lambda>(path, _). path \<notin> set refd) remote) = fst ` set remote - ?refs" unfolding B(2) by force
  then have "length (filter (\<lambda>(path, _). path \<notin> set refd) remote) = card (fst ` set remote - ?refs)"
    using distinct_keys_card [OF distinct_map_filter [OF dist]] by simp
  moreover have "length remote = card (fst ` set remote)" using dist by (rule distinct_keys_card)
  ultimately have "ib_OrphanFiles br = int (card (fst ` set remote - ?refs))" "ib_RemoteDataFiles br = int (card (fst ` set remote))"
    "ib_ID br = bkt_ID bk" "ib_MissingFiles br = int (card (referencedPaths (bdbOf s (bkt_ID bk)) - fst ` set remote))"
    using bk(3) br0(2) by (simp_all add: attachTotals_def reportOf_def)
  moreover from u2 d obtain x where "collectRemoteDataFiles c (loc_BaseDir loc) (s\<lparr>d_world := x\<rparr>) = (Inr remote, u)" by blast
  ultimately show ?thesis using bk(1,2) by (intro exI [of _ c] exI [of _ x] exI [of _ remote] exI [of _ u] conjI bexI [of _ bk])
qed

text \<open>A location with one bucket, a file it refers to, one it misses and one that is an orphan.\<close>

definition demoPlace :: Location where
  "demoPlace = \<lparr>loc_ID = ''l'', loc_URL = ''http://nas'', loc_Username = ''u'', loc_PasswordEnc = [], loc_DisplayName = ''nas'',
     loc_QuotaBytes = 0, loc_BaseDir = ''/'', loc_CreatedAt = 0\<rparr>"

definition demoRow :: "string \<Rightarrow> string \<Rightarrow> Object" where
  "demoRow key path = \<lparr>obj_ID = key, obj_Key = key, obj_HashPath = path, obj_SizeBytes = 3, obj_ETag = [], obj_ContentType = [],
     obj_LastModified = 0, obj_UploadComplete = True, obj_Chunks = []\<rparr>"

definition demoDisk :: "demoWorld daemon" where
  "demoDisk = \<lparr>d_world = [(''/'', []), (''/_data/ab/x'', ''abc''), (''/_data/ab/y'', ''def'')], d_structure = emptyStructure, d_stats = emptyUsageDB,
     d_bdb = [''b'' \<mapsto> Inr (emptyBucketDB\<lparr>objects := [demoRow ''k'' ''/_data/ab/x'', demoRow ''m'' ''/_data/cd/z'']\<rparr>)],
     d_cache = [], d_repair = NewManager\<rparr>"

definition demoFolder :: Bucket where
  "demoFolder = \<lparr>bkt_ID = ''b'', bkt_Name = ''docs'', bkt_OwnerUserID = ''o'', bkt_WebDAVLocationID = ''l'', bkt_CreatedAt = 0\<rparr>"

definition demoCache :: Config where
  "demoCache = defaultConfig\<lparr>cf_LocalCacheDir := ''/c''\<rparr>"

lemma demo_inspect:
  "map_sum id (\<lambda>r. map (\<lambda>b. (ib_OrphanFiles b, ib_MissingFiles b)) (il_Buckets r))
     (fst (inspectLocation demoHost demoCache ''ok'' ''ok'' [] [demoFolder] demoPlace demoDisk)) = Inr [(1, 1)]"
  by code_simp

theorem inspectLocation_accounts_witness:
  "\<exists>res t br. inspectLocation demoHost demoCache ''ok'' ''ok'' [] [demoFolder] demoPlace demoDisk = (Inr res, t)
     \<and> br \<in> set (il_Buckets res) \<and> ib_OrphanFiles br = 1 \<and> ib_MissingFiles br = 1
     \<and> (\<exists>remote :: remoteDataMap. 1 = int (card (fst ` set remote - referencedPaths (bdbOf demoDisk ''b''))))"
proof -
  obtain r t where run: "inspectLocation demoHost demoCache ''ok'' ''ok'' [] [demoFolder] demoPlace demoDisk = (r, t)" by fastforce
  with demo_inspect obtain res br where r: "r = Inr res" "il_Buckets res = [br]" "ib_OrphanFiles br = 1" "ib_MissingFiles br = 1"
    by (auto simp: map_sum.simps split: sum.splits) (cases r, auto)
  note run = run [unfolded r(1)]
  have "selected demoPlace [] demoFolder" by (simp add: selected_def demoPlace_def demoFolder_def)
  then have folder: "{b. b = demoFolder \<and> selected demoPlace [] b} = {demoFolder}" "bkt_ID demoFolder = ''b''"
    by (auto simp: demoFolder_def)
  have "\<exists>c w remote u. collectRemoteDataFiles c (loc_BaseDir demoPlace) (demoDisk\<lparr>d_world := w\<rparr>) = (Inr remote, u)
    \<and> ib_RemoteDataFiles br = int (card (fst ` set remote))
    \<and> ib_OrphanFiles br = int (card (fst ` set remote
         - (\<Union>b \<in> {b \<in> set [demoFolder]. selected demoPlace [] b}. referencedPaths (bdbOf demoDisk (bkt_ID b)))))
    \<and> (\<exists>b \<in> set [demoFolder]. selected demoPlace [] b \<and> ib_ID br = bkt_ID b
         \<and> ib_MissingFiles br = int (card (referencedPaths (bdbOf demoDisk (bkt_ID b)) - fst ` set remote)))"
    by (rule inspectLocation_accounts [OF _ _ _ run])
      (simp_all add: r demoHost_def demoEnv_def ret_def demoCache_def demoDisk_def demoFolder_def)
  then obtain remote :: remoteDataMap where "ib_OrphanFiles br = int (card (fst ` set remote
         - (\<Union>b \<in> {b \<in> set [demoFolder]. selected demoPlace [] b}. referencedPaths (bdbOf demoDisk (bkt_ID b)))))" by blast
  then have "ib_OrphanFiles br = int (card (fst ` set remote - referencedPaths (bdbOf demoDisk ''b'')))"
    by (simp add: folder)
  then have "\<exists>remote :: remoteDataMap. 1 = int (card (fst ` set remote - referencedPaths (bdbOf demoDisk ''b'')))" using r(3) by metis
  moreover have "br \<in> set (il_Buckets res)" using r(2) by simp
  ultimately show ?thesis using run r(3,4) by blast
qed

text \<open>The whole report on that location, by a host with a cache directory; the remote copy of the database is there.\<close>

definition demoInspected :: "demoWorld daemon" where
  "demoInspected = demoDisk\<lparr>d_world := (''/_meta/b.db'', ''B'') # d_world demoDisk,
     d_structure := \<lparr>webdav_locations = [demoPlace], users = [], buckets = [demoFolder]\<rparr>\<rparr>"

lemma demo_run_inspect:
  "map_sum id (map (\<lambda>l. map (\<lambda>b. (ib_Name b, ib_RemoteMetaStatus b, ib_OrphanFiles b, ib_MissingFiles b)) (il_Buckets l)))
     (fst (runInspect demoCacheHost ''config.yaml'' [] demoInspected)) = Inr [[(''docs'', ''ok'', 1, 1)]]"
  by code_simp

theorem runInspect_readonly_witness:
  "\<exists>reports t. runInspect demoCacheHost ''config.yaml'' [] demoInspected = (Inr reports, t)
     \<and> map (\<lambda>l. map (\<lambda>b. (ib_Name b, ib_RemoteMetaStatus b, ib_OrphanFiles b, ib_MissingFiles b)) (il_Buckets l)) reports
         = [[(''docs'', ''ok'', 1, 1)]]
     \<and> d_bdb t = d_bdb demoInspected \<and> map_of (d_world t) = map_of (d_world demoInspected)"
proof -
  obtain r t where run: "runInspect demoCacheHost ''config.yaml'' [] demoInspected = (r, t)" by fastforce
  have "host_looks map_of demoCacheHost" using demoHost_looks by (simp add: host_looks_def demoCacheHost_def)
  from runInspect_readonly [OF this run] have "d_bdb t = d_bdb demoInspected \<and> map_of (d_world t) = map_of (d_world demoInspected)" by auto
  moreover from demo_run_inspect run obtain reports where "r = Inr reports"
    "map (\<lambda>l. map (\<lambda>b. (ib_Name b, ib_RemoteMetaStatus b, ib_OrphanFiles b, ib_MissingFiles b)) (il_Buckets l)) reports
         = [[(''docs'', ''ok'', 1, 1)]]" by (cases r) auto
  ultimately show ?thesis using run by (intro exI [of _ reports] exI [of _ t]) simp
qed

end
