(* ===== verification/WebAccess.thy ===== *)
theory WebAccess
  imports DaemonKeeps SyncFacts
begin

text \<open>
  Whose buckets a user of the web interface can reach. \<open>apart B s t\<close> says that of the local databases
  only those of the buckets in \<open>B\<close> changed; every handler keeps it for the bucket it was asked for,
  and the handlers behind \<open>requireBucketAccess\<close> only go on when that bucket is the user's own.
\<close>

section \<open>A service changes one bucket database\<close>

definition apart :: "string set \<Rightarrow> 'w daemon \<Rightarrow> 'w daemon \<Rightarrow> bool" where
  "apart B s t \<longleftrightarrow> within (\<lambda>_. Map.empty) {} B s t"

lemma apart_iff: "apart B s t \<longleftrightarrow> d_structure t = d_structure s \<and> (\<forall>i. i \<notin> B \<longrightarrow> bdbOf t i = bdbOf s i)"
  by (simp add: apart_def within_def)

lemma apart_refl [simp]: "apart B s s"
  by (simp add: apart_iff)

lemma apart_trans: "apart B s t \<Longrightarrow> apart B t u \<Longrightarrow> apart B s u"
  by (simp add: apart_iff)

lemma kept_apart: "(\<And>t. apart B t (snd (m t))) \<Longrightarrow> kept (apart B s) m"
  using apart_trans by (blast intro: keptI)

lemma apart_modify: "(\<And>t. apart B t (f t)) \<Longrightarrow> kept (apart B s) (modify f)"
  by (intro kept_apart) (simp add: modify_def)

lemma apart_onWorld [keeps]: "kept (apart B s) (onWorld m)"
  by (intro kept_apart) (simp add: apart_iff onWorld_def split: prod.split)

text \<open>The buckets of a user.\<close>

definition mine :: "structureDB \<Rightarrow> User \<Rightarrow> string set" where
  "mine D user = {bkt_ID b |b. (\<exists>n. GetBucket D n = Inr b) \<and> bkt_OwnerUserID b = usr_ID user}"

locale isolated =
  fixes S :: "'w svc"
  assumes disk: "svc_cacheDir S \<noteq> []"
begin

lemma apart_calls [keeps]:
  "kept (apart B s) (os S l)" "kept (apart B s) (wdc S c)" "kept (apart B s) (timeNow S)" "kept (apart B s) (newUUID S)"
  unfolding os_def wdc_def timeNow_def newUUID_def by (intro keeps)+

lemma apart_ask [keeps]: "kept (apart B s) (askStructure S l f)" "kept (apart B s) (askBucket S i l g)"
  unfolding askStructure_def askBucket_def by (intro keeps, simp add: kept_def)+

lemma apart_change: "i \<in> B \<Longrightarrow> kept (apart B s) (changeBucket S i l f)"
  unfolding changeBucket_def by (intro keeps kept_apart) (auto simp: apart_iff split: sum.split)

lemma apart_delta [keeps]: "kept (apart B s) (addDelta S l u b n k)"
  unfolding addDelta_def by (intro keeps kept_apart) (auto simp: apart_iff split: sum.split)

lemma apart_cacheGet [keeps]: "kept (apart B s) (cacheGet S i)"
proof -
  have [keeps]: "kept (apart B s) (openBucket S i)" unfolding openBucket_def using disk
    by (intro keeps kept_apart) (auto simp: apart_iff bdbOf_None split: option.split sum.split)
  show ?thesis unfolding cacheGet_def by (intro keeps apart_modify) (simp add: apart_iff)
qed

lemma apart_repair [keeps]: "kept (apart B s) (checkWriteAllowed S i)" "kept (apart B s) (markRepairing S i r)"
  unfolding checkWriteAllowed_def markRepairing_def by (intro keeps apart_modify, simp add: kept_def apart_iff)+

lemma apart_sync [keeps]: "kept (apart B s) (syncBucketDB S i base)" "kept (apart B s) (syncOrRepair S i base g)"
  unfolding syncOrRepair_def syncBucketDB_def by (intro keeps)+

lemma apart_lookups [keeps]:
  "kept (apart B s) (bucketByName S n)" "kept (apart B s) (findBucket S n)" "kept (apart B s) (locationOf S bk)"
  "kept (apart B s) (openCached S i)" "kept (apart B s) (lookupObject S n key)" "kept (apart B s) (objectList S n p d tok mk)"
  unfolding bucketByName_def findBucket_def locationOf_def openCached_def lookupObject_def objectList_def by (intro keeps)+

lemma apart_paths [keeps]: "kept (apart B s) (deletePaths S ps)" "kept (apart B s) (downloadChunks S cs)"
  by (induction ps, auto intro!: keeps) (induction cs, auto intro!: keeps)

lemma apart_Get [keeps]: "kept (apart B s) (Get S n key)"
  unfolding Get_def getChunked_def by (intro keeps)

text \<open>The operations that change the database do so after looking the bucket up by name.\<close>

lemma apart_after:
  assumes "kept (apart B s) m" and "\<And>t x u. d_structure t = d_structure s \<Longrightarrow> m t = (Inr x, u) \<Longrightarrow> kept (apart B s) (h x)"
  shows "kept (apart B s) (bnd m h)"
proof (rule keptI)
  fix t assume t: "apart B s t"
  obtain r u where m: "m t = (r, u)" by fastforce
  have "apart B s u" by (rule keptD' [OF assms(1) t m])
  moreover have "d_structure t = d_structure s" using t by (simp add: apart_iff)
  ultimately show "apart B s (snd (bnd m h t))" using assms(2) [of t _ u] m by (cases r) (simp_all, rule keptD)
qed

lemma apart_findBucket:
  "(\<And>bk. GetBucket (d_structure s) n = Inr bk \<Longrightarrow> kept (apart B s) (f bk)) \<Longrightarrow> kept (apart B s) (bnd (findBucket S n) f)"
  by (rule apart_after [OF apart_lookups(2)]) (metis findBucket_Inr)

lemma apart_bucketByName:
  "(\<And>bk. GetBucket (d_structure s) n = Inr bk \<Longrightarrow> kept (apart B s) (f bk)) \<Longrightarrow> kept (apart B s) (bnd (bucketByName S n) f)"
  by (rule apart_after [OF apart_lookups(1)]) (metis bucketByName_Inr)

lemma apart_lookupObject:
  assumes "\<And>bk obj. GetBucket (d_structure s) n = Inr bk \<Longrightarrow> kept (apart B s) (g (obj, bk))"
  shows "kept (apart B s) (bnd (lookupObject S n key) g)"
proof (rule apart_after [OF apart_lookups(5)])
  fix t x u assume t: "d_structure t = d_structure s" and "lookupObject S n key t = (Inr x, u)"
  then obtain bk u' where "findBucket S n t = (Inr bk, u')" "bk = snd x"
    unfolding lookupObject_def by (auto elim!: act_elims simp: ret_def)
  then have "GetBucket (d_structure s) n = Inr (snd x)" using findBucket_Inr [of S n t bk u'] by (simp add: t)
  then show "kept (apart B s) (g x)" using assms [of "snd x" "fst x"] by simp
qed

lemmas apart_named = apart_findBucket apart_bucketByName apart_lookupObject

lemma apart_multipart:
  assumes own: "\<And>bk. GetBucket (d_structure s) n = Inr bk \<Longrightarrow> bkt_ID bk \<in> B"
  shows "kept (apart B s) (Create S n key ct)" "kept (apart B s) (UploadPart S n key uid pn sz body)"
    "kept (apart B s) (Complete S n key uid parts)" "kept (apart B s) (Abort S n uid)"
  unfolding Create_def UploadPart_def Complete_def Abort_def uploadPartDirect_def
  by (rule apart_bucketByName, intro keeps apart_change own; assumption)+

lemma apart_Put:
  assumes own: "\<And>bk. GetBucket (d_structure s) n = Inr bk \<Longrightarrow> bkt_ID bk \<in> B"
  shows "kept (apart B s) (Put S n key ct body)"
proof -
  note mp = apart_multipart [OF own]
  have parts: "kept (apart B s) (putParts S n key uid cs pn data acc)" for uid cs pn data acc
  proof (induction data arbitrary: pn acc rule: length_induct)
    case (1 data)
    have "kept (apart B s) (putParts S n key uid cs p (drop cs data) a)" if "\<not> (data = [] \<or> cs = 0)" for p a
      using 1 that by simp
    then show ?case by (subst putParts.simps) (intro keeps mp; assumption)
  qed
  have "kept (apart B s) (putChunked S n key ct data)" for data
    unfolding putChunked_def by (intro keeps mp parts; assumption)
  then show ?thesis unfolding Put_def
    by (intro apart_findBucket) (intro keeps apart_change own; assumption)
qed

lemma apart_Delete:
  assumes own: "\<And>bk. GetBucket (d_structure s) n = Inr bk \<Longrightarrow> bkt_ID bk \<in> B"
  shows "kept (apart B s) (Delete S n key)"
proof -
  have [keeps]: "kept (apart B s) (referencedElsewhere S hp bk bs)" for hp bk bs
    by (induction bs) (auto intro!: keeps)
  have [keeps]: "kept (apart B s) (maybeDeleteDataFile S hp bk)" for hp bk
    unfolding maybeDeleteDataFile_def by (intro keeps)
  show ?thesis unfolding Delete_def
    by (rule apart_lookupObject, unfold prod.case) (intro keeps apart_change own; assumption)
qed

section \<open>The handlers of the web interface\<close>

lemma apart_pages [keeps]:
  "kept (apart B s) (storagePages S n k tok acc)" "kept (apart B s) (storageUsedBytes S k bs acc)"
  "kept (apart B s) (svcListBuckets S o')"
proof -
  show pages [keeps]: "kept (apart B s) (storagePages S n k tok acc)" for n tok acc
    by (induction k arbitrary: tok acc) (auto simp: Let_def intro!: keeps)
  show "kept (apart B s) (storageUsedBytes S k bs acc)" by (induction bs arbitrary: acc) (auto intro!: keeps)
  show "kept (apart B s) (svcListBuckets S o')" unfolding svcListBuckets_def by (intro keeps)
qed

lemma apart_orNil [keeps]: "kept (apart B s) m \<Longrightarrow> kept (apart B s) (orNil m)"
  unfolding orNil_def by (intro keeps)

lemma apart_prefixPages:
  "(\<And>x. kept (apart B s) (f x)) \<Longrightarrow> kept (apart B s) (prefixPages S n pref f k tok any)"
proof (induction k arbitrary: tok any)
  case (Suc k)
  have "kept (apart B s) (forEach f xs)" for xs by (induction xs) (auto intro!: keeps Suc.prems)
  with Suc show ?case by (auto simp: Let_def intro!: keeps)
qed (simp add: keeps)

lemma apart_access:
  assumes W: "wd_svc W = S"
    and k: "\<And>bkt. GetBucket (d_structure s) (ur_name r) = Inr bkt \<Longrightarrow> bkt_ID bkt \<in> mine (d_structure s) user \<Longrightarrow> kept (apart B s) (k bkt)"
  shows "kept (apart B s) (requireBucketAccess W user r k)"
  unfolding requireBucketAccess_def W
proof (rule apart_after)
  show "kept (apart B s) (attempt (askStructure S ''structure.GetBucket'' (\<lambda>d. GetBucket d (ur_name r))))" by (intro keeps)
  fix t x u assume t: "d_structure t = d_structure s"
    and a: "attempt (askStructure S ''structure.GetBucket'' (\<lambda>d. GetBucket d (ur_name r))) t = (Inr x, u)"
  have "GetBucket (d_structure s) (ur_name r) = Inr bkt" if "x = Inr bkt" for bkt
    using askStructure_Inr [of S _ "\<lambda>d. GetBucket d (ur_name r)" t bkt u] attempt_InrD [OF a] that t by simp
  moreover have "bkt_ID bkt \<in> mine (d_structure s) user"
    if "GetBucket (d_structure s) (ur_name r) = Inr bkt" "bkt_OwnerUserID bkt = usr_ID user" for bkt
    using that by (auto simp: mine_def)
  ultimately show "kept (apart B s) (case x of Inl _ \<Rightarrow> ret (httpError ''bucket not found'' 403)
      | Inr bkt \<Rightarrow> if bkt_OwnerUserID bkt \<noteq> usr_ID user then ret (httpError ''forbidden'' 403) else k bkt)"
    by (auto intro!: keeps k)
qed

lemma apart_handlers:
  assumes W: "wd_svc W = S"
  shows "kept (apart (mine (d_structure s) user) s) (handleBrowse W user r)" "kept (apart (mine (d_structure s) user) s) (handleDownload W user r)"
    "kept (apart (mine (d_structure s) user) s) (handleUpload W user r)" "kept (apart (mine (d_structure s) user) s) (handleMkdir W user r)"
    "kept (apart (mine (d_structure s) user) s) (handleDeleteObject W user r)" "kept (apart (mine (d_structure s) user) s) (handleRenameObject W user r)"
    "kept (apart (mine (d_structure s) user) s) (handleListBuckets W user)"
proof -
  let ?B = "mine (d_structure s) user"
  have own: "bkt_ID bk \<in> ?B" if "GetBucket (d_structure s) (ur_name r) = Inr bkt" "bkt_ID bkt \<in> ?B" "GetBucket (d_structure s) (bkt_Name bkt) = Inr bk" for bk bkt
    using that GetBucket_name by fastforce
  have put: "kept (apart ?B s) (Put S (bkt_Name bkt) key ct body)" and del: "kept (apart ?B s) (Delete S (bkt_Name bkt) key)"
    if "GetBucket (d_structure s) (ur_name r) = Inr bkt" "bkt_ID bkt \<in> ?B" for bkt key ct body
    by (rule apart_Put, rule own [OF that], assumption) (rule apart_Delete, rule own [OF that], assumption)
  have copy: "kept (apart ?B s) (copyObject S (bkt_Name bkt) key key')" and delp: "kept (apart ?B s) (deletePrefix W (bkt_Name bkt) pref)"
    and ren: "kept (apart ?B s) (renamePrefix W (bkt_Name bkt) pref pref')"
    if b: "GetBucket (d_structure s) (ur_name r) = Inr bkt" "bkt_ID bkt \<in> ?B" for bkt key key' pref pref'
  proof -
    show copy: "kept (apart ?B s) (copyObject S (bkt_Name bkt) key key')" for key key'
      unfolding copyObject_def by (intro keeps put [OF b])
    show "kept (apart ?B s) (deletePrefix W (bkt_Name bkt) pref)"
      unfolding deletePrefix_def W by (intro keeps apart_prefixPages del [OF b])
    show "kept (apart ?B s) (renamePrefix W (bkt_Name bkt) pref pref')"
      unfolding renamePrefix_def W by (intro keeps apart_prefixPages copy del [OF b])
  qed
  note ops = put del copy delp ren apart_access [OF W]
  show "kept (apart ?B s) (handleBrowse W user r)" "kept (apart ?B s) (handleDownload W user r)"
    unfolding handleBrowse_def handleDownload_def W Let_def by (intro keeps apart_access W)+
  show "kept (apart ?B s) (handleUpload W user r)" "kept (apart ?B s) (handleMkdir W user r)"
    unfolding handleUpload_def handleMkdir_def W Let_def by (intro keeps ops; assumption)+
  show "kept (apart ?B s) (handleDeleteObject W user r)" "kept (apart ?B s) (handleRenameObject W user r)"
    unfolding handleDeleteObject_def handleRenameObject_def W Let_def by (intro keeps ops; assumption)+
  show "kept (apart ?B s) (handleListBuckets W user)"
    unfolding handleListBuckets_def hasLocations_def listLocations_def W by (intro keeps)
qed

end

interpretation demoIsolated: isolated demoSvc
  by unfold_locales (simp add: demoSvc_def)

section \<open>Sessions\<close>

text \<open>The request carries the token of a session of this user, who is enabled.\<close>

definition logged_in :: "'w site \<Rightarrow> uiRequest \<Rightarrow> User \<Rightarrow> bool" where
  "logged_in s r user \<longleftrightarrow> (\<exists>token sess. requestCookie (ur_req r) webCookie = Some token \<and> st_web s token = Some sess
     \<and> GetUserByAccessKey (d_structure (st_daemon s)) (ss_accessKey sess) = Inr user \<and> usr_Enabled user)"

definition sameData :: "'w daemon \<Rightarrow> 'w site \<Rightarrow> bool" where
  "sameData d s \<longleftrightarrow> apart {} d (st_daemon s)"

lemma same_onDaemon: "(\<And>e. kept (apart {} e) m) \<Longrightarrow> kept (sameData d) (onDaemon m)"
  by (auto simp: kept_def sameData_def onDaemon_def split: prod.split) (metis apart_refl apart_trans snd_conv)

lemma same_modify: "(\<And>s. st_daemon (f s) = st_daemon s) \<Longrightarrow> kept (sameData d) (modify f)"
  by (simp add: kept_def sameData_def modify_def)

context isolated
begin

lemma same_sessions [keeps]:
  "kept (sameData d) (webGet S r)" "kept (sameData d) (webDelete r)" "kept (sameData d) (webCreate S tls r ak)"
  unfolding webGet_def webDelete_def webCreate_def newToken_def
  by (intro keeps same_onDaemon same_modify; (simp add: kept_def sameData_def split: prod.split)?)+

lemma webGet_session:
  assumes "webGet S r s = (Inr (Some ak), t)"
  shows "\<exists>token sess. requestCookie r webCookie = Some token \<and> st_web s token = Some sess \<and> ak = ss_accessKey sess"
  using assms unfolding webGet_def
  by (auto elim!: bnd_InrE simp: ret_def gets_def webCheck_def onDaemon_def split: option.splits prod.splits if_splits)

text \<open>A handler behind a session runs for the user of that session, or not at all.\<close>

lemma authenticated_runs:
  assumes W: "wd_svc W = S" and run: "authenticated W r h s = (res, t)"
  shows "sameData (st_daemon s) t \<or> (\<exists>user u. logged_in s r user \<and> apart {} (st_daemon s) u \<and> st_daemon t = snd (h user u))"
proof -
  note [keeps] = same_onDaemon
  let ?ask = "\<lambda>ak. attempt (onDaemon (askStructure S ''structure.GetUserByAccessKey'' (\<lambda>d. GetUserByAccessKey d ak)))"
  have ask: "kept (sameData d) (?ask ak)" for d :: "'w daemon" and ak by (intro keeps)
  have quit: "kept (sameData d) (bnd (webDelete (ur_req r)) (\<lambda>c. ret (f c)))" for d :: "'w daemon" and f :: "cookie \<Rightarrow> webPage uiResponse" by (intro keeps)
  have start: "sameData (st_daemon s) s" by (simp add: sameData_def)
  obtain x s1 where g: "webGet S (ur_req r) s = (x, s1)" by fastforce
  have s1: "sameData (st_daemon s) s1" by (rule keptD' [OF same_sessions(1) start g])
  show ?thesis
  proof (cases "\<exists>ak. x = Inr (Some ak)")
    case False
    then consider e where "x = Inl e" | "x = Inr None" by (metis not_None_eq sumE)
    then have "t = s1" using g run by cases (simp_all add: authenticated_def requireSession_def W ret_def)
    with s1 show ?thesis by simp
  next
    case True
    then obtain ak where x: "x = Inr (Some ak)" by blast
    obtain y s2 where a: "?ask ak s1 = (y, s2)" by fastforce
    have s2: "sameData (st_daemon s) s2" by (rule keptD' [OF ask s1 a])
    show ?thesis
    proof (cases "\<exists>user. y = Inr (Inr user) \<and> usr_Enabled user")
      case True
      then obtain user where y: "y = Inr (Inr user)" "usr_Enabled user" by blast
      from attempt_InrD [OF a [unfolded y(1)]] have "GetUserByAccessKey (d_structure (st_daemon s1)) ak = Inr user"
        by (auto simp: onDaemon_def split: prod.splits dest: askStructure_Inr)
      then have "GetUserByAccessKey (d_structure (st_daemon s)) ak = Inr user" using s1 by (simp add: sameData_def apart_iff)
      with webGet_session g x y(2) have "logged_in s r user" unfolding logged_in_def by blast
      moreover have "st_daemon t = snd (h user (st_daemon s2))"
        using run g x a y by (auto simp: authenticated_def requireSession_def W onDaemon_def split: prod.splits)
      ultimately show ?thesis using s2 unfolding sameData_def by blast
    next
      case False
      then consider e where "y = Inl e" | e where "y = Inr (Inl e)" | user where "y = Inr (Inr user)" "\<not> usr_Enabled user" by (metis sumE)
      then have "t = s2 \<or> bnd (webDelete (ur_req r)) (\<lambda>c. ret (redirect ''/login''\<lparr>up_Cookies := [c]\<rparr>)) s2 = (res, t)"
        using run g x a by cases (simp_all add: authenticated_def requireSession_def W)
      with s2 quit show ?thesis by (metis keptD')
    qed
  qed
qed

end

section \<open>Properties\<close>

text \<open>The two routes that make or drop a bucket.\<close>

definition managesBucket :: "uiRequest \<Rightarrow> bool" where
  "managesBucket r \<longleftrightarrow> rq_Method (ur_req r) = ''POST''
     \<and> (case pathSegments (rq_EscapedPath (ur_req r)) of
          [b] \<Rightarrow> b = ''buckets'' | [b, name, op] \<Rightarrow> b = ''buckets'' \<and> op = ''delete'' | _ \<Rightarrow> False)"

lemma GetBucket_listed: "GetBucket d n = Inr b \<Longrightarrow> b \<in> set (ListBuckets d)"
  by (auto simp: GetBucket_def ListBuckets_def split: option.splits dest!: selectOne_SomeD)

lemma mine_owner:
  assumes "structure_wf d" and "b \<in> set (ListBuckets d)" and "bkt_ID b \<in> mine d user"
  shows "bkt_OwnerUserID b = usr_ID user"
proof -
  from assms(3) obtain b' where b': "b' \<in> set (ListBuckets d)" "bkt_ID b' = bkt_ID b" "bkt_OwnerUserID b' = usr_ID user"
    by (auto simp: mine_def dest: GetBucket_listed)
  have "distinct (map bkt_ID (buckets d))" using assms(1) by (simp add: structure_wf_def uniqueOn_def bucketKeys_def)
  then have "distinct (map bkt_ID (ListBuckets d))"
    by (simp add: ListBuckets_def scanBucket_def comp_def distinct_map)
  then have "inj_on bkt_ID (set (ListBuckets d))" by (simp add: distinct_map)
  with b' assms(2) have "b' = b" by (auto dest: inj_onD)
  with b'(3) show ?thesis by simp
qed

text \<open>What a call did, it did for a user who is logged in.\<close>

definition actsFor :: "'w site \<Rightarrow> uiRequest \<Rightarrow> ('w site, 'a) act \<Rightarrow> bool" where
  "actsFor s r m \<longleftrightarrow> (\<forall>res t. m s = (res, t) \<longrightarrow> sameData (st_daemon s) t
     \<or> (\<exists>user. logged_in s r user \<and> apart (mine (d_structure (st_daemon s)) user) (st_daemon s) (st_daemon t)))"

lemma acts_kept: "kept (sameData (st_daemon s)) m \<Longrightarrow> actsFor s r m"
  unfolding actsFor_def by (auto dest: keptD' [where s = s] simp: sameData_def)

lemma acts_cases:
  "(b \<Longrightarrow> actsFor s r m) \<Longrightarrow> (\<not> b \<Longrightarrow> actsFor s r n) \<Longrightarrow> actsFor s r (if b then m else n)"
  "(xs = [] \<Longrightarrow> actsFor s r m) \<Longrightarrow> (\<And>y ys. xs = y # ys \<Longrightarrow> actsFor s r (g y ys))
     \<Longrightarrow> actsFor s r (case xs of [] \<Rightarrow> m | y # ys \<Rightarrow> g y ys)"
  by (auto split: list.split)

context isolated
begin

lemma acts_login:
  assumes "wd_svc W = S"
  shows "actsFor s r (handleGetLogin W r')" "actsFor s r (handlePostLogin W r')" "actsFor s r (handlePostLogout r')" "actsFor s r (ret p)"
  unfolding handleGetLogin_def handlePostLogin_def handlePostLogout_def assms Let_def
  by (intro acts_kept keeps same_onDaemon)+

lemma acts_authenticated:
  assumes W: "wd_svc W = S" and h: "\<And>user e. kept (apart (mine (d_structure e) user) e) (h user)"
  shows "actsFor s r (authenticated W r h)"
  unfolding actsFor_def
proof (intro allI impI)
  fix res t assume "authenticated W r h s = (res, t)"
  from authenticated_runs [OF W this] show "sameData (st_daemon s) t
      \<or> (\<exists>user. logged_in s r user \<and> apart (mine (d_structure (st_daemon s)) user) (st_daemon s) (st_daemon t))"
  proof (elim disjE exE conjE)
    fix user u assume l: "logged_in s r user" and u: "apart {} (st_daemon s) u" and t: "st_daemon t = snd (h user u)"
    have "apart (mine (d_structure u) user) u (st_daemon t)" unfolding t by (rule keptD [OF h]) simp
    with u have "apart (mine (d_structure (st_daemon s)) user) (st_daemon s) (st_daemon t)" by (simp add: apart_iff)
    with l show ?thesis by blast
  qed blast
qed

lemma acts_handlers:
  assumes W: "wd_svc W = S"
  shows "actsFor s r (authenticated W r (handleListBuckets W))" "actsFor s r (authenticated W r (\<lambda>_. handleRootRedirect))"
    "actsFor s r (authenticated W r (\<lambda>user. handleBrowse W user r'))" "actsFor s r (authenticated W r (\<lambda>user. handleDownload W user r'))"
    "actsFor s r (authenticated W r (\<lambda>user. handleUpload W user r'))" "actsFor s r (authenticated W r (\<lambda>user. handleMkdir W user r'))"
    "actsFor s r (authenticated W r (\<lambda>user. handleDeleteObject W user r'))" "actsFor s r (authenticated W r (\<lambda>user. handleRenameObject W user r'))"
  by (intro acts_authenticated apart_handlers W | simp add: handleRootRedirect_def keeps)+

lemma webRoute_acts:
  assumes W: "wd_svc W = S" and "\<not> managesBucket r"
  shows "actsFor s r (webRoute W r)"
  unfolding webRoute_def Let_def using assms(2) unfolding managesBucket_def
  by - (intro acts_cases acts_login [OF W] acts_handlers [OF W]; auto)

end

text \<open>C35: a user of the web interface only changes their own buckets. Apart from the two routes that make or drop a
  bucket, if a request changes the database of a bucket - its objects, uploads or parts - then it carried
  the session of an enabled user who owns the bucket, whatever the request and whatever fails.\<close>

theorem webRoute_isolates:
  assumes "svc_cacheDir (wd_svc W) \<noteq> []" and "structure_wf (d_structure (st_daemon s))"
    and "\<not> managesBucket r" and "webRoute W r s = (res, t)"
    and "b \<in> set (ListBuckets (d_structure (st_daemon s)))" and "bdbOf (st_daemon t) (bkt_ID b) \<noteq> bdbOf (st_daemon s) (bkt_ID b)"
  shows "\<exists>user. logged_in s r user \<and> bkt_OwnerUserID b = usr_ID user"
proof -
  have "actsFor s r (webRoute W r)"
    by (rule isolated.webRoute_acts [OF isolated.intro [OF assms(1)] refl assms(3)])
  with assms(4,6) obtain user where "logged_in s r user"
    and "apart (mine (d_structure (st_daemon s)) user) (st_daemon s) (st_daemon t)"
    unfolding actsFor_def by (fastforce simp: sameData_def apart_iff)
  moreover from this(2) assms(6) have "bkt_ID b \<in> mine (d_structure (st_daemon s)) user" by (auto simp: apart_iff)
  ultimately show ?thesis using mine_owner [OF assms(2,5)] by blast
qed

text \<open>A user logged in with the cookie \<open>t\<close>, and another one who owns no bucket, with \<open>x\<close>.\<close>

definition demoWeb :: "demoWorld webDeps" where
  "demoWeb = \<lparr>wd_svc = demoSvc, wd_flush = None, wd_bcrypt = (\<lambda>h p. h = p), wd_fuel = 10\<rparr>"

definition demoFile :: Object where
  "demoFile = \<lparr>obj_ID = ''o'', obj_Key = ''k'', obj_HashPath = ''/_data/ab/x'', obj_SizeBytes = 3, obj_ETag = [], obj_ContentType = [],
     obj_LastModified = 0, obj_UploadComplete = True, obj_Chunks = []\<rparr>"

definition demoSite :: "demoWorld site" where
  "demoSite = \<lparr>st_daemon = demoState\<lparr>d_structure := (d_structure demoState)\<lparr>users :=
       [demoUser, demoUser\<lparr>usr_ID := ''v'', usr_AccessKey := ''VK''\<rparr>]\<rparr>,
       d_bdb := [''b1'' \<mapsto> Inr (emptyBucketDB\<lparr>objects := [demoFile]\<rparr>)]\<rparr>, st_admin = Map.empty,
     st_web = [''t'' \<mapsto> \<lparr>ss_accessKey = ''AK'', ss_expiresAt = 9000000000\<rparr>, ''x'' \<mapsto> \<lparr>ss_accessKey = ''VK'', ss_expiresAt = 9000000000\<rparr>]\<rparr>"

definition demoPost :: "string \<Rightarrow> string \<Rightarrow> (string \<times> string) list \<Rightarrow> uiRequest" where
  "demoPost token p form =
     \<lparr>ur_req = \<lparr>rq_Method = ''POST'', rq_Host = ''h'', rq_URLHost = [], rq_Path = p, rq_EscapedPath = p,
        rq_Query = [], rq_Header = [(''Cookie'', [''webui_session='' @ token])], rq_Body = ([], None), rq_ContentLength = 0\<rparr>,
      ur_tls = False, ur_form = Inr (map (\<lambda>(k, v). (k, [v])) form), ur_name = [], ur_upload = None\<rparr>"

definition demoRemove :: uiRequest where
  "demoRemove = demoPost ''t'' ''/buckets/first/objects/delete'' [(''key'', ''k'')]"

lemma demo_remove: "objects (bdbOf (st_daemon (snd (webRoute demoWeb demoRemove demoSite))) ''b1'') = []"
  by code_simp

lemma demoSite_facts:
  "structure_wf (d_structure (st_daemon demoSite))" "objects (bdbOf (st_daemon demoSite) ''b1'') = [demoFile]" "\<not> managesBucket demoRemove"
  "bkt_ID (hd (ListBuckets (d_structure (st_daemon demoSite)))) = ''b1''" "ListBuckets (d_structure (st_daemon demoSite)) \<noteq> []"
  by (simp add: structure_wf_def demoSite_def demoState_def demoStructure_def demoUser_def uniqueOn_def locationKeys_def userKeys_def bucketKeys_def)
    code_simp+

theorem webRoute_isolates_witness:
  "\<exists>res t user. webRoute demoWeb demoRemove demoSite = (res, t) \<and> bdbOf (st_daemon t) ''b1'' \<noteq> bdbOf (st_daemon demoSite) ''b1''
     \<and> logged_in demoSite demoRemove user"
proof -
  obtain res t where run: "webRoute demoWeb demoRemove demoSite = (res, t)" by fastforce
  let ?b = "hd (ListBuckets (d_structure (st_daemon demoSite)))"
  have changed: "bdbOf (st_daemon t) (bkt_ID ?b) \<noteq> bdbOf (st_daemon demoSite) (bkt_ID ?b)"
    using demo_remove demoSite_facts(2) unfolding run demoSite_facts(4) by auto
  have "?b \<in> set (ListBuckets (d_structure (st_daemon demoSite)))" using demoSite_facts(5) by simp
  with webRoute_isolates [OF _ demoSite_facts(1,3) run _ changed] have "\<exists>user. logged_in demoSite demoRemove user"
    by (auto simp: demoWeb_def demoSvc_def)
  with run changed show ?thesis unfolding demoSite_facts(4) by blast
qed

text \<open>
  What the two excluded routes allow: the first asks for no owner (\<open>handleDeleteBucket\<close>), so any user who is
  logged in drops any bucket; and renaming an object to its own name deletes it.
\<close>

lemma other_user_drops_bucket:
  "map bkt_Name (buckets (d_structure (st_daemon (snd (webRoute demoWeb (demoPost ''x'' ''/buckets/first/delete'' []) demoSite))))) = [''second'']"
  by code_simp

end
