(* ===== verification/WebFacts.thy ===== *)
theory WebFacts
  imports WebAccess
begin

text \<open>
  The web interface. Its handlers page through listings in loops with no bound; the first part shows
  that the loops that only read or delete end, because every page starts after the last key of the
  page before. \<open>calm I m\<close>: from a state in \<open>I\<close> the call does not panic, and leaves a state in \<open>I\<close>;
  \<open>sure I m\<close>: moreover it returns no error.
\<close>

section \<open>Calls that do not panic\<close>

named_theorems calms \<open>calls that keep an invariant and do not panic\<close>

definition calm :: "('s \<Rightarrow> bool) \<Rightarrow> ('s, 'a) act \<Rightarrow> bool" where
  "calm I m \<longleftrightarrow> hoare I m (\<lambda>_. I) (\<lambda>e t. I t \<and> \<not> aborts e)"

definition sure :: "('s \<Rightarrow> bool) \<Rightarrow> ('s, 'a) act \<Rightarrow> bool" where
  "sure I m \<longleftrightarrow> hoare I m (\<lambda>_. I) (\<lambda>_ _. False)"

lemma calmI:
  "(\<And>s a t. I s \<Longrightarrow> m s = (Inr a, t) \<Longrightarrow> I t) \<Longrightarrow> (\<And>s e t. I s \<Longrightarrow> m s = (Inl e, t) \<Longrightarrow> I t \<and> \<not> aborts e) \<Longrightarrow> calm I m"
  unfolding calm_def by (rule hoareI)

lemma calm_state: "(\<And>s. I s \<Longrightarrow> I (snd (m s)) \<and> (\<forall>e. fst (m s) = Inl e \<longrightarrow> \<not> aborts e)) \<Longrightarrow> calm I m"
  by (rule calmI) (metis fst_conv snd_conv)+

lemma calmD: "calm I m \<Longrightarrow> I s \<Longrightarrow> m s = (Inr a, t) \<Longrightarrow> I t" "calm I m \<Longrightarrow> I s \<Longrightarrow> m s = (Inl e, t) \<Longrightarrow> I t \<and> \<not> aborts e"
  unfolding calm_def by (drule (2) hoareD_Inr, simp) (drule (2) hoareD_Inl, simp)

lemma sure_calm: "sure I m \<Longrightarrow> calm I m"
  unfolding sure_def calm_def by (erule hoare_post) simp_all

lemma sureD: "sure I m \<Longrightarrow> I s \<Longrightarrow> \<exists>a t. m s = (Inr a, t) \<and> I t"
  unfolding sure_def by (cases "m s"; cases "fst (m s)") (auto dest: hoareD_Inr hoareD_Inl)

lemma calm_basics [calms]:
  "calm I (ret a)" "\<not> aborts e \<Longrightarrow> calm I (fail e)" "calm I (gets f)"
  "(\<And>e. x = Inl e \<Longrightarrow> \<not> aborts e) \<Longrightarrow> calm I (liftE x)"
  by (rule calm_state; simp add: act_defs)+

lemma calm_modify: "(\<And>s. I s \<Longrightarrow> I (f s)) \<Longrightarrow> calm I (modify f)"
  by (rule calm_state) (simp add: modify_def)

lemma calm_bnd [calms]: "calm I m \<Longrightarrow> (\<And>a. calm I (f a)) \<Longrightarrow> calm I (bnd m f)"
  unfolding calm_def by (rule hoare_bnd)

lemma calm_thn [calms]: "calm I m \<Longrightarrow> calm I n \<Longrightarrow> calm I (thn m n)"
  unfolding thn_def by (rule calm_bnd)

lemma calm_wrapE [calms]: "calm I m \<Longrightarrow> (\<And>e. \<not> aborts (g e)) \<Longrightarrow> calm I (wrapE g m)"
  unfolding calm_def by (rule hoare_wrapE) (auto elim: hoare_post)

lemma calm_orElse [calms]: "calm I m \<Longrightarrow> (\<And>e. calm I (h e)) \<Longrightarrow> calm I (orElse m h)"
  unfolding calm_def by (rule hoare_orElse) (auto elim: hoare_post)

lemma sure_ret [calms]: "sure I (ret a)"
  by (simp add: sure_def hoare_def ret_def)

lemma sure_attempt [calms]: "calm I m \<Longrightarrow> sure I (attempt m)"
  unfolding calm_def sure_def by (rule hoare_attempt) (auto elim: hoare_post)

lemma calm_attempt [calms]: "calm I m \<Longrightarrow> calm I (attempt m)"
  by (rule sure_calm) (rule sure_attempt)

lemma sure_bnd [calms]: "sure I m \<Longrightarrow> (\<And>a. sure I (f a)) \<Longrightarrow> sure I (bnd m f)"
  unfolding sure_def by (rule hoare_bnd)

lemma calm_cases [calms]:
  "(b \<Longrightarrow> calm I m) \<Longrightarrow> (\<not> b \<Longrightarrow> calm I n) \<Longrightarrow> calm I (if b then m else n)"
  "(b \<Longrightarrow> sure I m) \<Longrightarrow> (\<not> b \<Longrightarrow> sure I n) \<Longrightarrow> sure I (if b then m else n)"
  "(\<And>x y. p = (x, y) \<Longrightarrow> calm I (h x y)) \<Longrightarrow> calm I (case p of (x, y) \<Rightarrow> h x y)"
  "(\<And>e. r = Inl e \<Longrightarrow> sure I (f e)) \<Longrightarrow> (\<And>a. r = Inr a \<Longrightarrow> sure I (g a)) \<Longrightarrow> sure I (case r of Inl e \<Rightarrow> f e | Inr a \<Rightarrow> g a)"
  "(\<And>x. x = t \<Longrightarrow> calm I (k x)) \<Longrightarrow> calm I (let x = t in k x)" "(\<And>x. x = t \<Longrightarrow> sure I (k x)) \<Longrightarrow> sure I (let x = t in k x)"
  by (auto split: prod.split sum.split)

section \<open>A listing ends\<close>

text \<open>
  No call to the world panics; the state keeps its structure database, the keys of a bucket only
  become fewer, and a local file that does not open is an error like any other.
\<close>

definition answers :: "('w, 'a) act \<Rightarrow> bool" where
  "answers m \<longleftrightarrow> (\<forall>w e w'. m w = (Inl e, w') \<longrightarrow> \<not> aborts e)"

definition world_answers :: "'w svc \<Rightarrow> bool" where
  "world_answers S \<longleftrightarrow> (\<forall>l. answers (env_os (svc_env S) l)) \<and> answers (env_now (svc_env S))
     \<and> (\<forall>p d. answers (cl_UploadFromFile (svc_wdc S) p d)) \<and> (\<forall>p. answers (cl_Delete (svc_wdc S) p))"

definition keysOf :: "'w daemon \<Rightarrow> string \<Rightarrow> string set" where
  "keysOf s i = obj_Key ` set (objects (bdbOf s i))"

definition fewer :: "structureDB \<Rightarrow> (string \<Rightarrow> string set) \<Rightarrow> 'w daemon \<Rightarrow> bool" where
  "fewer D K t \<longleftrightarrow> d_structure t = D \<and> (\<forall>i. keysOf t i \<subseteq> K i) \<and> (\<forall>i e. d_bdb t i = Some (Inl e) \<longrightarrow> \<not> aborts e)"

lemma fewer_updates [simp]:
  "fewer D K (t\<lparr>d_world := w\<rparr>) = fewer D K t" "fewer D K (t\<lparr>d_cache := c\<rparr>) = fewer D K t"
  "fewer D K (t\<lparr>d_stats := u\<rparr>) = fewer D K t"
  by (simp_all add: fewer_def keysOf_def)

lemma fewer_setBdb: "fewer D K t \<Longrightarrow> obj_Key ` set (objects b) \<subseteq> K i \<Longrightarrow> fewer D K (setBdb t i b)"
  by (auto simp: fewer_def keysOf_def) (auto simp: setBdb_def split: if_splits)

lemma calm_onWorld: "answers m \<Longrightarrow> calm (fewer D K) (onWorld m)"
  by (rule calm_state) (auto simp: answers_def onWorld_def split: prod.splits)

text \<open>A page: what it leaves to list is less than what there was, because its token is a later key.\<close>

definition left :: "string set \<Rightarrow> string \<Rightarrow> nat" where
  "left ks c = card {k \<in> ks. c \<noteq> [] \<longrightarrow> c < k}"

lemma left_less: "finite ks \<Longrightarrow> k \<in> ks \<Longrightarrow> k \<noteq> [] \<Longrightarrow> c \<noteq> [] \<longrightarrow> c < k \<Longrightarrow> left ks k < left ks c"
  unfolding left_def by (intro psubset_card_mono) (auto intro: less_trans)

definition budget :: "structureDB \<Rightarrow> (string \<Rightarrow> string set) \<Rightarrow> string \<Rightarrow> string \<Rightarrow> nat \<Rightarrow> bool" where
  "budget D K bn tok n \<longleftrightarrow> 0 < n \<and> (\<forall>bk c. GetBucket D bn = Inr bk \<longrightarrow> startAfterOf tok = Inr c
     \<longrightarrow> finite (K (bkt_ID bk)) \<and> left (K (bkt_ID bk)) c < n)"

locale answering =
  fixes S :: "'w svc"
  assumes world: "world_answers S"
begin

lemma calm_world [calms]:
  "calm (fewer D K) (os S l)" "calm (fewer D K) (timeNow S)"
  "calm (fewer D K) (wdc S (\<lambda>c. cl_UploadFromFile c p d))" "calm (fewer D K) (wdc S (\<lambda>c. cl_Delete c p))"
  using world unfolding os_def timeNow_def wdc_def world_answers_def by (auto intro: calm_onWorld)

lemma calm_ask [calms]:
  "(\<And>d e. f d = Inl e \<Longrightarrow> \<not> aborts e) \<Longrightarrow> calm (fewer D K) (askStructure S l f)"
  "(\<And>d e. g d = Inl e \<Longrightarrow> \<not> aborts e) \<Longrightarrow> calm (fewer D K) (askBucket S i l g)"
  unfolding askStructure_def askBucket_def by (rule calm_thn, rule calms, rule calm_state, simp)+

lemma calm_cacheGet [calms]: "calm (fewer D K) (cacheGet S i)"
proof -
  have "calm (fewer D K) (openBucket S i)" unfolding openBucket_def
    by (intro calms calm_state) (auto intro!: fewer_setBdb simp: emptyBucketDB_def split: option.splits sum.splits,
      auto simp: fewer_def)
  then show ?thesis unfolding cacheGet_def by (intro calms calm_modify) simp_all
qed

lemma no_aborts [simp]:
  "GetBucket d n = Inl e \<Longrightarrow> \<not> aborts e" "GetLocation d i = Inl e \<Longrightarrow> \<not> aborts e"
  "GetObject b k = Inl e \<Longrightarrow> \<not> aborts e" "startAfterOf t = Inl e \<Longrightarrow> \<not> aborts e"
  by (auto simp: GetBucket_def GetLocation_def GetObject_def startAfterOf_def split: option.splits if_splits)

lemma calm_lookups [calms]:
  "calm (fewer D K) (bucketByName S n)" "calm (fewer D K) (findBucket S n)" "calm (fewer D K) (locationOf S bk)"
  "calm (fewer D K) (openCached S i)" "calm (fewer D K) (lookupObject S n key)"
  unfolding lookupObject_def bucketByName_def findBucket_def locationOf_def openCached_def by (intro calms; simp)+

lemma calm_deleteRow [calms]: "calm (fewer D K) (changeBucket S i l (\<lambda>b. DeleteObject b key))"
proof -
  have "fewer D K (setBdb t i b)" if "fewer D K t" "DeleteObject (bdbOf t i) key = Inr b" for t b
    using that by (intro fewer_setBdb) (auto simp: DeleteObject_Inr fewer_def keysOf_def deleteRows_def)
  moreover have "DeleteObject b key = Inl e \<Longrightarrow> \<not> aborts e" for b e
    by (auto simp: DeleteObject_def Let_def split: if_splits)
  ultimately show ?thesis unfolding changeBucket_def
    by (intro calm_thn calms calm_state) (auto split: sum.split)
qed

lemma calm_ledger [calms]: "calm (fewer D K) (addDelta S l u b n c)"
proof -
  have "AddDelta db now l u b n c = Inl e \<Longrightarrow> \<not> aborts e" for db now e
    by (auto simp: AddDelta_def insertDelta_def split: if_splits)
  then show ?thesis unfolding addDelta_def by (intro calm_bnd calm_thn calms calm_state) (auto split: sum.split)
qed

lemma calm_files [calms]: "calm (fewer D K) (syncBucketDB S i base)" "calm (fewer D K) (deletePaths S ps)"
  unfolding syncBucketDB_def by ((intro calms; simp), induction ps) (auto intro!: calms)

lemma calm_Delete [calms]: "calm (fewer D K) (Delete S bn key)"
proof -
  have "calm (fewer D K) (referencedElsewhere S hp bk bs)" for hp bk bs
    by (induction bs) (auto intro!: calms)
  then have "calm (fewer D K) (maybeDeleteDataFile S hp bk)" for hp bk
    unfolding maybeDeleteDataFile_def by (intro calms; simp)
  then show ?thesis unfolding Delete_def by (intro calms; simp)
qed

lemma calm_objectList [calms]: "calm (fewer D K) (objectList S bn pref [] tok mk)"
  unfolding objectList_def by (intro calms; simp add: ListObjects_def)

lemma objectList_page:
  assumes t: "fewer D K t" and r: "objectList S bn pref [] tok 1000 t = (Inr p, u)"
    and more: "lr_IsTruncated p" "lr_NextContinuationToken p \<noteq> []"
  shows "\<exists>bk c c'. GetBucket D bn = Inr bk \<and> startAfterOf tok = Inr c \<and> startAfterOf (lr_NextContinuationToken p) = Inr c'
    \<and> (finite (K (bkt_ID bk)) \<longrightarrow> left (K (bkt_ID bk)) c' < left (K (bkt_ID bk)) c)"
proof -
  from r obtain bk t1 t2 c t3 found cps t4 where 1: "bucketByName S bn t = (Inr bk, t1)" and 2: "openCached S (bkt_ID bk) t1 = (Inr (), t2)"
    and c: "liftE (startAfterOf tok) t2 = (Inr c, t3)"
    and q: "wrapE (wrapAs ''list objects'') (askBucket S (bkt_ID bk) ''bdb.ListObjects'' (\<lambda>b. ListObjects b pref [] c (i64 1001))) t3 = (Inr (found, cps), u)"
    and p: "p = listPage 1000 found cps"
    unfolding objectList_def Let_def by (auto elim!: act_elims simp: ret_def)
  from t have "GetBucket D bn = Inr bk" using bucketByName_Inr [OF 1] by (simp add: fewer_def)
  have "fewer D K t3" using calmD(1) [OF calm_lookups(1) t 1] calmD(1) [OF calm_lookups(4) _ 2] c by (auto simp: liftE_def)
  moreover have f: "ListObjects (bdbOf t3 (bkt_ID bk)) pref [] c (i64 1001) = Inr (found, cps)"
    by (rule askBucket_Inr [OF wrapE_InrD [OF q]])
  ultimately have keys: "keysOf t3 (bkt_ID bk) \<subseteq> K (bkt_ID bk)" by (simp add: fewer_def)
  have "i64 1001 = 1001" by (rule i64_id) (simp add: is_i64_def)
  with f have found: "found = map scanObject (take 1001 (matching (bdbOf t3 (bkt_ID bk)) pref c))" "cps = []"
    by (auto simp: ListObjects_def listObjectsSingleQuery_def buildListQuery_take)
  from more p have long: "length found > 1000" by (auto simp: listPage_def Let_def found(2) split: if_splits)
  then have ne: "take 1000 found \<noteq> []" by auto
  let ?o = "last (take 1000 found)"
  from long p found(2) have tok: "lr_NextContinuationToken p = base64Encode (obj_Key ?o)" using ne by (simp add: listPage_def)
  have "?o \<in> set (take 1000 found)" using ne by (rule last_in_set)
  then have "?o \<in> set found" by (rule in_set_takeD)
  then obtain r where "r \<in> set (matching (bdbOf t3 (bkt_ID bk)) pref c)" "obj_Key ?o = obj_Key r"
    unfolding found(1) by (auto dest!: in_set_takeD)
  then have "obj_Key ?o \<in> keysOf t3 (bkt_ID bk)" "c \<noteq> [] \<longrightarrow> c < obj_Key ?o" by (auto simp: set_matching keysOf_def)
  moreover have "startAfterOf (lr_NextContinuationToken p) = Inr (obj_Key ?o)" "obj_Key ?o \<noteq> []"
    using more(2) by (auto simp: tok startAfterOf_def base64_roundtrip)
  moreover have "startAfterOf tok = Inr c" using c by (simp add: liftE_def)
  ultimately show ?thesis using left_less keys \<open>GetBucket D bn = Inr bk\<close> by blast
qed

lemma page_hoare:
  assumes "budget D K bn tok (Suc n)"
  shows "hoare (fewer D K) (objectList S bn pref [] tok 1000)
    (\<lambda>p u. fewer D K u \<and> (lr_IsTruncated p \<and> lr_NextContinuationToken p \<noteq> [] \<longrightarrow> budget D K bn (lr_NextContinuationToken p) n))
    (\<lambda>e u. fewer D K u \<and> \<not> aborts e)"
proof (rule hoareI)
  fix s p u assume s: "fewer D K s" and r: "objectList S bn pref [] tok 1000 s = (Inr p, u)"
  have "fewer D K u" using calmD(1) [OF calm_objectList s r] .
  moreover have "budget D K bn (lr_NextContinuationToken p) n" if "lr_IsTruncated p" "lr_NextContinuationToken p \<noteq> []"
    using objectList_page [OF s r that] assms by (fastforce simp: budget_def)
  ultimately show "fewer D K u \<and> (lr_IsTruncated p \<and> lr_NextContinuationToken p \<noteq> [] \<longrightarrow> budget D K bn (lr_NextContinuationToken p) n)" by blast
qed (rule calmD(2) [OF calm_objectList])

lemma storagePages_ends: "budget D K bn tok n \<Longrightarrow> sure (fewer D K) (storagePages S bn n tok acc)"
proof (induction n arbitrary: tok acc)
  case (Suc n)
  let ?R = "\<lambda>r u. fewer D K u \<and> (\<forall>p. r = Inr p \<and> lr_IsTruncated p \<and> lr_NextContinuationToken p \<noteq> []
    \<longrightarrow> budget D K bn (lr_NextContinuationToken p) n)"
  have "hoare (fewer D K) (attempt (objectList S bn [] [] tok 1000)) ?R (\<lambda>_ _. False)"
    by (rule hoare_attempt, rule hoare_post [OF page_hoare [OF Suc.prems]]) auto
  then show ?case unfolding sure_def storagePages.simps
    by (rule hoare_bnd [rotated]) (use Suc.IH in \<open>auto simp: hoare_def ret_def sure_def Let_def split: sum.splits\<close>)
qed (simp add: budget_def)

lemma prefixPages_ends:
  assumes f: "\<And>x. calm (fewer D K) (f x)"
  shows "budget D K bn tok n \<Longrightarrow> calm (fewer D K) (prefixPages S bn pref f n tok any)"
proof (induction n arbitrary: tok any)
  case (Suc n)
  let ?R = "\<lambda>p u. fewer D K u \<and> (lr_IsTruncated p \<and> lr_NextContinuationToken p \<noteq> [] \<longrightarrow> budget D K bn (lr_NextContinuationToken p) n)"
  have each: "calm (fewer D K) (forEach f xs)" for xs
    by (induction xs) (auto intro!: calms f)
  have "calm (fewer D K) (thn (forEach f (lr_Objects p)) (let any = any \<or> lr_Objects p \<noteq> [] in
      if \<not> lr_IsTruncated p \<or> lr_NextContinuationToken p = [] then ret any
      else prefixPages S bn pref f n (lr_NextContinuationToken p) any))"
    if "lr_IsTruncated p \<and> lr_NextContinuationToken p \<noteq> [] \<longrightarrow> budget D K bn (lr_NextContinuationToken p) n" for p
    using that by (intro calms each Suc.IH) simp
  then have "hoare (?R p) (thn (forEach f (lr_Objects p)) (let any = any \<or> lr_Objects p \<noteq> [] in
      if \<not> lr_IsTruncated p \<or> lr_NextContinuationToken p = [] then ret any
      else prefixPages S bn pref f n (lr_NextContinuationToken p) any)) (\<lambda>_. fewer D K) (\<lambda>e t. fewer D K t \<and> \<not> aborts e)" for p
    unfolding calm_def by (rule hoare_fact)
  then show ?case unfolding calm_def prefixPages.simps by (rule hoare_bnd [OF _ page_hoare [OF Suc.prems]])
qed (simp add: budget_def)

lemma storageUsedBytes_ends:
  "(\<And>bn. budget D K bn [] n) \<Longrightarrow> sure (fewer D K) (storageUsedBytes S n bs acc)"
  by (induction bs arbitrary: acc) (auto intro!: calms storagePages_ends)

lemma calm_svcListBuckets [calms]: "calm (fewer D K) (svcListBuckets S o')"
  unfolding svcListBuckets_def by (intro calms) simp_all

lemma sure_listings [calms]:
  "calm (fewer D K) m \<Longrightarrow> sure (fewer D K) (orNil m)" "sure (fewer D K) (hasLocations S)"
  unfolding hasLocations_def listLocations_def orNil_def by (intro calms; simp)+

end

section \<open>Handlers that answer\<close>

text \<open>More rounds than any bucket has objects.\<close>

definition enough_rounds :: "'w daemon \<Rightarrow> nat \<Rightarrow> bool" where
  "enough_rounds s n \<longleftrightarrow> 0 < n \<and> (\<forall>b \<in> set (ListBuckets (d_structure s)). length (objects (bdbOf s (bkt_ID b))) < n)"

lemma enough_budget: "enough_rounds s n \<Longrightarrow> budget (d_structure s) (keysOf s) bn [] n"
proof -
  assume e: "enough_rounds s n"
  have "bk \<in> set (ListBuckets (d_structure s))" if "GetBucket (d_structure s) bn = Inr bk" for bk
    using that by (auto simp: GetBucket_def ListBuckets_def split: option.splits dest!: selectOne_SomeD)
  then have "card (keysOf s (bkt_ID bk)) < n" if "GetBucket (d_structure s) bn = Inr bk" for bk
    using e that unfolding enough_rounds_def keysOf_def
    by (metis card_length image_set length_map le_less_trans)
  moreover have "finite (keysOf s i)" for i by (simp add: keysOf_def)
  ultimately show ?thesis using e by (simp add: budget_def enough_rounds_def startAfterOf_def left_def)
qed

definition files_answer :: "'w daemon \<Rightarrow> bool" where
  "files_answer s \<longleftrightarrow> (\<forall>i e. d_bdb s i = Some (Inl e) \<longrightarrow> \<not> aborts e)"

lemma fewer_start: "files_answer s \<Longrightarrow> fewer (d_structure s) (keysOf s) s"
  by (simp add: fewer_def files_answer_def)

context answering
begin

lemma sure_access [calms]: "(\<And>bkt. sure (fewer D K) (k bkt)) \<Longrightarrow> sure (fewer D K) (requireBucketAccess W user r k)" if "wd_svc W = S"
  unfolding requireBucketAccess_def that by (intro calms; simp)

lemma sure_handleListBuckets:
  "wd_svc W = S \<Longrightarrow> (\<And>bn. budget D K bn [] (wd_fuel W)) \<Longrightarrow> sure (fewer D K) (handleListBuckets W user)"
  unfolding handleListBuckets_def by (simp, intro calms storageUsedBytes_ends)

lemma sure_handleDeleteObject:
  assumes "wd_svc W = S" and b: "\<And>bn. budget D K bn [] (wd_fuel W)"
  shows "sure (fewer D K) (handleDeleteObject W user r)"
proof -
  have "calm (fewer D K) (deletePrefix W bn pref)" for bn pref
    unfolding deletePrefix_def assms(1) by (intro calms prefixPages_ends b) simp_all
  then show ?thesis unfolding handleDeleteObject_def
    by (auto split: sum.split intro!: calms assms(1) simp: assms(1))
qed

end

text \<open>C36: a page of the web interface that lists, and a deletion, always come to an end. The two handlers read
  the storage used, or delete a folder, page by page until the listing is not truncated; they return a
  response, whatever fails on the way, provided no call panics, and the number of pages is below the number of
  objects of a bucket. (A rename of a folder has no such bound.)\<close>

theorem web_pages_end:
  assumes "world_answers (wd_svc W)" and "files_answer s" and "enough_rounds s (wd_fuel W)"
  shows "(\<exists>p t. handleListBuckets W user s = (Inr p, t)) \<and> (\<exists>p t. handleDeleteObject W user r s = (Inr p, t))"
  using sureD [OF answering.sure_handleListBuckets [OF answering.intro [OF assms(1)] refl enough_budget [OF assms(3)]] fewer_start [OF assms(2)]]
    sureD [OF answering.sure_handleDeleteObject [OF answering.intro [OF assms(1)] refl enough_budget [OF assms(3)]] fewer_start [OF assms(2)]]
  by blast

lemma demoWeb_answers: "world_answers demoSvc"
  by (auto simp: world_answers_def answers_def demoSvc_def demo_defs)

interpretation demoAnswering: answering demoSvc
  by unfold_locales (rule demoWeb_answers)

theorem web_pages_end_witness:
  "(\<exists>p t. handleListBuckets demoWeb demoUser (st_daemon demoSite) = (Inr p, t))
   \<and> (\<exists>p t. handleDeleteObject demoWeb demoUser (demoRemove\<lparr>ur_name := ''first''\<rparr>) (st_daemon demoSite) = (Inr p, t))"
proof (rule web_pages_end)
  show "world_answers (wd_svc demoWeb)" using demoWeb_answers by (simp add: demoWeb_def)
  show "files_answer (st_daemon demoSite)" by (simp add: files_answer_def demoSite_def)
  show "enough_rounds (st_daemon demoSite) (wd_fuel demoWeb)" unfolding enough_rounds_def by code_simp
qed

end
