(* ===== verification/AdminFacts.thy ===== *)
theory AdminFacts
  imports WebAccess
begin

text \<open>
  What the administrator's interface promises: it acts for nobody without a session that its password
  opened, and the credentials it shows for a new user are the ones that user can log in with.
\<close>

section \<open>The door\<close>

text \<open>The request shows the cookie of a session that the store has and that has not expired by the time the guard reads.\<close>

definition admin_session :: "'w adminDeps \<Rightarrow> uiRequest \<Rightarrow> 'w site \<Rightarrow> 'w daemon \<Rightarrow> bool" where
  "admin_session A r s d \<longleftrightarrow> (\<exists>token exp now.
     requestCookie (ur_req r) adminCookie = Some token \<and> st_admin s token = Some exp
     \<and> timeNow (ad_svc A) (st_daemon s) = (Inr now, d) \<and> now \<le> exp)"

definition admin_password :: "'w adminDeps \<Rightarrow> uiRequest \<Rightarrow> bool" where
  "admin_password A r \<longleftrightarrow> rq_Method (ur_req r) = ''POST'' \<and> (\<exists>form. ur_form r = Inr form
     \<and> formValue form ''username'' = ad_AdminUsername A
     \<and> ad_bcryptCompare A (ad_AdminPasswordHash A) (formValue form ''password''))"

lemma adminValid_cases:
  assumes "adminValid S r s = (x, t)"
  obtains (no) "x \<noteq> Inr True" and "\<forall>tok e. st_admin t tok = Some e \<longrightarrow> st_admin s tok = Some e"
    and "st_daemon t = st_daemon s \<or> (\<exists>y. timeNow S (st_daemon s) = (y, st_daemon t))"
  | (yes) token exp now where "x = Inr True" and "requestCookie r adminCookie = Some token" and "st_admin s token = Some exp"
    and "now \<le> exp" and "timeNow S (st_daemon s) = (Inr now, st_daemon t)" and "st_admin t = st_admin s"
proof (cases "requestCookie r adminCookie")
  case None
  with assms show ?thesis by (intro no) (auto simp: adminValid_def ret_def)
next
  case c: (Some token)
  show ?thesis
  proof (cases "st_admin s token")
    case None
    with assms c show ?thesis by (intro no) (auto simp: adminValid_def bnd_def gets_def ret_def)
  next
    case e: (Some exp)
    obtain y d where now: "timeNow S (st_daemon s) = (y, d)" by fastforce
    show ?thesis
    proof (cases y)
      case (Inl err)
      with assms c e now show ?thesis by (intro no) (auto simp: adminValid_def bnd_def gets_def onDaemon_def)
    next
      case (Inr n)
      show ?thesis
      proof (cases "n > exp")
        case True
        with assms c e now Inr show ?thesis
          by (intro no) (auto simp: adminValid_def bnd_def gets_def onDaemon_def adminCheck_def split: if_splits)
      next
        case False
        with assms c e now Inr show ?thesis
          by (intro yes [of token exp n]) (auto simp: adminValid_def bnd_def gets_def onDaemon_def adminCheck_def)
      qed
    qed
  qed
qed

text \<open>What a request did at the door: nothing to the daemon, or it ran a page behind a session.\<close>

definition admitted ::
  "('w \<Rightarrow> string \<rightharpoonup> bytes) \<Rightarrow> 'w adminDeps \<Rightarrow> uiRequest \<Rightarrow> 'w site \<Rightarrow> 'w site \<Rightarrow> bool" where
  "admitted content A r s t \<longleftrightarrow>
     untouched content (st_daemon s) (st_daemon t)
     \<or> (\<exists>d segs. admin_session A r s d \<and> st_daemon t = snd (adminDispatch A r segs d))"

definition opened :: "'w adminDeps \<Rightarrow> uiRequest \<Rightarrow> 'w site \<Rightarrow> 'w site \<Rightarrow> bool" where
  "opened A r s t \<longleftrightarrow> (\<forall>tok e. st_admin t tok = Some e \<longrightarrow> st_admin s tok = Some e) \<or> admin_password A r"

context daemon_server
begin

lemma quiet_daemon: "kept (\<lambda>s. untouched content d (st_daemon s)) (onDaemon m)" if "kept (untouched content d) m"
  using that by (auto simp: kept_def onDaemon_def split: prod.split)

lemma session_door:
  assumes "ad_svc A = S" and run: "adminSession A r (onDaemon (adminDispatch A r segs)) s = (x, t)"
  shows "admitted content A r s t \<and> (\<forall>tok e. st_admin t tok = Some e \<longrightarrow> st_admin s tok = Some e)"
proof -
  obtain y u where v: "adminValid S (ur_req r) s = (y, u)" by fastforce
  then show ?thesis
  proof (cases rule: adminValid_cases)
    case no
    have t: "t = u"
      using run v no(1) by (auto simp: adminSession_def assms(1) bnd_def ret_def split: sum.splits if_splits)
    from no(3) have "untouched content (st_daemon s) (st_daemon u)"
      using keptD' [OF unchanged_calls(2) untouched_refl] by auto
    with no(2) t show ?thesis unfolding admitted_def by blast
  next
    case (yes token exp now)
    then have "st_daemon t = snd (adminDispatch A r segs (st_daemon u)) \<and> st_admin t = st_admin u"
      using run v by (auto simp: adminSession_def assms(1) bnd_def onDaemon_def split: prod.splits)
    with yes assms(1) show ?thesis unfolding admitted_def admin_session_def by metis
  qed
qed

lemma login_door:
  assumes "ad_svc A = S" and "rq_Method (ur_req r) = ''POST''" and run: "adminPostLogin A r s = (x, t)"
  shows "admitted content A r s t \<and> opened A r s t"
proof (cases "\<exists>form. ur_form r = Inr form \<and> formValue form ''username'' = ad_AdminUsername A
     \<and> ad_bcryptCompare A (ad_AdminPasswordHash A) (formValue form ''password'')")
  case False
  then have "t = s" using run by (auto simp: adminPostLogin_def ret_def split: sum.splits if_splits)
  then show ?thesis by (simp add: admitted_def opened_def)
next
  case True
  then have "admin_password A r" using assms(2) unfolding admin_password_def by blast
  moreover have "kept (\<lambda>u. untouched content (st_daemon s) (st_daemon u)) (adminPostLogin A r)"
    unfolding adminPostLogin_def adminCreate_def newToken_def assms(1)
    by (intro keeps quiet_daemon unchanged_calls; simp add: kept_def modify_def)
  then have "untouched content (st_daemon s) (st_daemon t)"
    using keptD [where s = s and m = "adminPostLogin A r"] run by fastforce
  ultimately show ?thesis unfolding admitted_def opened_def by blast
qed

lemma door:
  assumes "ad_svc A = S" and run: "adminRoute A r s = (x, t)"
  shows "admitted content A r s t \<and> opened A r s t"
proof -
  have stay: ?thesis if "t = s" using that by (simp add: admitted_def opened_def)
  have out: ?thesis if "adminPostLogout r s = (x, t)"
    using that by (auto simp: adminPostLogout_def adminDelete_def admitted_def opened_def thn_def bnd_def ret_def modify_def
      split: option.splits if_splits)
  have in_: ?thesis if "adminSession A r (onDaemon (adminDispatch A r segs)) s = (x, t)" for segs
    using session_door [OF assms(1) that] unfolding opened_def by blast
  show ?thesis
    using run stay out in_ login_door [OF assms(1)]
    by (auto simp: adminRoute_def Let_def ret_def split: if_splits)
qed

end

section \<open>The credentials of a new user\<close>

text \<open>The law of \<open>bcrypt\<close>: a password matches the hash that was made of it.\<close>

definition bcrypt_ok :: "'w adminDeps \<Rightarrow> bool" where
  "bcrypt_ok A \<longleftrightarrow> (\<forall>p w h w'. ad_bcryptGenerate A p w = (Inr h, w') \<longrightarrow> ad_bcryptCompare A h p)"

lemma base64Encode_Nil [simp]: "base64Encode xs = [] \<longleftrightarrow> xs = []"
  by (cases xs rule: base64Encode.cases) (simp_all add: Let_def)

lemma bcryptGenerate_Inr: "bcrypt_ok A \<Longrightarrow> bcryptGenerate A p s = (Inr (Inr h), t) \<Longrightarrow> ad_bcryptCompare A h p"
  unfolding bcrypt_ok_def bcryptGenerate_def by (blast dest: attempt_InrD onWorld_InrD)

lemma encode_Inr:
  assumes "aead_ok (ad_cipher A)" and "env_ok (svc_env (ad_svc A))" and "encode A p s = (Inr (Inr c), t)"
  shows "c \<noteq> [] \<and> DecryptPassword (ad_cipher A) c (ad_EncryptionKey A) = Inr p"
proof -
  from assms(3) obtain w' where "encodePassword (ad_cipher A) (svc_env (ad_svc A)) p (ad_EncryptionKey A) (d_world s) = (Inr c, w')"
    unfolding encode_def by (blast dest: attempt_InrD onWorld_InrD)
  then have e: "EncryptPassword (ad_cipher A) (svc_env (ad_svc A)) p (ad_EncryptionKey A) (d_world s) = (Inr c, w')"
    by (blast dest: encodePassword_Inr)
  obtain key nonce where "env_rand (svc_env (ad_svc A)) nonceSize (d_world s) = (Inr nonce, w')"
    and "c = base64Encode (nonce @ gcm_Seal (ad_cipher A) key nonce p)" using e by (rule EncryptPassword_Inr)
  with assms(2) have "c \<noteq> []" unfolding env_ok_def by (fastforce simp: nonceSize_def)
  with Encrypt_Decrypt [OF assms(1,2) e] show ?thesis by blast
qed

text \<open>Nothing before the new row touches the structure database.\<close>

lemma same_structure [keeps]:
  "kept (\<lambda>s. d_structure s = d) (onWorld m)" "kept (\<lambda>s. d_structure s = d) (asks A l f)"
  unfolding asks_def orNil_def by (intro keeps kept_structure_world kept_structure_ask)+

lemma same_secrets:
  "kept (\<lambda>s. d_structure s = d) (randomAlphanumeric A n)" "kept (\<lambda>s. d_structure s = d) (newAdminUUID A)"
  "kept (\<lambda>s. d_structure s = d) (encode A x)" "kept (\<lambda>s. d_structure s = d) (bcryptGenerate A x)"
proof -
  show "kept (\<lambda>s. d_structure s = d) (randomAlphanumeric A n)" by (induction n) (auto intro!: keeps)
qed (unfold newAdminUUID_def encode_def bcryptGenerate_def; intro keeps)+

lemmas same_before = structureD [OF same_structure(2)] structureD [OF same_secrets(1)] structureD [OF same_secrets(2)]
  structureD [OF same_secrets(3)] structureD [OF same_secrets(4)] structureD [OF kept_structure(2)]

lemma handlePostNewUser_created:
  assumes "handlePostNewUser A r s = (Inr p, t)" and "up_Page p = UserCreated user ak secret web title flash"
  obtains s1 h s2 wh s3 e s4 u where "bcryptGenerate A secret s1 = (Inr (Inr h), s2)"
    and "bcryptGenerate A web s2 = (Inr (Inr wh), s3)" and "encode A secret s3 = (Inr (Inr e), s4)"
    and "usr_AccessKey user = ak" "usr_SecretKeyEnc user = e" "usr_WebPasswordHash user = wh" "usr_Enabled user"
    and "AddUser (d_structure s) user = Inr (d_structure u)" and "runFlush (ad_FlushStructure A) u = (Inr (), t)"
proof -
  from assms obtain form locs s0 s1 s2 s3 s4 s5 s6 s7 s8 s9 s10 h wh e we ident now where
    run: "asks A ''structure.ListLocations'' ListLocations s = (Inr locs, s0)"
      "randomAlphanumeric A 20 s0 = (Inr ak, s1)" "randomAlphanumeric A 40 s1 = (Inr secret, s2)"
      "randomAlphanumeric A 20 s2 = (Inr web, s3)" "bcryptGenerate A secret s3 = (Inr (Inr h), s4)"
      "bcryptGenerate A web s4 = (Inr (Inr wh), s5)" "encode A secret s5 = (Inr (Inr e), s6)"
      "encode A web s6 = (Inr (Inr we), s7)" "newAdminUUID A s7 = (Inr ident, s8)" "timeNow (ad_svc A) s8 = (Inr now, s9)"
    and u: "user = \<lparr>usr_ID = ident, usr_AccessKey = ak, usr_SecretKeyHash = h, usr_SecretKeyEnc = e, usr_WebPasswordHash = wh,
        usr_WebPasswordEnc = we, usr_DisplayName = formValue form ''display_name'', usr_Enabled = True, usr_CreatedAt = now\<rparr>"
    and add: "change A ''structure.AddUser'' (\<lambda>d. AddUser d user) s9 = (Inr (Inr ()), s10)"
    and flush: "runFlush (ad_FlushStructure A) s10 = (Inr (), t)"
    unfolding handlePostNewUser_def Let_def
    by (auto simp: ret_def adminError_def page_def elim!: bnd_InrE thn_InrE split: sum.splits if_splits)
  have "AddUser (d_structure s9) user = Inr (d_structure s10)"
    using add unfolding change_def by (blast dest: attempt_InrD changeStructure_Inr)
  moreover have "d_structure s9 = d_structure s" using run by (simp add: same_before)
  ultimately show thesis using that [OF run(5-7)] u flush by simp
qed

section \<open>Properties\<close>

text \<open>C37: nothing behind the login is done for a stranger. Whatever is asked of the administrator's interface,
  either no database, file or cache entry changes, or the request showed the cookie of a session that has
  not expired and what happened is the page it asked for; and a session is opened only by a login with
  the administrator's name and password.\<close>

theorem adminRoute_guarded:
  assumes "daemon_server (ad_svc A) content" and "adminRoute A r s = (x, t)"
  shows "(untouched content (st_daemon s) (st_daemon t)
      \<or> (\<exists>d segs. admin_session A r s d \<and> st_daemon t = snd (adminDispatch A r segs d)))
    \<and> ((\<forall>token e. st_admin t token = Some e \<longrightarrow> st_admin s token = Some e) \<or> admin_password A r)"
  using daemon_server.door [OF assms(1) refl assms(2)] unfolding admitted_def opened_def .

text \<open>An administrator with the password \<open>pw\<close>, and a form sent by a stranger.\<close>

definition demoAdmin :: "demoWorld adminDeps" where
  "demoAdmin = \<lparr>ad_AdminPasswordHash = ''#pw'', ad_AdminUsername = ''admin'', ad_EncryptionKey = demoKey, ad_svc = demoSvc,
     ad_SyncEngine = None, ad_RefreshWebDAV = None, ad_FlushStructure = None, ad_cipher = demoCipher,
     ad_bcryptCompare = (\<lambda>h p. h = CHR ''#'' # p), ad_bcryptGenerate = (\<lambda>p. ret (CHR ''#'' # p)),
     ad_randInt = (\<lambda>n. ret (n - 1)), ad_newClient = (\<lambda>u n p. fail (ENew ''no client''))\<rparr>"

definition demoNewUser :: uiRequest where
  "demoNewUser = demoPost ''t'' ''/admin/users/new'' [(''display_name'', ''Ann'')]"

theorem adminRoute_guarded_witness:
  "\<exists>x t. adminRoute demoAdmin demoNewUser demoSite = (x, t) \<and> untouched map_of (st_daemon demoSite) (st_daemon t) \<and> st_admin t = Map.empty"
proof -
  obtain x t where run: "adminRoute demoAdmin demoNewUser demoSite = (x, t)" by fastforce
  have "daemon_server (ad_svc demoAdmin) map_of" by (simp add: demoAdmin_def)
  from adminRoute_guarded [OF this run] have
    "untouched map_of (st_daemon demoSite) (st_daemon t) \<or> (\<exists>d. admin_session demoAdmin demoNewUser demoSite d)"
    and "(\<forall>token e. st_admin t token = Some e \<longrightarrow> st_admin demoSite token = Some e) \<or> admin_password demoAdmin demoNewUser"
    by blast+
  moreover have "st_admin demoSite = Map.empty" by (simp add: demoSite_def)
  moreover have "\<not> admin_password demoAdmin demoNewUser"
    by (simp add: admin_password_def demoNewUser_def demoPost_def demoAdmin_def)
  ultimately have "untouched map_of (st_daemon demoSite) (st_daemon t) \<and> st_admin t = Map.empty"
    unfolding admin_session_def by auto
  with run show ?thesis by blast
qed

text \<open>C38: the credentials on the page work. When the page of a new user shows an access key, a secret key and a
  web password, the structure database holds an enabled user under that access key, the S3 interface checks
  signatures with that secret key, the password matches the stored hash, and no other access key
  resolves differently.\<close>

theorem handlePostNewUser_credentials:
  assumes "aead_ok (ad_cipher A)" and "env_ok (svc_env (ad_svc A))" and "bcrypt_ok A" and "flushQuiet (ad_FlushStructure A)"
    and "dp_decrypt D = Some (\<lambda>ct. DecryptPassword (ad_cipher A) ct (ad_EncryptionKey A))"
    and "handlePostNewUser A r s = (Inr p, t)" and "up_Page p = UserCreated user ak secret web title flash"
  shows "\<exists>u. GetUserByAccessKey (d_structure t) ak = Inr u \<and> usr_Enabled u \<and> storedSecret D u = Inr secret
     \<and> ad_bcryptCompare A (usr_WebPasswordHash u) web
     \<and> (\<forall>k. k \<noteq> ak \<longrightarrow> GetUserByAccessKey (d_structure t) k = GetUserByAccessKey (d_structure s) k)"
proof -
  from handlePostNewUser_created [OF assms(6,7)] obtain s1 h s2 wh s3 e s4 v where
    h: "bcryptGenerate A web s2 = (Inr (Inr wh), s3)" and e: "encode A secret s3 = (Inr (Inr e), s4)"
    and u: "usr_AccessKey user = ak" "usr_SecretKeyEnc user = e" "usr_WebPasswordHash user = wh" "usr_Enabled user"
    and add: "AddUser (d_structure s) user = Inr (d_structure v)" and flush: "runFlush (ad_FlushStructure A) v = (Inr (), t)" .
  have "d_structure t = d_structure v" by (rule runFlush_quiet [OF assms(4) flush])
  then have look: "GetUserByAccessKey (d_structure t) k
      = (if ak = k then Inr (scanUser (userRow user)) else GetUserByAccessKey (d_structure s) k)" for k
    using AddUser_lookup [OF add] u(1) by (simp add: userRow_def)
  have "storedSecret D (scanUser (userRow user)) = Inr secret"
    using encode_Inr [OF assms(1,2) e] u(2) by (simp add: storedSecret_def assms(5) scanUser_def userRow_def)
  with look bcryptGenerate_Inr [OF assms(3) h] u show ?thesis by (simp add: scanUser_def userRow_def)
qed

lemma demo_random: "randomAlphanumeric demoAdmin n s = (Inr (replicate n (CHR ''9'')), s)"
  by (induction n) (simp_all add: demoAdmin_def onWorld_def act_defs alphanumerics_def)

lemma demo_encode: "\<exists>c. encode demoAdmin p s = (Inr (Inr c), s)"
proof -
  have "decodeKey demoKey = Inr (replicate 32 (CHR ''k''))" by (simp add: decodeKey_Inr demoKey_def base64_roundtrip)
  moreover have "demoKey \<noteq> []" by (simp add: demoKey_def)
  ultimately show ?thesis
    by (simp add: encode_def encodePassword_def EncryptPassword_def demoAdmin_def demoSvc_def demoEnv_def onWorld_def act_defs)
qed

lemma demo_new_user:
  "\<exists>p user secret web title flash. fst (handlePostNewUser demoAdmin demoNewUser (st_daemon demoSite)) = Inr p
     \<and> up_Page p = UserCreated user (replicate 20 (CHR ''9'')) secret web title flash"
proof -
  let ?s = "st_daemon demoSite"
  obtain e where e: "encode demoAdmin (replicate 40 (CHR ''9'')) ?s = (Inr (Inr e), ?s)" using demo_encode by blast
  obtain we where we: "encode demoAdmin (replicate 20 (CHR ''9'')) ?s = (Inr (Inr we), ?s)" using demo_encode by blast
  have locs: "\<exists>l ls. asks demoAdmin ''structure.ListLocations'' ListLocations ?s = (Inr (l # ls), ?s)"
    by (simp add: asks_def orNil_def askStructure_def os_def onWorld_def act_defs demoAdmin_def demoSvc_def demoEnv_def
      demoSite_def demoState_def demoStructure_def ListLocations_def)
  have form: "ur_form demoNewUser = Inr [(''display_name'', [''Ann''])]" by (simp add: demoNewUser_def demoPost_def)
  have u: "uuidText (replicate 16 (CHR ''r'')) \<notin> {''u'', ''v''}" using uuid_new [of "''u''" "CHR ''r''"] uuid_new [of "''v''" "CHR ''r''"] by auto
  have uuid: "newAdminUUID demoAdmin ?s = (Inr (uuidText (replicate 16 (CHR ''r''))), ?s)"
    by (simp add: newAdminUUID_def onWorld_def act_defs demoAdmin_def demoSvc_def demoEnv_def)
  have now: "timeNow (ad_svc demoAdmin) ?s = (Inr 5000000000, ?s)"
    by (simp add: timeNow_def onWorld_def act_defs demoAdmin_def demoSvc_def demoEnv_def)
  have hash: "bcryptGenerate demoAdmin x ?s = (Inr (Inr (CHR ''#'' # x)), ?s)" for x
    by (simp add: bcryptGenerate_def onWorld_def act_defs demoAdmin_def)
  have add: "\<exists>d'. change demoAdmin ''structure.AddUser'' (\<lambda>d. AddUser d x) ?s = (Inr (Inr ()), d')"
    if "usr_AccessKey x = replicate 20 (CHR ''9'')" "usr_ID x = uuidText (replicate 16 (CHR ''r''))" for x
    using that u by (auto simp: change_def changeStructure_def os_def onWorld_def act_defs demoAdmin_def demoSvc_def demoEnv_def
      demoSite_def demoState_def demoStructure_def demoUser_def AddUser_def insertRow_def conflicts_def userKeys_def userRow_def numeral_eq_Suc)
  have flush: "runFlush (ad_FlushStructure demoAdmin) t = (Inr (), t)" for t
    by (simp add: runFlush_def demoAdmin_def ret_def)
  from locs obtain l ls where l: "asks demoAdmin ''structure.ListLocations'' ListLocations ?s = (Inr (l # ls), ?s)" by blast
  let ?u = "\<lparr>usr_ID = uuidText (replicate 16 (CHR ''r'')), usr_AccessKey = replicate 20 (CHR ''9''),
     usr_SecretKeyHash = CHR ''#'' # replicate 40 (CHR ''9''), usr_SecretKeyEnc = e,
     usr_WebPasswordHash = CHR ''#'' # replicate 20 (CHR ''9''), usr_WebPasswordEnc = we, usr_DisplayName = ''Ann'',
     usr_Enabled = True, usr_CreatedAt = 5000000000\<rparr>"
  obtain d' where "change demoAdmin ''structure.AddUser'' (\<lambda>d. AddUser d ?u) ?s = (Inr (Inr ()), d')" using add [of ?u] by auto
  then show ?thesis
    unfolding handlePostNewUser_def form by (simp add: l demo_random hash e we uuid now flush ret_def page_def Let_def)
qed

theorem handlePostNewUser_credentials_witness:
  "\<exists>p t u. handlePostNewUser demoAdmin demoNewUser (st_daemon demoSite) = (Inr p, t)
     \<and> GetUserByAccessKey (d_structure t) (replicate 20 (CHR ''9'')) = Inr u \<and> usr_Enabled u"
proof -
  let ?D = "demoDeps\<lparr>dp_decrypt := Some (\<lambda>ct. DecryptPassword demoCipher ct demoKey)\<rparr>"
  obtain x t where run: "handlePostNewUser demoAdmin demoNewUser (st_daemon demoSite) = (x, t)" by fastforce
  with demo_new_user obtain p user secret web title flash where x: "x = Inr p"
    and page: "up_Page p = UserCreated user (replicate 20 (CHR ''9'')) secret web title flash"
    by auto
  from handlePostNewUser_credentials [where A = demoAdmin and D = ?D, OF _ _ _ _ _ run [unfolded x] page]
  obtain u where "GetUserByAccessKey (d_structure t) (replicate 20 (CHR ''9'')) = Inr u" "usr_Enabled u"
    by (auto simp: demoAdmin_def demoCipher_ok demoSvc_def demoEnv_ok bcrypt_ok_def ret_def)
  with run x show ?thesis by blast
qed

end
