(* ===== verification/ProvisionFacts.thy ===== *)
theory ProvisionFacts
  imports Provision SyncFacts
begin

text \<open>
  What a provision file that passes validation looks like, and what is there after it was applied:
  its users and buckets, next to every user and bucket that was there before.
\<close>

section \<open>Validation\<close>

definition complete_user :: "UserSpec \<Rightarrow> bool" where
  "complete_user u \<longleftrightarrow> \<not> blank (us_Slug u) \<and> \<not> blank (us_DisplayName u) \<and> \<not> blank (us_AccessKey u) \<and> \<not> blank (us_SecretKey u)
     \<and> \<not> blank (us_WebPassword u)"

definition complete_location :: "LocationSpec \<Rightarrow> bool" where
  "complete_location l \<longleftrightarrow> \<not> blank (lp_Slug l) \<and> \<not> blank (lp_DisplayName l) \<and> \<not> blank (lp_URL l) \<and> \<not> blank (lp_Username l)
     \<and> \<not> blank (lp_Password l)"

abbreviation "slugOf u \<equiv> trimSpace (us_Slug u)"
abbreviation "keyOf u \<equiv> trimSpace (us_AccessKey u)"
abbreviation "nameOf b \<equiv> trimSpace (bs_Name b)"

text \<open>No element twice, and none of a given set.\<close>

definition fresh :: "'a list \<Rightarrow> 'a set \<Rightarrow> bool" where
  "fresh xs A \<longleftrightarrow> distinct xs \<and> set xs \<inter> A = {}"

lemma fresh_simps [simp]:
  "fresh [] A" "fresh (x # xs) A \<longleftrightarrow> x \<notin> A \<and> fresh xs (insert x A)"
  "fresh xs {} \<longleftrightarrow> distinct xs"
  by (auto simp: fresh_def)

lemma fresh_append: "fresh (xs @ ys) A \<longleftrightarrow> fresh xs A \<and> fresh ys (A \<union> set xs)"
  by (auto simp: fresh_def)

lemma validateUsers_Inr:
  "validateUsers us slugs keys = Inr R \<longleftrightarrow>
     (\<forall>u \<in> set us. complete_user u) \<and> fresh (map slugOf us) slugs \<and> fresh (map keyOf us) keys \<and> R = slugs \<union> set (map slugOf us)"
  by (induction us slugs keys rule: validateUsers.induct) (auto simp: Let_def complete_user_def blank_def)

lemma validateBuckets_Inr:
  "validateBuckets bs owners names = Inr R \<longleftrightarrow>
     (\<forall>b \<in> set bs. \<not> blank (bs_Name b) \<and> \<not> blank (bs_Owner b) \<and> trimSpace (bs_Owner b) \<in> owners)
     \<and> fresh (map nameOf bs) names \<and> R = names \<union> set (map nameOf bs)"
  by (induction bs owners names rule: validateBuckets.induct) (auto simp: Let_def blank_def)

definition specBuckets :: "LocationSpec list \<Rightarrow> BucketSpec list" where
  "specBuckets ls = concat (map lp_Buckets ls)"

lemma validateLocations_Inr:
  "validateLocations ls owners slugs names = Inr () \<longleftrightarrow>
     (\<forall>l \<in> set ls. complete_location l) \<and> fresh (map (\<lambda>l. trimSpace (lp_Slug l)) ls) slugs
     \<and> (\<forall>b \<in> set (specBuckets ls). \<not> blank (bs_Name b) \<and> \<not> blank (bs_Owner b) \<and> trimSpace (bs_Owner b) \<in> owners)
     \<and> fresh (map nameOf (specBuckets ls)) names"
proof (induction ls owners slugs names rule: validateLocations.induct)
  case (2 l ls owners slugs names)
  show ?case
  proof (cases "complete_location l \<and> trimSpace (lp_Slug l) \<notin> slugs")
    case True
    then have v: "validateLocations (l # ls) owners slugs names = (case validateBuckets (lp_Buckets l) owners names of
        Inl e \<Rightarrow> Inl e | Inr names' \<Rightarrow> validateLocations ls owners (insert (trimSpace (lp_Slug l)) slugs) names')"
      by (simp add: complete_location_def blank_def Let_def)
    show ?thesis
    proof (cases "validateBuckets (lp_Buckets l) owners names")
      case (Inl e)
      with validateBuckets_Inr [of "lp_Buckets l" owners names "names \<union> set (map nameOf (lp_Buckets l))"]
      have "\<not> ((\<forall>b \<in> set (lp_Buckets l). \<not> blank (bs_Name b) \<and> \<not> blank (bs_Owner b) \<and> trimSpace (bs_Owner b) \<in> owners)
          \<and> fresh (map nameOf (lp_Buckets l)) names)" by simp
      then show ?thesis unfolding v Inl by (auto simp: specBuckets_def fresh_append)
    next
      case (Inr R)
      from Inr [unfolded validateBuckets_Inr] "2.IH" [OF refl _ _ _ _ _ _ Inr] True show ?thesis
        unfolding v Inr by (auto simp: specBuckets_def fresh_append complete_location_def blank_def)
    qed
  qed (auto simp: complete_location_def blank_def Let_def)
qed (simp add: specBuckets_def)

section \<open>Applying\<close>

text \<open>The users and buckets of \<open>d\<close> are still those of \<open>d'\<close>; a sync may have moved a bucket to another location identifier.\<close>

definition settled :: "structureDB \<Rightarrow> structureDB \<Rightarrow> bool" where
  "settled d d' \<longleftrightarrow> structure_wf d' \<and> (\<forall>k v. GetUser d k = Inr v \<longrightarrow> GetUser d' k = Inr v)
     \<and> (\<forall>k b. GetBucket d k = Inr b \<longrightarrow> (\<exists>l. GetBucket d' k = Inr (b\<lparr>bkt_WebDAVLocationID := l\<rparr>)))"

lemma settled_refl: "structure_wf d \<Longrightarrow> settled d d"
  using same_location by (auto simp: settled_def)

lemma settled_trans: "settled d d' \<Longrightarrow> settled d' d'' \<Longrightarrow> settled d d''"
  unfolding settled_def by fastforce

lemma settled_local: "localWins s t \<Longrightarrow> settled (d_structure s) (d_structure t)"
  by (simp add: settled_def localWins_def)

abbreviation stays :: "structureDB \<Rightarrow> 'w daemon \<Rightarrow> bool" where
  "stays d \<equiv> \<lambda>s. settled d (d_structure s)"

lemma settled_AddUser: "settled d d1 \<Longrightarrow> AddUser d1 u = Inr d' \<Longrightarrow> settled d d'"
  using usrs.lookup_insert [of d1 u d'] usrs.insert_new [of d1 u d'] usrs.invar_insert [of d1 u d'] other_tables_AddUser [of d1 u d']
  by (fastforce simp: settled_def)

lemma settled_AddBucket:
  assumes "settled d d1" and "AddBucket d1 b = Inr d'"
  shows "settled d d'"
proof (rule settled_trans [OF assms(1)])
  have wf: "structure_wf d1" using assms(1) by (simp add: settled_def)
  have "GetBucket d' k = Inr v" if "GetBucket d1 k = Inr v" for k v
    using bkts.lookup_insert [OF wf assms(2), of k] bkts.insert_new [OF wf assms(2)] that by auto
  then show "settled d1 d'"
    using bkts.invar_insert [OF wf assms(2)] other_tables_AddBucket [OF assms(2)] same_location unfolding settled_def by metis
qed

lemma settled_locations:
  "settled d d1 \<Longrightarrow> AddLocation d1 l = Inr d' \<Longrightarrow> settled d d'" "settled d d1 \<Longrightarrow> DeleteLocation d1 i = Inr d' \<Longrightarrow> settled d d'"
  using other_tables_AddLocation [of d1 l d'] wf_AddLocation [of d1 l d'] wf_DeleteLocation [of d1 i d']
  by (auto simp: settled_def DeleteLocation_def GetUser_def GetBucket_def Let_def split: if_splits)

text \<open>Calls that keep the users and buckets.\<close>

lemma stays_same: "kept (stays d) m" if "\<And>e. kept (\<lambda>s. d_structure s = e) m"
  using that by (metis (mono_tags, lifting) kept_def)

lemma stays_change: "(\<And>d1 d'. settled d d1 \<Longrightarrow> f d1 = Inr d' \<Longrightarrow> settled d d') \<Longrightarrow> kept (stays d) (changeStructure S l f)"
  by (auto simp: kept_def changeStructure_def os_def thn_def bnd_def onWorld_def split: prod.split sum.split)

lemma stays_changes [keeps]:
  "kept (stays d) (changeStructure S l (\<lambda>d. AddUser d u))" "kept (stays d) (changeStructure S l (\<lambda>d. AddLocation d loc))"
  "kept (stays d) (changeStructure S l (\<lambda>d. DeleteLocation d i))"
  by (rule stays_change, rule settled_AddUser settled_locations; assumption)+

lemma stays_world [keeps]: "kept (stays d) (onWorld m)" "kept (stays d) (newUUID S)" "kept (stays d) (timeNow S)"
  "kept (stays d) (askStructure S l f)"
  by (rule stays_same, rule kept_structure_world kept_structure kept_structure_ask)+

lemma stays_sync [keeps]: "kept (stays d) (SyncFromWebDAV (E :: 'a engine) l)"
proof (rule keptI)
  fix s :: "'a daemon"
  assume "settled d (d_structure s)"
  moreover from this have "localWins s s" by (simp add: localWins_refl settled_def)
  ultimately show "settled d (d_structure (snd (SyncFromWebDAV E l s)))"
    using keptD [OF local_SyncFromWebDAV] settled_local settled_trans by blast
qed

lemma stays_flush: "flushQuiet fl \<Longrightarrow> kept (stays d) (runFlush fl)"
  by (auto simp: kept_def flushQuiet_def runFlush_def ret_def modify_def split: option.split)

lemma stays_CreateBucket:
  assumes "flushQuiet fl"
  shows "kept (stays d) (CreateBucket (S :: 'a svc) fl n ow l)"
proof (rule keptI)
  fix s :: "'a daemon"
  assume s: "settled d (d_structure s)"
  obtain r t where run: "CreateBucket S fl n ow l s = (r, t)" by fastforce
  have "settled d (d_structure t)"
  proof (cases r)
    case (Inl e)
    with hoareD_Inl [OF CreateBucket_fails refl] run have "d_structure t = d_structure s" by metis
    with s show ?thesis by simp
  next
    case (Inr u)
    with CreateBucket_Inr [of S fl n ow l s t] run obtain b v where "AddBucket (d_structure s) b = Inr (d_structure v)"
      and "runFlush fl v = (Inr (), t)" by auto
    with s runFlush_quiet [OF assms] show ?thesis by (metis settled_AddBucket)
  qed
  then show "settled d (d_structure (snd (CreateBucket S fl n ow l s)))" by (simp add: run)
qed

lemma same_FindRemote [keeps]: "kept (\<lambda>s. d_structure s = e) (FindRemoteLocationID E l)"
  unfolding FindRemoteLocationID_def clientForLocation_def onClient_def eos_def os_def askRemote_def
  by (intro keeps kept_structure_world kept_structure_ask)

lemma stays_steps [keeps]:
  "kept (stays d) (FindRemoteLocationID E l)" "kept (stays d) (encryptFor P w x)" "kept (stays d) (hashFor P w x)"
  unfolding encryptFor_def hashFor_def by (rule stays_same [OF same_FindRemote], (intro keeps)+)

lemma stays_addLocations [keeps]: "kept (stays d) (addLocations P specs ids)"
  by (induction specs arbitrary: ids) (auto intro!: keeps)

lemma stays_reconcile [keeps]: "kept (stays d) (reconcile P E slugs ids)"
proof (induction slugs arbitrary: ids)
  case (Cons slug slugs)
  have "kept (stays d) (adoptID P slug a b)" for a b unfolding adoptID_def by (intro keeps)
  then show ?case unfolding reconcile.simps by (intro keeps Cons.IH)
qed (simp add: keeps)

lemma stays_syncLocations [keeps]: "kept (stays d) (syncLocations E ids specs)"
  by (induction specs) (auto intro!: keeps)

lemma stays_addUsers [keeps]: "kept (stays d) (addUsers P specs ids)"
proof (induction specs arbitrary: ids)
  case (Cons spec specs)
  show ?case unfolding addUsers.simps by (intro keeps Cons.IH)
qed (simp add: keeps)

lemma stays_addBuckets: "flushQuiet (ac_flush P) \<Longrightarrow> kept (stays d) (addBuckets P us l bs)"
  by (induction bs) (auto intro!: keeps stays_CreateBucket)

lemma stays_addAllBuckets: "flushQuiet (ac_flush P) \<Longrightarrow> kept (stays d) (addAllBuckets P us ids ls)"
  by (induction ls) (auto intro!: keeps stays_addBuckets)

section \<open>What is there afterwards\<close>

text \<open>A user who stays under the identifier stays under the access key, since both are unique.\<close>

lemma selectOne_unique: "distinct (map c t) \<Longrightarrow> r \<in> set t \<Longrightarrow> selectOne (\<lambda>x. c x = c r) t = Some r"
  by (cases "selectOne (\<lambda>x. c x = c r) t") (auto simp: selectOne_None_iff dest!: selectOne_SomeD dest: inj_onD simp: distinct_map)

lemma user_rows:
  assumes "structure_wf d" and "r \<in> set (users d)"
  shows "GetUser d (usr_ID r) = Inr (scanUser r)" "GetUserByAccessKey d (usr_AccessKey r) = Inr (scanUser r)"
  using assms selectOne_unique [of usr_ID "users d" r] selectOne_unique [of usr_AccessKey "users d" r]
  by (simp_all add: structure_wf_def uniqueOn_def userKeys_def GetUser_def GetUserByAccessKey_def)

lemma settled_key:
  assumes "settled d d'" and "structure_wf d" and "GetUserByAccessKey d k = Inr v"
  shows "GetUserByAccessKey d' k = Inr v"
proof -
  from assms(3) obtain r where r: "r \<in> set (users d)" "usr_AccessKey r = k" "v = scanUser r"
    by (auto simp: GetUserByAccessKey_def split: option.splits dest: selectOne_SomeD)
  from user_rows(1) [OF assms(2) r(1)] assms(1) have "GetUser d' (usr_ID r) = Inr (scanUser r)" by (simp add: settled_def)
  then obtain r' where r': "r' \<in> set (users d')" "scanUser r' = scanUser r"
    by (auto simp: GetUser_def split: option.splits dest: selectOne_SomeD)
  from r'(2) have "usr_AccessKey r' = usr_AccessKey r" by (metis User.select_convs(2) User.surjective User.update_convs(9) scanUser_def)
  moreover have "structure_wf d'" using assms(1) by (simp add: settled_def)
  ultimately show ?thesis using user_rows(2) [of d' r'] r r' by simp
qed

lemma same_steps: "kept (\<lambda>s. d_structure s = e) (encryptFor P w x)" "kept (\<lambda>s. d_structure s = e) (hashFor P w x)"
  unfolding encryptFor_def hashFor_def by (intro keeps kept_structure_world)+

lemmas same_there = structureD [OF same_steps(1)] structureD [OF same_steps(2)] structureD [OF kept_structure(3)]
  structureD [OF kept_structure(2)] structureD [OF kept_attempt [OF kept_structure_ask]]

lemma addUsers_head:
  assumes "addUsers P (u # us) ids s = (Inr ids', t)" and "structure_wf (d_structure s)"
  obtains s1 ids1 v where "addUsers P us ids1 s1 = (Inr ids', t)" and "settled (d_structure s) (d_structure s1)"
    and "GetUserByAccessKey (d_structure s1) (us_AccessKey u) = Inr v"
proof -
  let ?ask = "attempt (askStructure (ac_svc P) ''structure.GetUserByAccessKey'' (\<lambda>d. GetUserByAccessKey d (us_AccessKey u)))"
  obtain r s0 where ask: "?ask s = (Inr r, s0)" using assms(1) by (auto elim!: bnd_InrE)
  have s0: "d_structure s0 = d_structure s" using ask by (rule same_there)
  show thesis
  proof (cases r)
    case (Inr v)
    with ask have "GetUserByAccessKey (d_structure s) (us_AccessKey u) = Inr v" by (auto dest: attempt_InrD askStructure_Inr)
    with assms ask Inr s0 settled_refl show thesis by (intro that [of "ids(us_Slug u \<mapsto> usr_ID v)" s0 v]) auto
  next
    case (Inl e)
    with assms(1) ask obtain h s1 wh s2 se s3 we s4 i s5 en s6 now s7 s8 where
      run: "hashFor P (''hash user secret key for '' @ us_Slug u) (us_SecretKey u) s0 = (Inr h, s1)"
        "hashFor P (''hash web password for '' @ us_Slug u) (us_WebPassword u) s1 = (Inr wh, s2)"
        "encryptFor P (''encrypt user secret key for '' @ us_Slug u) (us_SecretKey u) s2 = (Inr se, s3)"
        "encryptFor P (''encrypt web password for '' @ us_Slug u) (us_WebPassword u) s3 = (Inr we, s4)"
        "newUUID (ac_svc P) s4 = (Inr i, s5)" "s6 = s5" "timeNow (ac_svc P) s6 = (Inr now, s7)"
      and add: "changeStructure (ac_svc P) ''structure.AddUser'' (\<lambda>d. AddUser d
           \<lparr>usr_ID = i, usr_AccessKey = us_AccessKey u, usr_SecretKeyHash = h, usr_SecretKeyEnc = se, usr_WebPasswordHash = wh,
            usr_WebPasswordEnc = we, usr_DisplayName = us_DisplayName u, usr_Enabled = en, usr_CreatedAt = now\<rparr>) s7 = (Inr (), s8)"
      and rest: "addUsers P us (ids(us_Slug u \<mapsto> i)) s8 = (Inr ids', t)"
      by (auto elim!: bnd_InrE thn_InrE dest!: wrapE_InrD simp: fail_def ret_def split: option.splits)
    have "d_structure s7 = d_structure s" using run s0 by (simp add: same_there)
    with changeStructure_Inr [OF add] settled_AddUser [OF settled_refl [OF assms(2)]] AddUser_lookup rest
    show thesis by (intro that) (auto simp: userRow_def)
  qed
qed

lemma addUsers_there:
  assumes "addUsers P us ids s = (Inr ids', t)" and "structure_wf (d_structure s)" and "u \<in> set us"
  shows "\<exists>v. GetUserByAccessKey (d_structure t) (us_AccessKey u) = Inr v"
  using assms
proof (induction us arbitrary: ids s)
  case (Cons x us)
  from addUsers_head [OF Cons.prems(1,2)] obtain s1 ids1 v where rest: "addUsers P us ids1 s1 = (Inr ids', t)"
    and s1: "settled (d_structure s) (d_structure s1)" and v: "GetUserByAccessKey (d_structure s1) (us_AccessKey x) = Inr v" .
  have wf: "structure_wf (d_structure s1)" using s1 by (simp add: settled_def)
  have "settled (d_structure s1) (d_structure t)" by (rule keptD' [OF stays_addUsers settled_refl [OF wf] rest])
  from settled_key [OF this wf v] Cons.IH [OF rest wf] Cons.prems(3) show ?case by auto
qed simp

lemma settled_bucket: "settled d d' \<Longrightarrow> GetBucket d n = Inr v \<Longrightarrow> \<exists>v. GetBucket d' n = Inr v"
  unfolding settled_def by blast

lemma CreateBucket_there:
  assumes "CreateBucket S fl n ow l s = (Inr (), t)" and "flushQuiet fl" and "structure_wf (d_structure s)"
  shows "\<exists>v. GetBucket (d_structure t) n = Inr v"
proof -
  from CreateBucket_Inr [OF assms(1)] obtain b u where add: "AddBucket (d_structure s) b = Inr (d_structure u)" "bkt_Name b = n"
    and fl: "runFlush fl u = (Inr (), t)" by blast
  from bkts.lookup_insert [OF assms(3) add(1), of n] add(2) runFlush_quiet [OF assms(2) fl] show ?thesis by simp
qed

lemma addBuckets_there:
  assumes "addBuckets P us l bs s = (Inr (), t)" and "flushQuiet (ac_flush P)" and "structure_wf (d_structure s)" and "b \<in> set bs"
  shows "\<exists>v. GetBucket (d_structure t) (bs_Name b) = Inr v"
  using assms
proof (induction bs arbitrary: s)
  case (Cons x bs)
  let ?head = "\<lambda>r. case r of
      Inr (_ :: Bucket) \<Rightarrow> ret ()
    | Inl _ \<Rightarrow> wrapE (wrapAs (''create bucket '' @ bs_Name x)) (CreateBucket (ac_svc P) (ac_flush P) (bs_Name x) (idFor us (bs_Owner x)) l)"
  from Cons.prems(1) obtain r s0 s1 where
    ask: "attempt (askStructure (ac_svc P) ''structure.GetBucket'' (\<lambda>d. GetBucket d (bs_Name x))) s = (Inr r, s0)"
    and head: "?head r s0 = (Inr (), s1)" and rest: "addBuckets P us l bs s1 = (Inr (), t)"
    by (auto elim!: bnd_InrE thn_InrE)
  have s0: "d_structure s0 = d_structure s" using ask by (rule same_there)
  have "kept (stays d) (?head r)" for d by (cases r) (auto intro!: keeps stays_CreateBucket Cons.prems(2))
  from keptD' [OF this settled_refl head] Cons.prems(3) s0 have wf: "structure_wf (d_structure s1)" by (simp add: settled_def)
  have there: "\<exists>v. GetBucket (d_structure s1) (bs_Name x) = Inr v"
  proof (cases r)
    case (Inr v)
    with head ask s0 show ?thesis by (auto simp: ret_def dest!: attempt_InrD askStructure_Inr)
  next
    case (Inl e)
    with head Cons.prems(2,3) s0 show ?thesis by (auto dest!: wrapE_InrD CreateBucket_there)
  qed
  from keptD' [OF stays_addBuckets [OF Cons.prems(2)] settled_refl [OF wf] rest] there
  have "\<exists>v. GetBucket (d_structure t) (bs_Name x) = Inr v" using settled_bucket by blast
  with Cons.IH [OF rest Cons.prems(2) wf] Cons.prems(4) show ?case by auto
qed simp

lemma addAllBuckets_there:
  assumes "addAllBuckets P us ids ls s = (Inr (), t)" and "flushQuiet (ac_flush P)" and "structure_wf (d_structure s)"
    and "b \<in> set (specBuckets ls)"
  shows "\<exists>v. GetBucket (d_structure t) (bs_Name b) = Inr v"
  using assms
proof (induction ls arbitrary: s)
  case (Cons x ls)
  from Cons.prems(1) obtain s1 where head: "addBuckets P us (idFor ids (lp_Slug x)) (lp_Buckets x) s = (Inr (), s1)"
    and rest: "addAllBuckets P us ids ls s1 = (Inr (), t)" by (auto elim!: thn_InrE)
  have s1: "settled (d_structure s) (d_structure s1)" by (rule keptD' [OF stays_addBuckets [OF Cons.prems(2)] settled_refl [OF Cons.prems(3)] head])
  then have wf: "structure_wf (d_structure s1)" by (simp add: settled_def)
  have t: "settled (d_structure s1) (d_structure t)" by (rule keptD' [OF stays_addAllBuckets [OF Cons.prems(2)] settled_refl [OF wf] rest])
  from addBuckets_there [OF head Cons.prems(2,3)] settled_bucket [OF t] Cons.IH [OF rest Cons.prems(2) wf] Cons.prems(4)
  show ?case by (auto simp: specBuckets_def) blast
qed (simp add: specBuckets_def)

text \<open>The users and buckets of a document are in the database.\<close>

definition provisioned :: "Document \<Rightarrow> structureDB \<Rightarrow> bool" where
  "provisioned doc d \<longleftrightarrow> (\<forall>u \<in> set (doc_Users doc). \<exists>v. GetUserByAccessKey d (us_AccessKey u) = Inr v)
     \<and> (\<forall>b \<in> set (specBuckets (doc_Locations doc)). \<exists>v. GetBucket d (bs_Name b) = Inr v)"

lemma applyDocument_there:
  assumes "applyDocument P doc s = (Inr (), t)" and "flushQuiet (ac_flush P)" and "flushQuiet (ac_RefreshWebDAV P)"
    and "structure_wf (d_structure s)"
  shows "settled (d_structure s) (d_structure t) \<and> provisioned doc (d_structure t)"
proof -
  let ?sync = "\<lambda>ids. case ac_SyncEngine P of None \<Rightarrow> ret () | Some E \<Rightarrow> syncLocations E ids (doc_Locations doc)"
  let ?reconcile = "\<lambda>ids. case ac_SyncEngine P of None \<Rightarrow> ret ids | Some E \<Rightarrow> reconcile P E (ac_order P (map lp_Slug (doc_Locations doc))) ids"
  from assms(1) obtain ids s1 lids s2 s3 s4 uids s5 s6 now s7 where
    run: "addLocations P (doc_Locations doc) Map.empty s = (Inr ids, s1)" "?reconcile ids s1 = (Inr lids, s2)"
      "runFlush (ac_RefreshWebDAV P) s2 = (Inr (), s3)" "?sync lids s3 = (Inr (), s4)"
      "addUsers P (doc_Users doc) Map.empty s4 = (Inr uids, s5)" "addAllBuckets P uids lids (doc_Locations doc) s5 = (Inr (), s6)"
    and last: "timeNow (ac_svc P) s6 = (Inr now, s7)" "wrapE (wrapAs ''write marker'') (onWorld (ac_writeMarker P (markerOf P) now)) s7 = (Inr (), t)"
    unfolding applyDocument_def by (auto elim!: bnd_InrE thn_InrE)
  let ?d = "d_structure s"
  have r: "kept (stays d) (?reconcile ids)" "kept (stays d) (?sync lids)" for d by (intro keeps)+
  have s1: "settled ?d (d_structure s1)" by (rule keptD' [OF stays_addLocations settled_refl [OF assms(4)] run(1)])
  have s2: "settled ?d (d_structure s2)" by (rule keptD' [OF r(1) s1 run(2)])
  have s3: "settled ?d (d_structure s3)" by (rule keptD' [OF stays_flush [OF assms(3)] s2 run(3)])
  have s4: "settled ?d (d_structure s4)" by (rule keptD' [OF r(2) s3 run(4)])
  have s5: "settled ?d (d_structure s5)" by (rule keptD' [OF stays_addUsers s4 run(5)])
  have wf: "structure_wf (d_structure s4)" "structure_wf (d_structure s5)" using s4 s5 by (simp_all add: settled_def)
  have s6: "settled (d_structure s5) (d_structure s6)"
    by (rule keptD' [OF stays_addAllBuckets [OF assms(2)] settled_refl [OF wf(2)] run(6)])
  have t: "d_structure t = d_structure s6"
    using structureD [OF kept_structure(2) last(1)] structureD [OF kept_wrapE [OF kept_structure_world] last(2)] by simp
  have "\<exists>v. GetUserByAccessKey (d_structure t) (us_AccessKey u) = Inr v" if "u \<in> set (doc_Users doc)" for u
    using addUsers_there [OF run(5) wf(1) that] settled_key [OF s6 wf(2)] t by auto
  then show ?thesis
    using settled_trans [OF s5 s6] addAllBuckets_there [OF run(6) assms(2) wf(2)] t unfolding provisioned_def by simp
qed

lemma Normalize_same:
  "map us_AccessKey (doc_Users (Normalize d)) = map us_AccessKey (doc_Users d)"
  "specBuckets (doc_Locations (Normalize d)) = specBuckets (doc_Locations d)"
  by (simp_all add: Normalize_def specBuckets_def comp_def)

lemma provisioned_Normalize: "provisioned (Normalize d) e = provisioned d e"
proof -
  have "provisioned c e \<longleftrightarrow> (\<forall>k \<in> set (map us_AccessKey (doc_Users c)). \<exists>v. GetUserByAccessKey e k = Inr v)
     \<and> (\<forall>b \<in> set (specBuckets (doc_Locations c)). \<exists>v. GetBucket e (bs_Name b) = Inr v)" for c
    by (simp add: provisioned_def)
  from this [of "Normalize d"] this [of d] show ?thesis unfolding Normalize_same by (simp only:)
qed

section \<open>Properties\<close>

definition demoSpec :: Document where
  "demoSpec = \<lparr>doc_Users = [\<lparr>us_Slug = ''ann'', us_DisplayName = ''Ann'', us_AccessKey = ''NK'', us_SecretKey = ''s'',
       us_WebPassword = ''w'', us_Enabled = None\<rparr>],
     doc_Locations = [\<lparr>lp_Slug = ''home'', lp_DisplayName = ''Home'', lp_URL = ''http://x'', lp_Username = ''me'', lp_Password = ''p'',
       lp_QuotaGB = 1, lp_BaseDir = ''/b'', lp_Buckets = [\<lparr>bs_Name = ''first'', bs_Owner = ''ann''\<rparr>]\<rparr>]\<rparr>"

definition demoApply :: "demoWorld applyConfig" where
  "demoApply = \<lparr>ac_FilePath = ''f'', ac_EncryptionKey = demoKey, ac_svc = demoSvc, ac_flush = None, ac_RefreshWebDAV = None,
     ac_SyncEngine = None, ac_cipher = demoCipher, ac_bcryptGenerate = (\<lambda>p. ret (CHR ''#'' # p)), ac_readFile = (\<lambda>_. ret []),
     ac_yaml = (\<lambda>_. Inr demoSpec), ac_statMarker = (\<lambda>_. ret False), ac_writeMarker = (\<lambda>_ _. ret ()), ac_order = (\<lambda>xs. xs)\<rparr>"

text \<open>C39: validation decides what its messages say: a document passes exactly if no required field of a user or
  location is blank, the slugs and access keys of the users, the slugs of the locations and the names
  of all buckets are distinct once trimmed, and every bucket has a name and an owner among the users.\<close>

theorem Validate_iff:
  "Validate d = Inr () \<longleftrightarrow>
     (\<forall>u \<in> set (doc_Users d). complete_user u) \<and> (\<forall>l \<in> set (doc_Locations d). complete_location l)
     \<and> distinct (map slugOf (doc_Users d)) \<and> distinct (map keyOf (doc_Users d))
     \<and> distinct (map (\<lambda>l. trimSpace (lp_Slug l)) (doc_Locations d)) \<and> distinct (map nameOf (specBuckets (doc_Locations d)))
     \<and> (\<forall>b \<in> set (specBuckets (doc_Locations d)). \<not> blank (bs_Name b) \<and> trimSpace (bs_Owner b) \<in> slugOf ` set (doc_Users d))"
proof (cases "validateUsers (doc_Users d) {} {}")
  case (Inl e)
  with validateUsers_Inr [of "doc_Users d" "{}" "{}" "set (map slugOf (doc_Users d))"] show ?thesis
    by (auto simp: Validate_def)
next
  case (Inr R)
  from Inr [unfolded validateUsers_Inr] show ?thesis
    by (auto simp: Validate_def Inr validateLocations_Inr complete_user_def blank_def)
qed

theorem Validate_iff_witness: "Validate demoSpec = Inr ()"
  unfolding Validate_iff
  by (simp add: demoSpec_def complete_user_def complete_location_def blank_def specBuckets_def trimSpace_printable printable_def)

text \<open>What the operating system reports about the marker is not the sentinel of this package.\<close>

definition marker_os :: "'w applyConfig \<Rightarrow> bool" where
  "marker_os P \<longleftrightarrow> (\<forall>p w e w'. ac_statMarker P p w = (Inl e, w') \<longrightarrow> \<not> errIs ErrProvisioningSkipped e)"

lemma errIs_wrapAs: "errIs x (wrapAs what e) \<longleftrightarrow> errIs x e"
  by simp

text \<open>A start gets past the marker only if the marker could be examined.\<close>

lemma skipped_marker:
  assumes "marker_os P" and "ProvisioningAllowed P m s = (r, t)" and "case r of Inl e \<Rightarrow> errIs ErrProvisioningSkipped e | Inr _ \<Rightarrow> True"
  shows "onWorld (ac_statMarker P m) s = (Inr (\<exists>e. r = Inl e), t)"
proof -
  obtain x u where x: "onWorld (ac_statMarker P m) s = (x, u)" by fastforce
  show ?thesis
  proof (cases x)
    case (Inl e)
    with x obtain w' where "ac_statMarker P m (d_world s) = (Inl e, w')" by (auto simp: onWorld_def split: prod.splits)
    with assms(1) have "\<not> errIs ErrProvisioningSkipped e" unfolding marker_os_def by blast
    with assms(2,3) x Inl show ?thesis
      by (auto simp: ProvisioningAllowed_def bnd_def wrapE_def errIs_wrapAs split: if_splits)
  next
    case (Inr there)
    with assms(2) x show ?thesis
      by (auto simp: ProvisioningAllowed_def bnd_def wrapE_def fail_def ret_def split: if_splits)
  qed
qed

text \<open>C40: what a start with a provision file has done when it succeeds. The file could be read and is valid, and the
  marker of an earlier run could be examined. If the marker was there, nothing but the outside world is
  different, in particular no database; the start goes on, it does not fail. If it was not there, every user of
  the file resolves by access key and every bucket by name, and each user and bucket that was there before
  still is, whatever a sync brought in; it is no error that there were any.\<close>

theorem ApplyStartupProvisioning_provides:
  assumes "structure_wf (d_structure s)" and "flushQuiet (ac_flush P)" and "flushQuiet (ac_RefreshWebDAV P)" and "ac_FilePath P \<noteq> []"
    and "marker_os P" and "ApplyStartupProvisioning P s = (Inr (), t)"
  shows "\<exists>doc s1 there s2. ParseFile P s = (Inr doc, s1) \<and> Validate (Normalize doc) = Inr ()
     \<and> onWorld (ac_statMarker P (markerOf P)) s1 = (Inr there, s2)
     \<and> (if there then t = s\<lparr>d_world := d_world s2\<rparr>
        else settled (d_structure s) (d_structure t) \<and> provisioned doc (d_structure t))"
proof -
  from assms(4,6) obtain doc s1 r s2 where parse: "ParseFile P s = (Inr doc, s1)" and valid: "Validate (Normalize doc) = Inr ()"
    and allowed: "attempt (ProvisioningAllowed P (markerOf P)) s1 = (Inr r, s2)"
    and rest: "(case r of Inl e \<Rightarrow> if errIs ErrProvisioningSkipped e then ret () else fail e
        | Inr _ \<Rightarrow> applyDocument P (Normalize doc)) s2 = (Inr (), t)"
    unfolding ApplyStartupProvisioning_def Let_def
    by (auto simp: liftE_def fail_def elim!: bnd_InrE thn_InrE dest!: wrapE_InrD split: if_splits)
  have "case r of Inl e \<Rightarrow> errIs ErrProvisioningSkipped e | Inr _ \<Rightarrow> True"
    using rest by (auto simp: fail_def split: sum.splits if_splits)
  from skipped_marker [OF assms(5) attempt_InrD [OF allowed] this]
  have marker: "onWorld (ac_statMarker P (markerOf P)) s1 = (Inr (\<exists>e. r = Inl e), s2)" .
  have world: "s1 = s\<lparr>d_world := d_world s1\<rparr>" "s2 = s1\<lparr>d_world := d_world s2\<rparr>"
    using parse onWorld_InrD [OF marker]
    by (auto simp: ParseFile_def liftE_def onWorld_def elim!: bnd_InrE split: sum.splits prod.splits)
  then have s2: "s2 = s\<lparr>d_world := d_world s2\<rparr>" by (metis daemon.surjective daemon.update_convs(1))
  then have same: "d_structure s2 = d_structure s" by (metis daemon.select_convs(2) daemon.surjective daemon.update_convs(1))
  show ?thesis
  proof (cases r)
    case (Inl e)
    with rest have "t = s2" by (auto simp: ret_def fail_def split: if_splits)
    with marker Inl s2 parse valid show ?thesis by auto
  next
    case (Inr u)
    with rest have "applyDocument P (Normalize doc) s2 = (Inr (), t)" by simp
    from applyDocument_there [OF this assms(2,3)] assms(1) same have
      "settled (d_structure s) (d_structure t) \<and> provisioned doc (d_structure t)" by (auto simp: provisioned_Normalize)
    with marker Inr parse valid show ?thesis by auto
  qed
qed

lemma demo_encrypt: "EncryptPassword demoCipher demoEnv p demoKey
  = ret (base64Encode (replicate nonceSize (CHR ''r'') @ p @ replicate 32 (CHR ''k'')))"
proof -
  have "decodeKey demoKey = Inr (replicate 32 (CHR ''k''))" by (simp add: decodeKey_Inr demoKey_def base64_roundtrip)
  then show ?thesis by (simp add: EncryptPassword_def demoEnv_def demoCipher_def act_defs fun_eq_iff)
qed

lemma demo_encryptFor:
  "encryptFor demoApply w x s = (Inr (base64Encode (replicate nonceSize (CHR ''r'') @ x @ replicate 32 (CHR ''k''))), s)"
proof -
  have "svc_env demoSvc = demoEnv" by (simp add: demoSvc_def)
  then show ?thesis by (simp add: encryptFor_def demoApply_def demo_encrypt onWorld_def act_defs)
qed

lemma demo_steps:
  "hashFor demoApply w x s = (Inr (CHR ''#'' # x), s)" "ParseFile demoApply s = (Inr demoSpec, s)"
  "newUUID demoSvc s = (Inr (uuidText (replicate 16 (CHR ''r''))), s)" "timeNow demoSvc s = (Inr 5000000000, s)"
  "askStructure demoSvc l f s = (f (d_structure s), s)"
  "changeStructure demoSvc l g s = (case g (d_structure s) of Inl e \<Rightarrow> (Inl e, s) | Inr d \<Rightarrow> (Inr (), s\<lparr>d_structure := d\<rparr>))"
  "ac_svc demoApply = demoSvc" "ac_RefreshWebDAV demoApply = None" "ac_SyncEngine demoApply = None" "ac_FilePath demoApply = ''f''"
  by (simp_all add: hashFor_def ParseFile_def demoApply_def demoSvc_def newUUID_def timeNow_def askStructure_def
    changeStructure_def os_def onWorld_def demoEnv_def act_defs fun_eq_iff split: sum.split)

lemma demo_apply: "\<exists>t. ApplyStartupProvisioning demoApply demoState = (Inr (), t)"
proof -
  have v: "Validate (Normalize demoSpec) = Inr ()"
    by (simp add: Validate_def Normalize_def demoSpec_def blank_def trimSpace_printable printable_def Let_def)
  have allowed: "ProvisioningAllowed demoApply m s = (Inr (), s)" for m s
    by (simp add: ProvisioningAllowed_def demoApply_def onWorld_def act_defs)
  have writes: "onWorld (ac_writeMarker demoApply m n) s = (Inr (), s)" for m n s
    by (simp add: demoApply_def onWorld_def act_defs)
  have cache: "svc_cacheDir demoSvc = ''/cache''" by (simp add: demoSvc_def)
  have "ApplyStartupProvisioning demoApply demoState = applyDocument demoApply (Normalize demoSpec) demoState"
    by (simp add: ApplyStartupProvisioning_def demo_steps v allowed cache act_defs)
  also have "\<exists>t. applyDocument demoApply (Normalize demoSpec) demoState = (Inr (), t)"
    by (simp add: demo_steps demo_encryptFor applyDocument_def Let_def demoSpec_def Normalize_def
      runFlush_def AddLocation_def insertRow_def conflicts_def locationKeys_def locationRow_def demoState_def demoStructure_def AddUser_def
      userKeys_def userRow_def uuid_new GetUserByAccessKey_def GetBucket_def selectOne_def writes act_defs)
  finally show ?thesis .
qed

text \<open>A first start, and one that finds the marker although there are users and buckets.\<close>

definition demoAgain :: "demoWorld applyConfig" where
  "demoAgain = demoApply\<lparr>ac_statMarker := \<lambda>_. ret True\<rparr>"

lemma demo_again: "\<exists>t. ApplyStartupProvisioning demoAgain demoState = (Inr (), t)"
proof -
  have v: "Validate (Normalize demoSpec) = Inr ()"
    by (simp add: Validate_def Normalize_def demoSpec_def blank_def trimSpace_printable printable_def Let_def)
  have "ParseFile demoAgain s = (Inr demoSpec, s)" for s
    by (simp add: ParseFile_def demoAgain_def demoApply_def onWorld_def act_defs)
  then show ?thesis
    by (simp add: ApplyStartupProvisioning_def ProvisioningAllowed_def v demoAgain_def demoApply_def demoSvc_def onWorld_def act_defs)
qed

theorem ApplyStartupProvisioning_provides_witness:
  "\<exists>t t'. ApplyStartupProvisioning demoApply demoState = (Inr (), t) \<and> settled (d_structure demoState) (d_structure t)
     \<and> (\<exists>v. GetUserByAccessKey (d_structure t) ''NK'' = Inr v)
     \<and> ApplyStartupProvisioning demoAgain demoState = (Inr (), t') \<and> d_structure t' = d_structure demoState"
proof -
  from demo_apply obtain t where t: "ApplyStartupProvisioning demoApply demoState = (Inr (), t)" by blast
  from demo_again obtain t' where t': "ApplyStartupProvisioning demoAgain demoState = (Inr (), t')" by blast
  have fields: "flushQuiet (ac_flush P)" "flushQuiet (ac_RefreshWebDAV P)" "ac_FilePath P \<noteq> []" "marker_os P"
    if "P = demoApply \<or> P = demoAgain" for P
    using that by (auto simp: demoApply_def demoAgain_def marker_os_def ret_def)
  have marker: "onWorld (ac_statMarker demoApply m) s = (Inr False, s)" "onWorld (ac_statMarker demoAgain m) s = (Inr True, s)" for m s
    by (simp_all add: demoApply_def demoAgain_def onWorld_def act_defs)
  from ApplyStartupProvisioning_provides [OF demoState_wf fields t] marker
  have "settled (d_structure demoState) (d_structure t) \<and> provisioned demoSpec (d_structure t)"
    by (auto simp: demo_steps)
  moreover from ApplyStartupProvisioning_provides [OF demoState_wf fields t'] marker
  have "d_structure t' = d_structure demoState" by auto
  ultimately show ?thesis using t t' by (auto simp: provisioned_def demoSpec_def)
qed

end
