(* ===== verification/SessionFacts.thy ===== *)
theory SessionFacts
  imports Sessions ObjectFacts
begin

text \<open>
  The session store of \<open>internal/webui\<close> over whole histories of logins, logouts and requests, as
  \<open>sessionStore.create\<close>, \<open>delete\<close> and \<open>get\<close> run them.
\<close>

section \<open>Histories of the user interface\<close>

text \<open>
  What the interface does with its store, one operation after the other; between them anything may happen
  to the rest of the daemon, the clock included. The history is told from outside: the token and
  the expiry are those of the cookie the login answers with, a logout and a request are known by the
  cookie the browser sends, and a request by the time at which it is looked at.
\<close>

datatype 'w webOp =
    Login bool request string
  | Logout request
  | Ask request
  | Elsewhere "'w daemon \<Rightarrow> 'w daemon"

definition webStep :: "'w svc \<Rightarrow> 'w webOp \<Rightarrow> 'w site \<Rightarrow> string sessionEvent list \<times> 'w site" where
  "webStep S op s =
     (case op of
        Login tls r accessKey \<Rightarrow>
          (case webCreate S tls r accessKey s of
             (Inr (SetCookie name token secure expires), t) \<Rightarrow> ([LoggedIn token accessKey (expires - sessionTTL)], t)
           | (_, t) \<Rightarrow> ([], t))
      | Logout r \<Rightarrow> (case requestCookie r ''webui_session'' of None \<Rightarrow> [] | Some token \<Rightarrow> [LoggedOut token], snd (webDelete r s))
      | Ask r \<Rightarrow>
          (case (requestCookie r ''webui_session'', fst (timeNow S (st_daemon s))) of
             (Some token, Inr now) \<Rightarrow> [Asked token now] | _ \<Rightarrow> [], snd (webGet S r s))
      | Elsewhere f \<Rightarrow> ([], s\<lparr>st_daemon := f (st_daemon s)\<rparr>))"

fun webRun :: "'w svc \<Rightarrow> 'w webOp list \<Rightarrow> 'w site \<Rightarrow> string sessionEvent list \<times> 'w site" where
  "webRun S [] s = ([], s)"
| "webRun S (op # ops) s =
     (case webStep S op s of (es, t) \<Rightarrow> case webRun S ops t of (fs, u) \<Rightarrow> (es @ fs, u))"

lemma webCreate_store:
  assumes "webCreate S tls r ak s = (x, t)"
  obtains (fail) e where "x = Inl e" and "st_web t = st_web s"
  | (ok) token now where "x = Inr (SetCookie ''webui_session'' token (secureCookie tls r) (now + sessionTTL))"
      and "st_web t = webAdd (st_web s) token ak now"
  using assms
  by (auto simp: webCreate_def bnd_def thn_def onDaemon_def modify_def ret_def webCookie_def split: prod.splits sum.splits)

lemma webDelete_store:
  "st_web (snd (webDelete r s))
    = (case requestCookie r ''webui_session'' of None \<Rightarrow> st_web s | Some token \<Rightarrow> (st_web s)(token := None))"
  by (simp add: webDelete_def webCookie_def thn_def bnd_def modify_def ret_def split: option.split)

lemma webGet_cases:
  "webGet S r s = (case requestCookie r ''webui_session'' of None \<Rightarrow> (Inr None, s)
     | Some token \<Rightarrow> (case st_web s token of None \<Rightarrow> (Inr None, s)
     | Some _ \<Rightarrow> (case timeNow S (st_daemon s) of (Inl e, d) \<Rightarrow> (Inl e, s\<lparr>st_daemon := d\<rparr>)
        | (Inr now, d) \<Rightarrow> (Inr (fst (webCheck (st_web s) token now)),
             s\<lparr>st_daemon := d, st_web := snd (webCheck (st_web s) token now)\<rparr>))))"
  by (simp add: webGet_def webCookie_def bnd_def gets_def ret_def onDaemon_def split: option.split prod.split sum.split)

lemma webStep_store:
  assumes "webStep S op s = (es, t)"
  shows "st_web t = foldl webStore.happen (st_web s) es"
proof (cases op)
  case (Login tls r ak)
  obtain x u where c: "webCreate S tls r ak s = (x, u)" by fastforce
  then show ?thesis by (cases rule: webCreate_store) (use assms Login c in \<open>auto simp: webStep_def\<close>)
next
  case (Logout r)
  with assms show ?thesis by (auto simp: webStep_def webDelete_store split: option.splits)
next
  case (Ask r)
  with assms show ?thesis
    by (auto simp: webStep_def webGet_cases webCheck_def split: option.splits sum.splits prod.splits if_splits)
next
  case (Elsewhere f)
  with assms show ?thesis by (auto simp: webStep_def)
qed

lemma webRun_store: "webRun S ops s = (h, t) \<Longrightarrow> st_web t = foldl webStore.happen (st_web s) h"
  by (induction ops arbitrary: s h) (auto simp: webStep_store split: prod.splits)

section \<open>Property\<close>

text \<open>C28: the session store of the user interface refines the specification of a session. Let any sequence
  of logins, logouts and requests run from an empty store, with anything else happening in between. A
  request is then admitted exactly when the cookie \<open>webui_session\<close> it carries has a token that was given
  out in the cookie of a login at most a day ago and that no request has logged out since, and the
  answer is the access key of that login. It makes no difference that the store forgets tokens it finds
  expired, provided the clock has not gone back.\<close>

theorem web_session_history:
  assumes "webRun S ops s = (h, t)" and "st_web s = Map.empty" and "timeNow S (st_daemon t) = (Inr now, d)"
    and "\<forall>token n. Asked token n \<in> set h \<longrightarrow> n \<le> now"
  shows "fst (webGet S r t)
    = Inr (case requestCookie r ''webui_session'' of None \<Rightarrow> None | Some token \<Rightarrow> openSession h token now)"
proof -
  have store: "st_web t = foldl webStore.happen Map.empty h" using webRun_store [OF assms(1)] assms(2) by simp
  have look: "openSession h token now = fst (webCheck (st_web t) token now)" for token
    unfolding store using webStore.check_history [OF assms(4)] by simp
  show ?thesis by (simp add: look webGet_cases assms(3) webCheck_def split: option.split)
qed

text \<open>A login and a request with the cookie it gave; a login and a logout.\<close>

definition demoToken :: string where
  "demoToken = ''7272727272727272727272727272727272727272727272727272727272727272''"

definition demoWithCookie :: request where
  "demoWithCookie = \<lparr>rq_Method = ''GET'', rq_Host = ''h'', rq_URLHost = [], rq_Path = ''/'', rq_EscapedPath = ''/'', rq_Query = [],
     rq_Header = [(''Cookie'', [''theme=dark; webui_session='' @ demoToken])], rq_Body = ([], None), rq_ContentLength = 0\<rparr>"

definition demoFresh :: "demoWorld site" where
  "demoFresh = \<lparr>st_daemon = demoState, st_admin = Map.empty, st_web = Map.empty\<rparr>"

lemma demo_hex: "hexEncode (replicate 32 (CHR ''r'')) = demoToken"
proof -
  have "hexEncode (replicate 32 (CHR ''r'')) = concat (replicate 32 ''72'')"
    by (simp add: hexEncode_def digitChar_def char_of_def bit_Suc_0_iff)
  also have "\<dots> = demoToken" by code_simp
  finally show ?thesis .
qed

lemma demo_cookie: "requestCookie demoWithCookie ''webui_session'' = Some demoToken"
  by code_simp

lemma demo_now: "timeNow demoSvc d = (Inr 5000000000, d)"
  by (simp add: timeNow_def onWorld_def demoSvc_def demoEnv_def act_defs)

lemma demo_token: "newToken demoSvc d = (Inr demoToken, d)"
  by (simp add: newToken_def onWorld_def demoSvc_def demoEnv_def act_defs demo_hex)

theorem web_session_history_witness:
  "\<exists>h t h' t'. webRun demoSvc [Login False demoWithCookie ''AK'', Ask demoWithCookie] demoFresh = (h, t)
     \<and> fst (webGet demoSvc demoWithCookie t) = Inr (Some ''AK'')
     \<and> webRun demoSvc [Login False demoWithCookie ''AK'', Logout demoWithCookie] demoFresh = (h', t')
     \<and> fst (webGet demoSvc demoWithCookie t') = Inr None"
proof -
  let ?in = "Login False demoWithCookie ''AK''"
  obtain h t where r: "webRun demoSvc [?in, Ask demoWithCookie] demoFresh = (h, t)" by fastforce
  obtain h' t' where r': "webRun demoSvc [?in, Logout demoWithCookie] demoFresh = (h', t')" by fastforce
  note run = webStep_def webCreate_def onDaemon_def demo_token demo_now act_defs demo_cookie
  have h: "h = [LoggedIn demoToken ''AK'' 5000000000, Asked demoToken 5000000000]"
    and h': "h' = [LoggedIn demoToken ''AK'' 5000000000, LoggedOut demoToken]"
    using r r' by (auto simp: run split: prod.splits)
  have e: "st_web demoFresh = Map.empty" by (simp add: demoFresh_def)
  have "fst (webGet demoSvc demoWithCookie t) = Inr (openSession h demoToken 5000000000)"
    using web_session_history [OF r e demo_now, of demoWithCookie] h by (simp add: demo_cookie)
  moreover have "fst (webGet demoSvc demoWithCookie t') = Inr (openSession h' demoToken 5000000000)"
    using web_session_history [OF r' e demo_now, of demoWithCookie] h' by (simp add: demo_cookie)
  ultimately show ?thesis using r r' by (auto simp: h h' openSession_def sessionTTL_def)
qed

end
