(* ===== verification/LRUCallers.thy ===== *)
theory LRUCallers
  imports LRU
begin

text \<open>
  \<open>internal/meta/lru.go\<close> with its callers: who holds the read lock of which database, and who is inside
  which call. A caller is a number. It can release a database only while it is not itself waiting in a
  call. Steps that begin a call are apart from those that carry on what has begun, so that one can ask
  whether the latter always come to an end.
\<close>

section \<open>Callers\<close>

text \<open>
  \<open>ca_held\<close> has a pair for every release function that was handed out and not called yet; \<open>ca_waits\<close> is
  the list of waiting calls of the cache, each with its caller.
\<close>

record callers =
  ca_cache :: lruState
  ca_held :: "(nat \<times> nat) multiset"
  ca_waits :: "(nat \<times> pending) list"

definition noCallers :: callers where
  "noCallers = \<lparr>ca_cache = NewLRUCache, ca_held = {#}, ca_waits = []\<rparr>"

definition busy :: "callers \<Rightarrow> nat \<Rightarrow> bool" where
  "busy c t \<longleftrightarrow> t \<in> fst ` set (ca_waits c)"

text \<open>A caller that is not inside a call begins one: a hit, a miss with room, a miss that evicts,
  \<open>Remove\<close>, and \<open>CloseAll\<close>, which waits for one database after the other.\<close>

inductive startStep :: "int \<Rightarrow> callers \<Rightarrow> callers \<Rightarrow> bool" for cap :: int where
  start_hit: "\<not> busy c t \<Longrightarrow> lru_items (ca_cache c) ident = Some e \<Longrightarrow>
    startStep cap c (c\<lparr>ca_cache := lruHit (ca_cache c) e, ca_held := add_mset (t, e) (ca_held c)\<rparr>)"
| start_room: "\<not> busy c t \<Longrightarrow> lru_items (ca_cache c) ident = None \<Longrightarrow>
    int (length (lru_order (ca_cache c))) < cap \<or> lru_order (ca_cache c) = [] \<Longrightarrow> e = lru_next (ca_cache c) \<Longrightarrow>
    startStep cap c (c\<lparr>ca_cache := lruInsert (lruNew (ca_cache c) ident) e, ca_held := add_mset (t, e) (ca_held c)\<rparr>)"
| start_full: "\<not> busy c t \<Longrightarrow> lru_items (ca_cache c) ident = None \<Longrightarrow>
    int (length (lru_order (ca_cache c))) \<ge> cap \<Longrightarrow> lru_order (ca_cache c) \<noteq> [] \<Longrightarrow>
    v = last (lru_order (ca_cache c)) \<Longrightarrow> e = lru_next (ca_cache c) \<Longrightarrow>
    startStep cap c (c\<lparr>ca_cache := lruEvict (lruNew (ca_cache c) ident) v e, ca_waits := (t, WaitEvict v e) # ca_waits c\<rparr>)"
| start_remove: "\<not> busy c t \<Longrightarrow> lru_items (ca_cache c) ident = Some e \<Longrightarrow>
    startStep cap c (c\<lparr>ca_cache := (lruUnlink (ca_cache c) e)\<lparr>lru_pending := WaitClose e # lru_pending (ca_cache c)\<rparr>,
      ca_waits := (t, WaitClose e) # ca_waits c\<rparr>)"
| start_close_all: "\<not> busy c t \<Longrightarrow> distinct es \<Longrightarrow> set es = ran (lru_items (ca_cache c)) \<Longrightarrow>
    startStep cap c (c\<lparr>ca_cache := (ca_cache c)\<lparr>lru_items := Map.empty, lru_order := [],
        lru_pending := map WaitClose es @ lru_pending (ca_cache c)\<rparr>,
      ca_waits := map (\<lambda>e. (t, WaitClose e)) es @ ca_waits c\<rparr>)"

definition waitingAs :: "callers \<Rightarrow> (nat \<times> pending) list \<Rightarrow> callers" where
  "waitingAs c ws = c\<lparr>ca_cache := (ca_cache c)\<lparr>lru_pending := map snd ws\<rparr>, ca_waits := ws\<rparr>"

text \<open>What has begun goes on: an eviction gets the write lock of its victim and closes it; \<open>Get\<close> inserts
  its new database and returns it; \<open>Remove\<close> or \<open>CloseAll\<close> closes a database; a caller that is not
  inside a call releases a database.\<close>

inductive finishStep :: "callers \<Rightarrow> callers \<Rightarrow> bool" where
  finish_evict: "ca_waits c = xs @ (t, WaitEvict v e) # ys \<Longrightarrow> lru_readers (ca_cache c) v = 0 \<Longrightarrow>
    d = waitingAs c (xs @ (t, WaitInsert e) # ys) \<Longrightarrow> finishStep c (d\<lparr>ca_cache := lruClose (ca_cache d) v\<rparr>)"
| finish_insert: "ca_waits c = xs @ (t, WaitInsert e) # ys \<Longrightarrow> d = waitingAs c (xs @ ys) \<Longrightarrow>
    finishStep c (d\<lparr>ca_cache := lruInsert (ca_cache d) e, ca_held := add_mset (t, e) (ca_held c)\<rparr>)"
| finish_close: "ca_waits c = xs @ (t, WaitClose e) # ys \<Longrightarrow> lru_readers (ca_cache c) e = 0 \<Longrightarrow>
    d = waitingAs c (xs @ ys) \<Longrightarrow> finishStep c (d\<lparr>ca_cache := lruClose (ca_cache d) e\<rparr>)"
| finish_release: "\<not> busy c t \<Longrightarrow> (t, e) \<in># ca_held c \<Longrightarrow>
    finishStep c (c\<lparr>ca_cache := (ca_cache c)\<lparr>lru_readers := (lru_readers (ca_cache c))(e := lru_readers (ca_cache c) e - 1)\<rparr>,
      ca_held := ca_held c - {#(t, e)#}\<rparr>)"

definition callerStep :: "int \<Rightarrow> callers \<Rightarrow> callers \<Rightarrow> bool" where
  "callerStep cap c d \<longleftrightarrow> startStep cap c d \<or> finishStep c d"

inductive_cases startStepE: "startStep cap c d"
inductive_cases finishStepE: "finishStep c d"

section \<open>Invariant\<close>

text \<open>The readers of a database are the release functions that are out; only \<open>CloseAll\<close> makes one caller
  wait for several databases.\<close>

fun closing :: "pending \<Rightarrow> bool" where
  "closing (WaitClose e) \<longleftrightarrow> True"
| "closing p \<longleftrightarrow> False"

definition alone :: "nat \<times> pending \<Rightarrow> nat \<times> pending \<Rightarrow> bool" where
  "alone x y \<longleftrightarrow> (fst x = fst y \<longrightarrow> closing (snd x) \<and> closing (snd y))"

definition readersOf :: "(nat \<times> nat) multiset \<Rightarrow> nat \<Rightarrow> nat" where
  "readersOf h e = size (filter_mset (\<lambda>x. snd x = e) h)"

definition callers_inv :: "callers \<Rightarrow> bool" where
  "callers_inv c \<longleftrightarrow> lru_pending (ca_cache c) = map snd (ca_waits c) \<and> lru_readers (ca_cache c) = readersOf (ca_held c)
     \<and> sorted_wrt alone (ca_waits c)"

lemma readersOf_simps [simp]:
  "readersOf {#} = (\<lambda>_. 0)" "readersOf (add_mset (t, e) h) = (readersOf h)(e := Suc (readersOf h e))"
  by (auto simp: readersOf_def fun_eq_iff)

lemma readersOf_release: "(t, e) \<in># h \<Longrightarrow> readersOf h e = Suc (readersOf (h - {#(t, e)#}) e)
    \<and> readersOf (h - {#(t, e)#}) = (readersOf h)(e := readersOf h e - 1)"
  by (drule insert_DiffM) (metis readersOf_simps(2) fun_upd_same fun_upd_triv fun_upd_upd diff_Suc_1)

lemma readersOf_held: "(t, e) \<in># h \<Longrightarrow> readersOf h e \<noteq> 0"
  using readersOf_release by (metis Suc_neq_Zero)

lemma busyI: "(t, p) \<in> set (ca_waits c) \<Longrightarrow> busy c t"
  by (force simp: busy_def)

lemma alone_closes: "sorted_wrt alone (map (\<lambda>e. (t, WaitClose e)) es)"
  by (induction es) (auto simp: alone_def)

lemma alone_evict: "alone (t, WaitEvict v e) x \<longleftrightarrow> fst x \<noteq> t" "alone (t, WaitInsert e) x \<longleftrightarrow> fst x \<noteq> t"
  "alone x (t, WaitEvict v e) \<longleftrightarrow> fst x \<noteq> t" "alone x (t, WaitInsert e) \<longleftrightarrow> fst x \<noteq> t"
  by (auto simp: alone_def)

lemmas cache_defs = lruHit_def lruAcquire_def lruInsert_def lruNew_def lruEvict_def lruUnlink_def lruClose_def waitingAs_def

lemma startStep_inv: "startStep cap c d \<Longrightarrow> callers_inv c \<Longrightarrow> callers_inv d"
proof (induction rule: startStep.induct)
  case (start_remove c t ident e)
  then have "alone (t, WaitClose e) x" if "x \<in> set (ca_waits c)" for x
    using that busyI by (cases x) (auto simp: alone_def)
  with start_remove show ?case by (simp add: callers_inv_def cache_defs)
next
  case (start_close_all c t es)
  then have "alone (t, WaitClose e) x" if "x \<in> set (ca_waits c)" for x e
    using that busyI by (cases x) (auto simp: alone_def)
  with start_close_all show ?case by (auto simp: callers_inv_def sorted_wrt_append alone_closes comp_def)
qed (auto simp: callers_inv_def cache_defs alone_evict dest: busyI)

lemma finishStep_inv: "finishStep c d \<Longrightarrow> callers_inv c \<Longrightarrow> callers_inv d"
proof (induction rule: finishStep.induct)
  case (finish_evict c xs t v e ys d)
  then show ?case by (simp add: callers_inv_def cache_defs sorted_wrt_append alone_evict)
next
  case (finish_insert c xs t e ys d)
  then show ?case by (simp add: callers_inv_def cache_defs sorted_wrt_append)
next
  case (finish_close c xs t e ys d)
  then show ?case by (simp add: callers_inv_def cache_defs sorted_wrt_append)
next
  case (finish_release c t e)
  then show ?case by (simp add: callers_inv_def readersOf_release [THEN conjunct2])
qed

interpretation caller_steps: step_system "callerStep cap" callers_inv for cap
  by unfold_locales (auto simp: callerStep_def intro: startStep_inv finishStep_inv)

lemma callers_inv_reach: "(callerStep cap)\<^sup>*\<^sup>* noCallers c \<Longrightarrow> callers_inv c"
  by (erule caller_steps.reach_inv) (simp add: callers_inv_def noCallers_def NewLRUCache_def)

section \<open>The steps are those of the cache\<close>

text \<open>Forgetting the callers gives a run of the cache, so what holds of the cache holds here.\<close>

lemma startStep_cache: "startStep cap c d \<Longrightarrow> lruStep cap (ca_cache c) (ca_cache d)"
  by (induction rule: startStep.induct) (auto intro: lruStep.intros)

lemma finishStep_cache:
  assumes "finishStep c d" and "callers_inv c"
  shows "lruStep cap (ca_cache c) (ca_cache d)"
  using assms
proof (induction rule: finishStep.induct)
  case (finish_evict c xs t v e ys d)
  then show ?case
    using evict_close [of "ca_cache c" "map snd xs" v e "map snd ys"] by (simp add: callers_inv_def waitingAs_def)
next
  case (finish_insert c xs t e ys d)
  then show ?case
    using evict_insert [of "ca_cache c" "map snd xs" e "map snd ys"] by (simp add: callers_inv_def waitingAs_def)
next
  case (finish_close c xs t e ys d)
  then show ?case
    using tail_close [of "ca_cache c" "map snd xs" e "map snd ys"] by (simp add: callers_inv_def waitingAs_def)
next
  case (finish_release c t e)
  then have "lru_readers (ca_cache c) e = Suc (lru_readers (ca_cache c) e - 1)"
    using readersOf_held [OF finish_release(2)] by (simp add: callers_inv_def)
  from release [OF this] show ?case by simp
qed

section \<open>Calls come to an end\<close>

text \<open>No caller waits in a call while it holds a database.\<close>

definition emptyHanded :: "callers \<Rightarrow> bool" where
  "emptyHanded c \<longleftrightarrow> (\<forall>t e. busy c t \<longrightarrow> (t, e) \<notin># ca_held c)"

fun stages :: "pending \<Rightarrow> nat" where
  "stages (WaitEvict v e) = 4"
| "stages (WaitInsert e) = 2"
| "stages (WaitClose e) = 1"

definition effort :: "callers \<Rightarrow> nat" where
  "effort c = sum_list (map (stages \<circ> snd) (ca_waits c)) + size (ca_held c)"

lemma finishStep_effort: "finishStep c d \<Longrightarrow> effort d < effort c"
  by (induction rule: finishStep.induct) (auto simp: effort_def waitingAs_def size_Diff_singleton dest: size_Suc_Diff1)

lemma finishStep_emptyHanded: "finishStep c d \<Longrightarrow> callers_inv c \<Longrightarrow> emptyHanded c \<Longrightarrow> emptyHanded d"
proof (induction rule: finishStep.induct)
  case (finish_insert c xs t e ys d)
  have "sorted_wrt alone (xs @ (t, WaitInsert e) # ys)" using finish_insert by (simp add: callers_inv_def)
  then have "t \<notin> fst ` set (xs @ ys)" by (auto simp: sorted_wrt_append alone_evict)
  with finish_insert show ?case by (auto simp: emptyHanded_def busy_def waitingAs_def)
qed (auto simp: emptyHanded_def busy_def waitingAs_def dest: in_diffD)

lemma finishStep_enabled:
  assumes "callers_inv c" and "emptyHanded c" and "ca_held c \<noteq> {#} \<or> ca_waits c \<noteq> []"
  shows "\<exists>d. finishStep c d"
proof (cases "ca_held c = {#}")
  case False
  then obtain t e where h: "(t, e) \<in># ca_held c" by (metis multiset_nonemptyE surj_pair)
  with assms(2) have "\<not> busy c t" by (auto simp: emptyHanded_def)
  from finish_release [OF this h] show ?thesis by blast
next
  case True
  with assms obtain t p ws where w: "ca_waits c = [] @ (t, p) # ws" by (cases "ca_waits c") auto
  have "lru_readers (ca_cache c) v = 0" for v using True assms(1) by (simp add: callers_inv_def)
  with w show ?thesis by (cases p) (metis finish_evict finish_insert finish_close)+
qed

fun victims :: "pending \<Rightarrow> nat set" where
  "victims (WaitEvict v e) = {v}"
| "victims (WaitInsert e) = {}"
| "victims (WaitClose e) = {e}"

definition doomed :: "callers \<Rightarrow> nat set" where
  "doomed c = (\<Union>x \<in> set (ca_waits c). victims (snd x))"

lemma finishStep_doomed:
  "finishStep c d \<Longrightarrow> doomed c \<union> Collect (lru_closed (ca_cache c)) \<subseteq> doomed d \<union> Collect (lru_closed (ca_cache d))"
  by (induction rule: finishStep.induct) (auto simp: doomed_def cache_defs)

lemma finishSteps:
  assumes "finishStep\<^sup>*\<^sup>* c d" and "callers_inv c" and "emptyHanded c"
  shows "callers_inv d \<and> emptyHanded d \<and> doomed c \<subseteq> doomed d \<union> Collect (lru_closed (ca_cache d))"
  using assms(1)
proof (induction rule: rtranclp_induct)
  case base
  with assms show ?case by blast
next
  case (step x y)
  with finishStep_inv finishStep_emptyHanded finishStep_doomed show ?case by blast
qed

section \<open>Properties\<close>

lemma finishStep_terminates: "\<not> (\<exists>f. f 0 = c \<and> (\<forall>n. finishStep (f n) (f (Suc n))))"
proof
  assume "\<exists>f. f 0 = c \<and> (\<forall>n. finishStep (f n) (f (Suc n)))"
  then obtain f where "\<And>n. finishStep (f n) (f (Suc n))" by blast
  then have "\<forall>n. (f (Suc n), f n) \<in> measure effort" using finishStep_effort by simp
  then show False using wf_iff_no_infinite_down_chain [of "measure effort"] by auto
qed

text \<open>C30: calls on the cache come to an end. Whatever interleaving of calls has led to a state in which no
  caller waits inside a call while it holds a database itself: if no further call begins, then however
  the callers are scheduled, after finitely many steps nothing more can happen, and then every call has
  returned, every database is released, and each one that was waiting to be evicted or removed is
  closed.\<close>

theorem calls_finish:
  assumes "(callerStep cap)\<^sup>*\<^sup>* noCallers c"
    and "\<forall>t p e. (t, p) \<in> set (ca_waits c) \<longrightarrow> (t, e) \<notin># ca_held c"
  shows "\<not> (\<exists>f. f 0 = c \<and> (\<forall>n. finishStep (f n) (f (Suc n))))
    \<and> (\<forall>d. finishStep\<^sup>*\<^sup>* c d \<and> \<not> (\<exists>d'. finishStep d d') \<longrightarrow> ca_waits d = [] \<and> ca_held d = {#}
      \<and> (\<forall>t v e. (t, WaitEvict v e) \<in> set (ca_waits c) \<or> (t, WaitClose v) \<in> set (ca_waits c) \<longrightarrow> lru_closed (ca_cache d) v))"
proof -
  have "callers_inv c" using assms(1) by (rule callers_inv_reach)
  moreover have "emptyHanded c" using assms(2) by (auto simp: emptyHanded_def busy_def)
  ultimately have run: "callers_inv d \<and> emptyHanded d \<and> doomed c \<subseteq> doomed d \<union> Collect (lru_closed (ca_cache d))" if "finishStep\<^sup>*\<^sup>* c d" for d
    using finishSteps [OF that] by blast
  have last: "ca_waits d = [] \<and> ca_held d = {#}" if "finishStep\<^sup>*\<^sup>* c d" "\<not> (\<exists>d'. finishStep d d')" for d
    using run [OF that(1)] finishStep_enabled that(2) by blast
  have "lru_closed (ca_cache d) v"
    if d: "finishStep\<^sup>*\<^sup>* c d" "\<not> (\<exists>d'. finishStep d d')" and v: "(t, WaitEvict v e) \<in> set (ca_waits c) \<or> (t, WaitClose v) \<in> set (ca_waits c)" for d t v e
  proof -
    have "v \<in> doomed c" using v by (force simp: doomed_def)
    moreover have "doomed d = {}" using last [OF d] by (simp add: doomed_def)
    ultimately show ?thesis using run [OF d(1)] by blast
  qed
  with last finishStep_terminates show ?thesis by blast
qed

text \<open>Caller 0 reads the bucket \<open>a\<close>; the next call wants the only place in the cache for \<open>b\<close>.\<close>

definition readsA :: callers where
  "readsA = noCallers\<lparr>ca_cache := lruInsert (lruNew NewLRUCache ''a'') 0, ca_held := {#(0, 0)#}\<rparr>"

definition wantsB :: "nat \<Rightarrow> callers" where
  "wantsB t = readsA\<lparr>ca_cache := lruEvict (lruNew (ca_cache readsA) ''b'') 0 1, ca_waits := [(t, WaitEvict 0 1)]\<rparr>"

lemma wantsB_reached: "(callerStep 1)\<^sup>*\<^sup>* noCallers (wantsB t)"
proof -
  note defs = noCallers_def readsA_def wantsB_def busy_def cache_defs NewLRUCache_def
  have 1: "callerStep 1 noCallers readsA"
    using start_room [of noCallers 0 "''a''" 1 0] by (simp add: callerStep_def defs)
  have 2: "callerStep 1 readsA (wantsB t)"
    using start_full [of readsA t "''b''" 1 0 1] by (simp add: callerStep_def defs)
  from 1 2 show ?thesis by (meson rtranclp.rtrancl_into_rtrancl rtranclp.rtrancl_refl)
qed

lemma wantsB_fields: "ca_held (wantsB t) = {#(0, 0)#}" "ca_waits (wantsB t) = [(t, WaitEvict 0 1)]"
  by (simp_all add: wantsB_def readsA_def)

lemma finishSteps_end: "\<exists>d. finishStep\<^sup>*\<^sup>* c d \<and> \<not> (\<exists>d'. finishStep d d')"
proof (induction "effort c" arbitrary: c rule: less_induct)
  case less
  show ?case
  proof (cases "\<exists>d. finishStep c d")
    case True
    then obtain d where d: "finishStep c d" ..
    from less [OF finishStep_effort [OF d]] d show ?thesis by (meson converse_rtranclp_into_rtranclp)
  qed blast
qed

theorem calls_finish_witness:
  "\<exists>d. (1, WaitEvict 0 1) \<in> set (ca_waits (wantsB 1)) \<and> (0, 0) \<in># ca_held (wantsB 1) \<and> finishStep\<^sup>*\<^sup>* (wantsB 1) d
     \<and> ca_waits d = [] \<and> ca_held d = {#} \<and> lru_closed (ca_cache d) 0"
proof -
  have "\<forall>t p e. (t, p) \<in> set (ca_waits (wantsB 1)) \<longrightarrow> (t, e) \<notin># ca_held (wantsB 1)" by (simp add: wantsB_fields)
  note finish = calls_finish [OF wantsB_reached this]
  obtain d where d: "finishStep\<^sup>*\<^sup>* (wantsB 1) d" "\<not> (\<exists>d'. finishStep d d')" using finishSteps_end by blast
  from finish d have "ca_waits d = [] \<and> ca_held d = {#} \<and> lru_closed (ca_cache d) 0" by (fastforce simp: wantsB_fields)
  with d(1) show ?thesis by (intro exI [of _ d]) (simp add: wantsB_fields)
qed

section \<open>A caller that waits for itself\<close>

text \<open>A caller that waits for the readers of a database it reads itself waits for ever: whatever the others do.\<close>

theorem holder_waits_forever:
  assumes "(callerStep cap)\<^sup>*\<^sup>* noCallers c" and "(t, v) \<in># ca_held c" and "(t, WaitEvict v e) \<in> set (ca_waits c)"
    and "(callerStep cap)\<^sup>*\<^sup>* c d"
  shows "(t, v) \<in># ca_held d \<and> (t, WaitEvict v e) \<in> set (ca_waits d)"
proof -
  have stays: "(t, v) \<in># ca_held y \<and> (t, WaitEvict v e) \<in> set (ca_waits y)"
    if "callerStep cap x y" "callers_inv x" "(t, v) \<in># ca_held x" "(t, WaitEvict v e) \<in> set (ca_waits x)" for x y
  proof -
    have busy: "busy x t" and readers: "lru_readers (ca_cache x) v \<noteq> 0"
      using that busyI readersOf_held [OF that(3)] by (simp_all add: callers_inv_def)
    from that(1) show ?thesis unfolding callerStep_def
    proof
      assume "startStep cap x y"
      then show ?thesis using that(3,4) by cases auto
    next
      assume "finishStep x y"
      then show ?thesis
      proof cases
        case (finish_release u f)
        with busy that(3,4) show ?thesis by (cases "u = t") (auto simp: in_diff_count)
      qed (use that(3,4) readers in \<open>auto simp: waitingAs_def\<close>)
    qed
  qed
  from assms(4) have "callers_inv d \<and> (t, v) \<in># ca_held d \<and> (t, WaitEvict v e) \<in> set (ca_waits d)"
  proof (induction rule: rtranclp_induct)
    case base
    with assms(1-3) callers_inv_reach show ?case by blast
  next
    case (step x y)
    with stays startStep_inv finishStep_inv show ?case unfolding callerStep_def by blast
  qed
  then show ?thesis by blast
qed

text \<open>So it is when caller 0 asks for \<open>b\<close> itself, as \<open>Delete\<close> does with the other buckets of a location
  while it reads the database of its own.\<close>

theorem holder_waits_forever_witness:
  "\<forall>d. (callerStep 1)\<^sup>*\<^sup>* (wantsB 0) d \<longrightarrow> (0, WaitEvict 0 1) \<in> set (ca_waits d)"
proof (intro allI impI)
  fix d assume d: "(callerStep 1)\<^sup>*\<^sup>* (wantsB 0) d"
  have "(0, 0) \<in># ca_held (wantsB 0)" "(0, WaitEvict 0 1) \<in> set (ca_waits (wantsB 0))" by (simp_all add: wantsB_fields)
  from holder_waits_forever [OF wantsB_reached this d] show "(0, WaitEvict 0 1) \<in> set (ca_waits d)" by blast
qed

end
