(* ===== verification/Spec2Isabelle.thy ===== *)
theory Spec2Isabelle
  imports SyncFacts DaemonRun InspectFacts WebFacts AdminFacts ProvisionFacts SessionFacts LRUCallers
begin

text \<open>
  WebDAVS3 is an S3 gateway that keeps objects on WebDAV servers. Its metadata are SQLite databases in
  a local cache directory, which it uploads next to the objects. This theory imports the whole
  development; it has no content of its own.

  \<^bold>\<open>The program.\<close> One process, the daemon (\<open>cmd/webdavs3/main.go\<close>), serves three HTTP interfaces: S3
  (\<open>internal/s3api\<close>, behind the signature check of \<open>internal/auth\<close>), a web interface for users
  (\<open>internal/webui\<close>) and one for the administrator (\<open>internal/adminui\<close>). They call the services
  for objects, multipart uploads and buckets (\<open>internal/object\<close>, \<open>internal/bucket\<close>), which read and
  write three kinds of databases (\<open>internal/meta\<close>): \<open>structure.db\<close> with locations, users and buckets, one
  database per bucket with its objects, and the ledger of usage. Objects and databases travel through the
  clients of \<open>internal/webdav\<close>. The sync engine (\<open>internal/sync\<close>) merges what other daemons left
  on a location and flushes the databases; \<open>internal/repair\<close> closes a bucket whose remote metadata are damaged,
  \<open>internal/quota\<close> checks a write against the ledger, \<open>internal/provisioning\<close> sets up a first
  start from a file. The other commands of the binary collect garbage, inspect a location, dump the
  configuration, set up and check the health of a daemon.

  \<^bold>\<open>How the code is modelled.\<close> A call that can fail and change state is an \<open>('s, 'a) act\<close>, a function from the
  state to a result \<open>gerr + 'a\<close> and the new state (\<open>Prelude\<close>). \<open>bnd\<close> and \<open>thn\<close> stop at an error, \<open>attempt\<close> is an \<open>err\<close> that
  the code looks at or drops, \<open>wrapE\<close> is \<open>fmt.Errorf\<close> with \<open>%w\<close>. A panic is the error \<open>EAbort\<close>, which
  \<open>attempt\<close> does not catch. Go strings and byte slices are lists of bytes, \<open>int64\<close> is \<open>int\<close>
  with the wrap-around written out (\<open>i64\<close>), times are nanoseconds, a table is a list of rows in insertion
  order with its uniqueness constraints (\<open>Table\<close>). The rest of the world is the type \<open>'w\<close>: every system
  call, driver call, clock and random number is a field of a record (\<open>Runtime.env\<close>) and may fail at any time.
  \<open>Server\<close> states what a WebDAV server promises, as a locale; the client over the \<open>gowebdav\<close> library and
  the retrying client are shown to pass the promise on.

  \<^bold>\<open>The theories.\<close>
  \<^item> \<open>Prelude\<close>, \<open>Base64\<close>, \<open>Table\<close>, \<open>Runtime\<close>: the standard library, errors, calls with their Hoare triples
    and invariants (\<open>keeps\<close>, \<open>wp\<close>), SQL statements, and the parameters.
  \<^item> \<open>Structure\<close>, \<open>BucketDB\<close>, \<open>Stats\<close>: the three databases of \<open>internal/meta\<close>, their constraints and
    the laws of a keyed store; both listing algorithms; the import of a ledger. \<open>LRU\<close>: the cache of open bucket
    databases, as one goroutine sees it and as a step relation of concurrent calls; \<open>LRUCallers\<close>: the same with the callers
    that hold databases and wait in calls.
  \<^item> \<open>Quota\<close>, \<open>Repair\<close>: \<open>internal/quota\<close>, \<open>internal/repair\<close>.
  \<^item> \<open>WebDAV\<close>, \<open>Server\<close>: \<open>internal/webdav\<close>, and the contract of a server.
  \<^item> \<open>Daemon\<close>, \<open>Object\<close>, \<open>Multipart\<close>, \<open>BucketService\<close>, \<open>GC\<close>: the state the services share and the services, whole
    handlers with every error branch. \<open>DaemonFacts\<close> and \<open>ObjectFacts\<close> say which remote files and which
    databases a call can reach (\<open>within\<close>), and what it leaves there.
  \<^item> \<open>SigV4\<close>, \<open>Chunked\<close>, \<open>S3Api\<close>, \<open>S3Facts\<close>: the signature check, the reader of chunked bodies, the S3 handlers with
    middleware and routing, and who can do what through them.
  \<^item> \<open>Sync\<close>, \<open>SyncFacts\<close>: the engine, what a merge keeps locally and brings in, what a flush and a repair leave remotely.
  \<^item> \<open>Crypto\<close>, \<open>Sessions\<close>, \<open>WebUI\<close>, \<open>AdminUI\<close>: stored credentials, the two session stores, the handlers and the
    routing of the two web interfaces. \<open>WebAccess\<close>, \<open>WebFacts\<close>, \<open>AdminFacts\<close>: isolation of users, the ends of
    the loops over pages, the login of the administrator, the credentials of a new user. \<open>SessionFacts\<close>: histories of
    logins, logouts and requests.
  \<^item> \<open>Configuration\<close>, \<open>Provision\<close>, \<open>ProvisionFacts\<close>: \<open>config.go\<close>, \<open>setup.go\<close>, the command line, and the provision file.
  \<^item> \<open>DaemonMain\<close>: \<open>main.go\<close>, the services put together and the running daemon as a step relation whose steps
    are requests, ticks of the two workers and the initial directories, each atomic.
    \<open>DaemonInv\<close>, \<open>DaemonKeeps\<close>, \<open>DaemonRun\<close>: the moves all handlers are made of, and what therefore holds in every
    state the daemon can reach. \<open>Inspect\<close>, \<open>InspectFacts\<close>: the report of \<open>inspect.go\<close>.

  \<^bold>\<open>What is shown.\<close>
  \<^item> Data: an object that is stored comes back, through the service and through signed requests; deletions
    and garbage collections leave what is still referred to; an upload that reports success was verified;
    completing an upload publishes the object once.
  \<^item> Databases: the cache keeps the databases used last, in the order of their use; insertion, lookup and listing against their specification; importing a ledger twice counts
    once; the quota holds for recorded writes that do not overflow; every reachable state satisfies the constraints of the schemas.
  \<^item> Access: a request is dispatched only under a valid signature of an enabled user; no request reaches
    another user's bucket, on either interface (dropping a bucket on the web interface excepted, where the code does not
    look at the owner); the administrator's pages need a session, a session needs the password.
  \<^item> Credentials and signatures: encryption and decryption, the credentials of a new user, acceptance and soundness of
    signatures, chunked bodies as the refinement of signed frames, session stores as the refinement of a history.
  \<^item> Distribution: a sync keeps local locations, users, bucket databases, and buckets up to the location they are assigned to, which a
    merge overwrites; a merge is complete; a repair ends in a degraded bucket, or in a healthy one whose remote file is a copy of
    the local database, an empty one when there was none; a flush leaves the daemon's own rows; provisioning provides what
    its file asks for, unless the marker of an earlier run stops it, which is no error. A metadata upload replaces the remote
    file by one rename of a verified copy, or not at all.
  \<^item> Concurrency: no database is closed while it is in use, in every interleaving of the cache's operations. Once no
    further call begins, the calls in progress end in every schedule, provided no caller waits for the cache while it reads a
    database itself; one that waits for a database it reads itself, as a delete can that looks for other references, waits for ever.

  \<^bold>\<open>Bounds.\<close> Loops over lists are structural. \<open>listBatches\<close> has the fuel \<open>batchFuel\<close>, above the number of rows of the bucket:
    a batch that is not the last one passes a row, and the theorem on delimited listings shows that the fuel never runs out.
    The page loops of the web interface take the number \<open>wd_fuel\<close> of pages; when it exceeds the objects of every bucket (\<open>enough_rounds\<close>)
    listing and deleting end with a response, while a rename has no bound, in the code as in the model. \<open>stripSeqs\<close> has the length of the string as fuel.
    \<open>readChunks\<close>, \<open>readTrailingHeaders\<close>, \<open>frames\<close> and \<open>putParts\<close> are shown to terminate by the rest of the body.

  \<^bold>\<open>Parameters.\<close> SQLite's engine, the file formats, \<open>gowebdav\<close>, YAML, AES-GCM, \<open>bcrypt\<close> and the hash functions are
    arguments, and what a theorem needs of them is a named hypothesis: \<open>webdav_server\<close>, \<open>env_ok\<close> (lengths of digests
    and random bytes), \<open>aead_ok\<close>, \<open>bcrypt_ok\<close>, \<open>opens_wf\<close>. Each has an instance on which the witnesses run.

  \<^bold>\<open>Not modelled.\<close> Logging; the text of HTML pages and XML documents (a page is the data of its template, and
    rendering it does not fail) with the functions of the templates, and the static files; the printed forms of the report (\<open>printInspectText\<close>, \<open>formatBytes\<close>, JSON);
    a download that breaks off in the middle (\<open>cl_Download\<close> gives the whole file or an error); NUL bytes, invalid UTF-8 and the limit on the
    length of the pattern in \<open>LIKE\<close>; listeners, timeouts, signals, the intervals of the workers and \<open>os.Exit\<close>; \<open>internal/meta/db.go\<close>, which only opens the driver. The handlers are
    atomic and sequential: concurrency is modelled in the cache alone, and a call that would block on it is a step
    that does not happen there, but not in the handlers.
\<close>

end
